theory Spec2Isabelle
  imports Main
begin

section \<open>Data model of the WebGPU backends\<close>

text \<open>
  The two backends under verification are \<^verbatim>\<open>js/web/lib/wasm/jsep/backend-webgpu.ts\<close>
  (called the JSEP backend below) and \<^verbatim>\<open>js/web/lib/onnxjs/backends/backend-webgpu.ts\<close>
  (the onnxjs backend). Mutation of \<^verbatim>\<open>this\<close> is explicit state passing; a thrown
  \<^verbatim>\<open>Error\<close> is a value of type \<open>error\<close>, returned together with the state the
  throw leaves behind.
\<close>

datatype error =
    WebGpuNotAvailable
  | FailedToGetAdapter
  | RequestDeviceFailed string
  | InputSizeMustBeEqualTo nat
  | NoGpuDataForInput int
  | OutputSizeMustBeEqualTo nat
  | InvalidOutputIndex int
  | NoGpuDataForOutput int
  | KernelNotImplemented string
  | KernelNotCreated int
  | KernelCalledRecursively string
  | ReleasingDataDoesNotExist int
  | AttributeParserError string
  | KernelEntryError string
  | CreateOutputError string
  | NullCommandEncoder

text \<open>\<^verbatim>\<open>GpuData\<close>: the fields the backend reads. \<^verbatim>\<open>GpuDataType\<close> is a numeric enum.\<close>

record gpuData =
  gpuDataId :: int
  gpuDataType :: nat

record tensorView =
  data :: int
  dataType :: int
  dims :: "int list"

text \<open>One entry of \<^verbatim>\<open>programInfo.outputs\<close>.\<close>

record outputInfo =
  outputDataType :: int
  outputDims :: "int list"

record programInfo =
  name :: string
  cacheHint :: "string option"
  inputTypes :: "nat list"
  outputs :: "outputInfo list"
  dispatchGroup :: "tensorView list \<Rightarrow> nat \<times> nat \<times> nat"

text \<open>
  \<^verbatim>\<open>ProgramInfoLoader | ProgramInfo\<close>: a loader carries the metadata (name, cache hint,
  input types) and a \<^verbatim>\<open>get()\<close> that materialises the program information.
\<close>

record programInfoLoader =
  loaderName :: string
  loaderCacheHint :: "string option"
  loaderInputTypes :: "nat list"
  get :: programInfo

datatype program = Loader programInfoLoader | Info programInfo

fun programName :: "program \<Rightarrow> string" where
  "programName (Loader l) = loaderName l"
| "programName (Info p) = name p"

fun programCacheHint :: "program \<Rightarrow> string option" where
  "programCacheHint (Loader l) = loaderCacheHint l"
| "programCacheHint (Info p) = cacheHint p"

fun programInputTypes :: "program \<Rightarrow> nat list" where
  "programInputTypes (Loader l) = loaderInputTypes l"
| "programInputTypes (Info p) = inputTypes p"

text \<open>
  \<^verbatim>\<open>typeof program.get === 'function' ? program.get() : program\<close>
\<close>

fun materialize :: "program \<Rightarrow> programInfo" where
  "materialize (Loader l) = get l"
| "materialize (Info p) = p"

record artifact =
  artifactProgramInfo :: programInfo
  computePipeline :: nat

text \<open>
  What a command encoder has recorded. A compute pass records into its parent encoder,
  so the encoder is the list of everything recorded since it was created.
\<close>

datatype command =
    BeginComputePass
  | Dispatch artifact "gpuData list" "gpuData list" "nat \<times> nat \<times> nat"
  | EndComputePass

record gpuLimits =
  maxComputeWorkgroupStorageSize :: nat
  maxComputeWorkgroupsPerDimension :: nat
  maxStorageBufferBindingSize :: nat

text \<open>
  The device: the limits and features it was requested with, and its queue, which is
  the list of command buffers submitted so far (\<^verbatim>\<open>device.queue.submit\<close>).
\<close>

record gpuDevice =
  requiredLimits :: gpuLimits
  requiredFeatures :: "string list"
  queue :: "command list list"

subsection \<open>The buffer registry\<close>

text \<open>
  Modelled from the spec: \<^verbatim>\<open>./webgpu/gpu-data-manager\<close> (the \<^verbatim>\<open>GpuDataManager\<close> behind
  \<^verbatim>\<open>createGpuDataManager\<close>) is not among the sources. The spec's Buffer Registry owns
  the buffers, each identified by an opaque integer id; \<^verbatim>\<open>release(id)\<close> marks the buffer
  eligible for reuse and is an error if the id is unknown (double release). The
  registry is the list of live buffers (id and \<^verbatim>\<open>GpuDataType\<close>) and the list of released
  ids that wait for the next flush.
\<close>

record gpuDataManager =
  storageCache :: "(int \<times> nat) list"
  buffersPending :: "int list"

definition gdm_get :: "gpuDataManager \<Rightarrow> int \<Rightarrow> gpuData option" where
  "gdm_get g i = map_option (\<lambda>t. \<lparr>gpuDataId = i, gpuDataType = t\<rparr>) (map_of (storageCache g) i)"

definition gdm_release :: "gpuDataManager \<Rightarrow> int \<Rightarrow> error + gpuDataManager" where
  "gdm_release g i =
     (case map_of (storageCache g) i of
        None \<Rightarrow> Inl (ReleasingDataDoesNotExist i)
      | Some t \<Rightarrow> Inr (g\<lparr>storageCache := filter (\<lambda>p. fst p \<noteq> i) (storageCache g),
                         buffersPending := buffersPending g @ [i]\<rparr>))"

definition refreshPendingBuffers :: "gpuDataManager \<Rightarrow> gpuDataManager" where
  "refreshPendingBuffers g = g\<lparr>buffersPending := []\<rparr>"

text \<open>
  Modelled from the spec: \<^verbatim>\<open>alloc(size)\<close> returns a buffer under a fresh id. The id
  chosen is one above the largest live id.
\<close>

definition freshId :: "gpuDataManager \<Rightarrow> int" where
  "freshId g = fold max (map fst (storageCache g)) 0 + 1"

definition gdm_create :: "gpuDataManager \<Rightarrow> gpuData \<times> gpuDataManager" where
  "gdm_create g =
     (let i = freshId g
      in (\<lparr>gpuDataId = i, gpuDataType = 0\<rparr>, g\<lparr>storageCache := (i, 0) # storageCache g\<rparr>))"

subsection \<open>The program cache\<close>

text \<open>
  Modelled from the spec: \<^verbatim>\<open>./webgpu/program-manager\<close> is not among the sources. The
  spec's Program Cache maps a fingerprint to a compiled program; lookup is a pure read,
  and the cache is unbounded. \<open>builds\<close> is the log of compilations: every
  \<^verbatim>\<open>build\<close> appends the program information it compiled, and the compiled pipeline is
  identified by its position in that log, so two compilations never give the same
  artifact. \<open>flushThreshold\<close> is the pending-dispatch threshold of the spec's run
  protocol, step 6.
\<close>

record programManager =
  repo :: "string \<rightharpoonup> artifact"
  builds :: "programInfo list"
  flushThreshold :: nat

definition getArtifact :: "programManager \<Rightarrow> string \<Rightarrow> artifact option" where
  "getArtifact pm key = repo pm key"

definition setArtifact :: "programManager \<Rightarrow> string \<Rightarrow> artifact \<Rightarrow> programManager" where
  "setArtifact pm key a = pm\<lparr>repo := (repo pm)(key \<mapsto> a)\<rparr>"

definition build :: "programManager \<Rightarrow> programInfo \<Rightarrow> artifact \<times> programManager" where
  "build pm pinfo =
     (\<lparr>artifactProgramInfo = pinfo, computePipeline = length (builds pm)\<rparr>,
      pm\<lparr>builds := builds pm @ [pinfo]\<rparr>)"

subsection \<open>Kernels\<close>

text \<open>
  A kernel entry (\<^verbatim>\<open>RunFunction\<close>) sees the backend only through
  \<^verbatim>\<open>context.compute\<close>, which calls \<^verbatim>\<open>run\<close>. What an entry does is therefore a tree:
  it returns a number, throws, or calls \<^verbatim>\<open>compute\<close> with a program, inputs and output
  indices and goes on from the tensor views it gets back.
\<close>

datatype kernelProgram =
    Return int
  | Throw string
  | Compute program "tensorView list" "int list" "tensorView list \<Rightarrow> kernelProgram"

type_synonym attribute = string

type_synonym runFunction = "tensorView list \<Rightarrow> attribute \<Rightarrow> kernelProgram"

text \<open>
  \<^verbatim>\<open>[string, RunFunction, [((attribute: unknown) => unknown) | undefined, unknown]]\<close>
\<close>

type_synonym attributeParser = "attribute \<Rightarrow> string + attribute"

type_synonym kernel = "string \<times> runFunction \<times> (attributeParser option \<times> attribute)"

text \<open>
  The callbacks \<^verbatim>\<open>run\<close> receives. They reach the backend through the buffer registry
  only, and they may throw.
\<close>

type_synonym createKernelOutputFn =
  "int \<Rightarrow> int \<Rightarrow> int list \<Rightarrow> gpuDataManager \<Rightarrow> (string + tensorView) \<times> gpuDataManager"

type_synonym createTemporaryOutputFn =
  "int \<Rightarrow> int list \<Rightarrow> gpuDataManager \<Rightarrow> (string + tensorView) \<times> gpuDataManager"

record computeContext =
  inputs :: "tensorView list"
  createKernelOutput :: createKernelOutputFn
  createTemporaryOutput :: createTemporaryOutputFn

subsection \<open>The JSEP backend\<close>

text \<open>
  \<^verbatim>\<open>kernelPersistentData\<close> is keyed by \<^verbatim>\<open>this.currentKernelId!\<close>, which is
  \<^verbatim>\<open>null\<close> (here \<open>None\<close>) when \<^verbatim>\<open>run\<close> is called outside a kernel.
  \<^verbatim>\<open>temporaryData\<close> is declared \<^verbatim>\<open>GpuData[]\<close> with no initialiser and is assigned by
  \<^verbatim>\<open>computeKernel\<close> before every kernel entry; it is a list here. The profiling query
  set plays no part in the operations below and is left out.
\<close>

record webGpuBackend =
  device :: gpuDevice
  gpuDataManager :: gpuDataManager
  programManager :: programManager
  temporaryData :: "gpuData list"
  currentKernelId :: "int option"
  kernelPersistentData :: "int option \<rightharpoonup> gpuData list"
  kernels :: "int \<rightharpoonup> kernel"
  commandEncoder :: "command list option"
  computePassEncoder :: "unit option"
  pendingDispatchNumber :: nat
  profilingEnabled :: bool

text \<open>
  The two handles are \<open>None\<close> for \<^verbatim>\<open>null\<close>. An open command encoder is the list
  of commands recorded into it; the accessors create their handle on first use, and a
  compute pass records its begin, its dispatches and its end into the encoder.
\<close>

definition getCommandEncoder :: "webGpuBackend \<Rightarrow> webGpuBackend" where
  "getCommandEncoder b =
     (if commandEncoder b = None then b\<lparr>commandEncoder := Some []\<rparr> else b)"

definition record_command :: "command \<Rightarrow> webGpuBackend \<Rightarrow> webGpuBackend" where
  "record_command c b = b\<lparr>commandEncoder := map_option (\<lambda>cs. cs @ [c]) (commandEncoder b)\<rparr>"

definition getComputePassEncoder :: "webGpuBackend \<Rightarrow> webGpuBackend" where
  "getComputePassEncoder b =
     (if computePassEncoder b = None
      then (record_command BeginComputePass (getCommandEncoder b))\<lparr>computePassEncoder := Some ()\<rparr>
      else b)"

definition endComputePass :: "webGpuBackend \<Rightarrow> webGpuBackend" where
  "endComputePass b =
     (if computePassEncoder b \<noteq> None
      then (record_command EndComputePass b)\<lparr>computePassEncoder := None\<rparr>
      else b)"

definition submit :: "command list \<Rightarrow> webGpuBackend \<Rightarrow> webGpuBackend" where
  "submit cs b = b\<lparr>device := (device b)\<lparr>queue := queue (device b) @ [cs]\<rparr>\<rparr>"

definition flush :: "webGpuBackend \<Rightarrow> webGpuBackend" where
  "flush b =
     (let b1 = endComputePass b;
          b2 = getCommandEncoder b1;
          b3 = submit (case commandEncoder b2 of Some cs \<Rightarrow> cs | None \<Rightarrow> []) b2;
          b4 = b3\<lparr>gpuDataManager := refreshPendingBuffers (gpuDataManager b3)\<rparr>
      in b4\<lparr>commandEncoder := None, pendingDispatchNumber := 0\<rparr>)"

subsection \<open>The onnxjs backend\<close>

text \<open>
  The fields of the onnxjs backend that its \<^verbatim>\<open>initialize\<close> and its command batcher
  read and write.
\<close>

record onnxjsBackend =
  onnxjsDevice :: gpuDevice
  onnxjsCommandEncoder :: "command list option"
  onnxjsComputePassEncoder :: "unit option"
  onnxjsPendingDispatchNumber :: nat
  supportProfiling :: bool

definition onnxjs_endComputePass :: "onnxjsBackend \<Rightarrow> onnxjsBackend" where
  "onnxjs_endComputePass b =
     (if onnxjsComputePassEncoder b \<noteq> None
      then b\<lparr>onnxjsCommandEncoder := map_option (\<lambda>cs. cs @ [EndComputePass]) (onnxjsCommandEncoder b),
             onnxjsComputePassEncoder := None\<rparr>
      else b)"

text \<open>
  \<^verbatim>\<open>this.commandEncoder!.finish()\<close>: with no encoder the call is on \<^verbatim>\<open>null\<close> and throws.
\<close>

definition onnxjs_flush :: "onnxjsBackend \<Rightarrow> (error + unit) \<times> onnxjsBackend" where
  "onnxjs_flush b =
     (let b1 = onnxjs_endComputePass b
      in case onnxjsCommandEncoder b1 of
           None \<Rightarrow> (Inl NullCommandEncoder, b1)
         | Some cs \<Rightarrow>
             (Inr (),
              b1\<lparr>onnxjsDevice := (onnxjsDevice b1)\<lparr>queue := queue (onnxjsDevice b1) @ [cs]\<rparr>,
                 onnxjsCommandEncoder := None,
                 onnxjsPendingDispatchNumber := 0\<rparr>))"


section \<open>The JSEP backend: programs, kernels, invocation\<close>

subsection \<open>The cache key\<close>

text \<open>
  Numbers print in decimal, as in \<^verbatim>\<open>Array.prototype.join\<close>. The numbers joined are
  tensor dimensions and enum values, taken as integers; JavaScript prints a number from
  1e21 on in exponent form, which is not modelled.
\<close>

definition digitChar :: "nat \<Rightarrow> char" where
  "digitChar d = ''0123456789'' ! d"

fun decimalDigits :: "nat \<Rightarrow> string \<Rightarrow> string" where
  "decimalDigits n acc =
     (if n < 10 then digitChar n # acc
      else decimalDigits (n div 10) (digitChar (n mod 10) # acc))"

definition numberToString :: "int \<Rightarrow> string" where
  "numberToString x =
     (if 0 \<le> x then decimalDigits (nat x) [] else CHR ''-'' # decimalDigits (nat (- x)) [])"

fun join :: "string \<Rightarrow> string list \<Rightarrow> string" where
  "join sep [] = []"
| "join sep [x] = x"
| "join sep (x # y # ys) = x @ sep @ join sep (y # ys)"

text \<open>
  \<^verbatim>\<open>if (programInfo.cacheHint)\<close>: an undefined and an empty hint are both falsy.
\<close>

definition getProgramInfoUniqueKey :: "program \<Rightarrow> int list list \<Rightarrow> nat list \<Rightarrow> string" where
  "getProgramInfoUniqueKey programInfo inputTensorShapes inputGpuDataTypes =
     (let inputTensorShapesToString =
            join ''_'' (map (\<lambda>d. join '','' (map numberToString d)) inputTensorShapes);
          inputGpuDataTypesToString = join ''_'' (map (numberToString \<circ> int) inputGpuDataTypes);
          key = programName programInfo;
          key' = (case programCacheHint programInfo of
                    None \<Rightarrow> key
                  | Some hint \<Rightarrow> if hint = [] then key else key @ ''['' @ hint @ '']'')
      in key' @ '':'' @ inputTensorShapesToString @ '';'' @ inputGpuDataTypesToString)"

subsection \<open>Recording a dispatch\<close>

text \<open>
  Modelled from the spec: \<^verbatim>\<open>ProgramManager.run\<close> is not among the sources. The spec's run
  protocol, steps 5 and 6: record the dispatch into the current compute pass, binding
  input and output buffers; increment the pending-dispatch counter; if it crosses the
  flush threshold, flush.
\<close>

definition pm_run ::
  "artifact \<Rightarrow> gpuData list \<Rightarrow> gpuData list \<Rightarrow> nat \<times> nat \<times> nat \<Rightarrow> webGpuBackend \<Rightarrow> webGpuBackend" where
  "pm_run a inputDatas outputDatas grp b =
     (let b1 = record_command (Dispatch a inputDatas outputDatas grp) (getComputePassEncoder b);
          b2 = b1\<lparr>pendingDispatchNumber := pendingDispatchNumber b1 + 1\<rparr>
      in if flushThreshold (programManager b2) \<le> pendingDispatchNumber b2 then flush b2 else b2)"

subsection \<open>\<^verbatim>\<open>run\<close>\<close>

text \<open>The first loop of \<^verbatim>\<open>run\<close>: the GPU data of every input, or the first one missing.\<close>

fun getInputDatas :: "gpuDataManager \<Rightarrow> tensorView list \<Rightarrow> error + gpuData list" where
  "getInputDatas g [] = Inr []"
| "getInputDatas g (t # ts) =
     (case gdm_get g (data t) of
        None \<Rightarrow> Inl (NoGpuDataForInput (data t))
      | Some d \<Rightarrow> (case getInputDatas g ts of Inl e \<Rightarrow> Inl e | Inr ds \<Rightarrow> Inr (d # ds)))"

text \<open>\<^verbatim>\<open>persistentData.push(gpuData)\<close>, with the list created on first use.\<close>

definition pushPersistent :: "gpuData \<Rightarrow> webGpuBackend \<Rightarrow> webGpuBackend" where
  "pushPersistent d b =
     b\<lparr>kernelPersistentData :=
         (kernelPersistentData b)(currentKernelId b \<mapsto>
            (case kernelPersistentData b (currentKernelId b) of None \<Rightarrow> [] | Some pd \<Rightarrow> pd) @ [d])\<rparr>"

text \<open>
  One iteration of the second loop of \<^verbatim>\<open>run\<close>, for the validated output index \<open>idx\<close>
  and the declared output \<open>out\<close>; \<open>n\<close> is \<^verbatim>\<open>programInfo.outputs.length\<close>. Indices
  are integers here, so \<^verbatim>\<open>Number.isInteger\<close> holds. The callback has changed the
  registry by the time a missing buffer makes the iteration throw.
\<close>

definition createOutput ::
  "createKernelOutputFn \<Rightarrow> createTemporaryOutputFn \<Rightarrow> nat \<Rightarrow> int \<Rightarrow> outputInfo \<Rightarrow>
   webGpuBackend \<Rightarrow> (error + tensorView \<times> gpuData) \<times> webGpuBackend" where
  "createOutput cko cto n idx out b =
     (if idx < - 2 \<or> int n \<le> idx then (Inl (InvalidOutputIndex idx), b)
      else
        let isTemporary = (idx = - 2);
            isPersistent = (idx = - 1);
            (r, g) = (if isTemporary \<or> isPersistent
                      then cto (outputDataType out) (outputDims out) (gpuDataManager b)
                      else cko idx (outputDataType out) (outputDims out) (gpuDataManager b));
            b1 = b\<lparr>gpuDataManager := g\<rparr>
        in case r of
             Inl msg \<Rightarrow> (Inl (CreateOutputError msg), b1)
           | Inr tv \<Rightarrow>
               (case gdm_get g (data tv) of
                  None \<Rightarrow> (Inl (NoGpuDataForOutput (data tv)), b1)
                | Some d \<Rightarrow>
                    let b2 = (if isTemporary then b1\<lparr>temporaryData := temporaryData b1 @ [d]\<rparr> else b1);
                        b3 = (if isPersistent then pushPersistent d b2 else b2)
                    in (Inr (tv, d), b3)))"

text \<open>
  The loop itself, over the validated output indices paired with the declared outputs.
  A throw leaves what the earlier iterations did.
\<close>

fun createOutputs ::
  "createKernelOutputFn \<Rightarrow> createTemporaryOutputFn \<Rightarrow> nat \<Rightarrow> (int \<times> outputInfo) list \<Rightarrow>
   webGpuBackend \<Rightarrow> (error + tensorView list \<times> gpuData list) \<times> webGpuBackend" where
  "createOutputs cko cto n [] b = (Inr ([], []), b)"
| "createOutputs cko cto n (io # rest) b =
     (case createOutput cko cto n (fst io) (snd io) b of
        (Inl e, b') \<Rightarrow> (Inl e, b')
      | (Inr td, b') \<Rightarrow>
          (case createOutputs cko cto n rest b' of
             (Inl e, b'') \<Rightarrow> (Inl e, b'')
           | (Inr r, b'') \<Rightarrow> (Inr (fst td # fst r, snd td # snd r), b'')))"

text \<open>The program information \<^verbatim>\<open>run\<close> works with: the cached artifact's, if there is one.\<close>

definition resolveProgramInfo :: "artifact option \<Rightarrow> program \<Rightarrow> programInfo" where
  "resolveProgramInfo a program =
     (case a of Some a' \<Rightarrow> artifactProgramInfo a' | None \<Rightarrow> materialize program)"

text \<open>\<^verbatim>\<open>if (!artifact) { artifact = build(programInfo); setArtifact(key, artifact); }\<close>\<close>

definition ensureArtifact ::
  "artifact option \<Rightarrow> string \<Rightarrow> programInfo \<Rightarrow> webGpuBackend \<Rightarrow> artifact \<times> webGpuBackend" where
  "ensureArtifact a key pinfo b =
     (case a of
        Some a' \<Rightarrow> (a', b)
      | None \<Rightarrow>
          (let (a', pm) = build (programManager b) pinfo
           in (a', b\<lparr>programManager := setArtifact pm key a'\<rparr>)))"

definition run ::
  "program \<Rightarrow> tensorView list \<Rightarrow> int list \<Rightarrow> createKernelOutputFn \<Rightarrow> createTemporaryOutputFn \<Rightarrow>
   webGpuBackend \<Rightarrow> (error + tensorView list) \<times> webGpuBackend" where
  "run program ins outputIndices cko cto b =
     (if length ins \<noteq> length (programInputTypes program)
      then (Inl (InputSizeMustBeEqualTo (length (programInputTypes program))), b)
      else
        case getInputDatas (gpuDataManager b) ins of
          Inl e \<Rightarrow> (Inl e, b)
        | Inr inputDatas \<Rightarrow>
            let key = getProgramInfoUniqueKey program (map dims ins) (map gpuDataType inputDatas);
                a = getArtifact (programManager b) key;
                pinfo = resolveProgramInfo a program;
                validatedOutputIndices =
                  (if length outputIndices = 0 then map int [0..<length (outputs pinfo)]
                   else outputIndices)
            in if length validatedOutputIndices \<noteq> length (outputs pinfo)
               then (Inl (OutputSizeMustBeEqualTo (length (outputs pinfo))), b)
               else
                 case createOutputs cko cto (length (outputs pinfo))
                        (zip validatedOutputIndices (outputs pinfo)) b of
                   (Inl e, b1) \<Rightarrow> (Inl e, b1)
                 | (Inr created, b1) \<Rightarrow>
                     let outputTensorViews = fst created;
                         outputDatas = snd created;
                         (a', b2) = ensureArtifact a key pinfo b1
                     in (Inr outputTensorViews,
                         pm_run a' inputDatas outputDatas
                           (dispatchGroup (artifactProgramInfo a') ins) b2))"

subsection \<open>Kernel instances\<close>

text \<open>
  \<^verbatim>\<open>WEBGPU_OP_RESOLVE_RULES\<close> is not among the sources; it is the parameter \<open>rules\<close>,
  from a kernel name to the run function and the optional attribute parser.
\<close>

definition createKernel ::
  "(string \<rightharpoonup> runFunction \<times> attributeParser option) \<Rightarrow> string \<Rightarrow> int \<Rightarrow> attribute \<Rightarrow>
   webGpuBackend \<Rightarrow> (error + unit) \<times> webGpuBackend" where
  "createKernel rules nm kernelId attr b =
     (case rules nm of
        None \<Rightarrow> (Inl (KernelNotImplemented nm), b)
      | Some rule \<Rightarrow> (Inr (), b\<lparr>kernels := (kernels b)(kernelId \<mapsto> (nm, fst rule, (snd rule, attr)))\<rparr>))"

text \<open>
  \<^verbatim>\<open>for (const data of list) { this.gpuDataManager.release(data.id); }\<close>: a release that
  throws ends the loop, with the earlier buffers released.
\<close>

fun releaseAll :: "gpuData list \<Rightarrow> gpuDataManager \<Rightarrow> (error + unit) \<times> gpuDataManager" where
  "releaseAll [] g = (Inr (), g)"
| "releaseAll (d # ds) g =
     (case gdm_release g (gpuDataId d) of
        Inl e \<Rightarrow> (Inl e, g)
      | Inr g' \<Rightarrow> releaseAll ds g')"

definition releaseKernel :: "int \<Rightarrow> webGpuBackend \<Rightarrow> (error + unit) \<times> webGpuBackend" where
  "releaseKernel kernelId b =
     (case kernelPersistentData b (Some kernelId) of
        None \<Rightarrow> (Inr (), b\<lparr>kernels := (kernels b)(kernelId := None)\<rparr>)
      | Some persistentData \<Rightarrow>
          (case releaseAll persistentData (gpuDataManager b) of
             (Inl e, g) \<Rightarrow> (Inl e, b\<lparr>gpuDataManager := g\<rparr>)
           | (Inr u, g) \<Rightarrow>
               (Inr (),
                b\<lparr>gpuDataManager := g,
                  kernelPersistentData := (kernelPersistentData b)(Some kernelId := None),
                  kernels := (kernels b)(kernelId := None)\<rparr>)))"

text \<open>Running a kernel entry: each \<^verbatim>\<open>compute\<close> is a \<^verbatim>\<open>run\<close>; an error propagates.\<close>

primrec execEntry ::
  "kernelProgram \<Rightarrow> computeContext \<Rightarrow> webGpuBackend \<Rightarrow> (error + int) \<times> webGpuBackend" where
  "execEntry (Return v) ctx b = (Inr v, b)"
| "execEntry (Throw msg) ctx b = (Inl (KernelEntryError msg), b)"
| "execEntry (Compute p ins outputIndices k) ctx b =
     (case run p ins outputIndices (createKernelOutput ctx) (createTemporaryOutput ctx) b of
        (Inl e, b') \<Rightarrow> (Inl e, b')
      | (Inr tvs, b') \<Rightarrow> execEntry (k tvs) ctx b')"

text \<open>
  \<^verbatim>\<open>if (attributes[0]) { attributes[1] = attributes[0](attributes[1]); attributes[0] = undefined; }\<close>:
  the attributes after the step, or the message of the error the parser threw. The
  parser is any function of the attribute and may throw.
\<close>

definition parseAttributes ::
  "attributeParser option \<times> attribute \<Rightarrow> string + attributeParser option \<times> attribute" where
  "parseAttributes attrs =
     (case fst attrs of
        None \<Rightarrow> Inr attrs
      | Some parse \<Rightarrow>
          (case parse (snd attrs) of
             Inl msg \<Rightarrow> Inl msg
           | Inr v \<Rightarrow> Inr (None, v)))"

text \<open>
  The state \<^verbatim>\<open>computeKernel\<close> has set up when it reaches \<^verbatim>\<open>try\<close>, for the parsed
  attributes \<open>attrs'\<close>: the marker set, the kernel's attributes replaced by the parsed
  ones if there was a parser, the temporary list empty.
\<close>

definition enterKernel ::
  "int \<Rightarrow> kernel \<Rightarrow> attributeParser option \<times> attribute \<Rightarrow> webGpuBackend \<Rightarrow> webGpuBackend" where
  "enterKernel kernelId kern attrs' b =
     (case kern of (nm, kernelEntry, attrs) \<Rightarrow>
        b\<lparr>currentKernelId := Some kernelId,
          kernels := (if fst attrs = None then kernels b
                      else (kernels b)(kernelId \<mapsto> (nm, kernelEntry, attrs'))),
          temporaryData := []\<rparr>)"

text \<open>
  The \<^verbatim>\<open>finally\<close> block: an error thrown by a release replaces the outcome of the
  \<^verbatim>\<open>try\<close> block and skips the two assignments after the loop.
\<close>

definition leaveKernel :: "(error + int) \<times> webGpuBackend \<Rightarrow> (error + int) \<times> webGpuBackend" where
  "leaveKernel rb =
     (case rb of (result, b) \<Rightarrow>
        (case releaseAll (temporaryData b) (gpuDataManager b) of
           (Inl e, g) \<Rightarrow> (Inl e, b\<lparr>gpuDataManager := g\<rparr>)
         | (Inr u, g) \<Rightarrow>
             (result, b\<lparr>gpuDataManager := g, temporaryData := [], currentKernelId := None\<rparr>)))"

text \<open>
  \<^verbatim>\<open>computeKernel\<close>. The marker is set and the attributes are parsed before the
  \<^verbatim>\<open>try\<close> statement: a parser that throws ends the call with the marker set, and the
  \<^verbatim>\<open>finally\<close> block does not run.
\<close>

definition computeKernel ::
  "int \<Rightarrow> computeContext \<Rightarrow> webGpuBackend \<Rightarrow> (error + int) \<times> webGpuBackend" where
  "computeKernel kernelId ctx b =
     (case kernels b kernelId of
        None \<Rightarrow> (Inl (KernelNotCreated kernelId), b)
      | Some kern \<Rightarrow>
          (case kern of (nm, kernelEntry, attrs) \<Rightarrow>
             if currentKernelId b \<noteq> None then (Inl (KernelCalledRecursively nm), b)
             else
               (case parseAttributes attrs of
                  Inl msg \<Rightarrow> (Inl (AttributeParserError msg), b\<lparr>currentKernelId := Some kernelId\<rparr>)
                | Inr attrs' \<Rightarrow>
                    leaveKernel
                      (execEntry (kernelEntry (inputs ctx) (snd attrs')) ctx
                         (enterKernel kernelId kern attrs' b)))))"

subsection \<open>Initialization\<close>

text \<open>
  The environment of \<^verbatim>\<open>initialize\<close>: \<^verbatim>\<open>navigator.gpu\<close> is absent (\<open>None\<close>), or
  \<^verbatim>\<open>requestAdapter\<close> resolves to \<^verbatim>\<open>null\<close> (\<open>Some None\<close>) or to an adapter. The
  adapter grants the device it is asked for, with the limits and features of the
  descriptor, or rejects the request with a message.
\<close>

record gpuAdapter =
  adapterLimits :: gpuLimits
  adapterFeatures :: "string list"
  requestDeviceError :: "string option"

record navigator =
  gpu :: "gpuAdapter option option"

definition deviceDescriptorLimits :: "gpuAdapter \<Rightarrow> gpuLimits" where
  "deviceDescriptorLimits adapter =
     \<lparr>maxComputeWorkgroupStorageSize = maxComputeWorkgroupStorageSize (adapterLimits adapter),
      maxComputeWorkgroupsPerDimension = maxComputeWorkgroupsPerDimension (adapterLimits adapter),
      maxStorageBufferBindingSize = maxStorageBufferBindingSize (adapterLimits adapter)\<rparr>"

definition requestDevice :: "gpuAdapter \<Rightarrow> gpuLimits \<Rightarrow> string list \<Rightarrow> error + gpuDevice" where
  "requestDevice adapter lims feats =
     (case requestDeviceError adapter of
        Some msg \<Rightarrow> Inl (RequestDeviceFailed msg)
      | None \<Rightarrow> Inr \<lparr>requiredLimits = lims, requiredFeatures = feats, queue = []\<rparr>)"

text \<open>
  The JSEP \<^verbatim>\<open>initialize\<close>, on a backend object as its field initialisers leave it;
  \<open>profilingMode\<close> is \<^verbatim>\<open>env.webgpu.profilingMode\<close> and \<open>threshold\<close> the flush
  threshold of the program manager it creates. It returns nothing and throws on failure.
  \<^verbatim>\<open>temporaryData\<close>, which the source leaves unassigned until the first
  \<^verbatim>\<open>computeKernel\<close>, is the empty list in the result.
\<close>

definition initialize :: "navigator \<Rightarrow> string \<Rightarrow> nat \<Rightarrow> error + webGpuBackend" where
  "initialize nav profilingMode threshold =
     (case gpu nav of
        None \<Rightarrow> Inl WebGpuNotAvailable
      | Some None \<Rightarrow> Inl FailedToGetAdapter
      | Some (Some adapter) \<Rightarrow>
          (let profiling = (''timestamp-query'' \<in> set (adapterFeatures adapter)
                            \<and> profilingMode = ''default'')
           in case requestDevice adapter (deviceDescriptorLimits adapter)
                     (if profiling then [''timestamp-query''] else []) of
                Inl e \<Rightarrow> Inl e
              | Inr dev \<Rightarrow>
                  Inr \<lparr>device = dev,
                       gpuDataManager = \<lparr>storageCache = [], buffersPending = []\<rparr>,
                       programManager = \<lparr>repo = Map.empty, builds = [], flushThreshold = threshold\<rparr>,
                       temporaryData = [],
                       currentKernelId = None,
                       kernelPersistentData = Map.empty,
                       kernels = Map.empty,
                       commandEncoder = None,
                       computePassEncoder = None,
                       pendingDispatchNumber = 0,
                       profilingEnabled = profiling\<rparr>))"

text \<open>
  The onnxjs \<^verbatim>\<open>initialize\<close>. The body of its \<^verbatim>\<open>try\<close> block returns \<^verbatim>\<open>false\<close> early
  or throws; the \<^verbatim>\<open>catch\<close> turns every throw into \<^verbatim>\<open>false\<close>. The second component
  of the result is the backend object as a successful initialization leaves it.
\<close>

definition onnxjs_initialize_try :: "navigator \<Rightarrow> error + bool \<times> onnxjsBackend option" where
  "onnxjs_initialize_try nav =
     (case gpu nav of
        None \<Rightarrow> Inr (False, None)
      | Some None \<Rightarrow> Inr (False, None)
      | Some (Some adapter) \<Rightarrow>
          (let profiling = (''timestamp-query'' \<in> set (adapterFeatures adapter))
           in case requestDevice adapter (deviceDescriptorLimits adapter)
                     (if profiling then [''timestamp-query''] else []) of
                Inl e \<Rightarrow> Inl e
              | Inr dev \<Rightarrow>
                  Inr (True,
                       Some \<lparr>onnxjsDevice = dev,
                             onnxjsCommandEncoder = None,
                             onnxjsComputePassEncoder = None,
                             onnxjsPendingDispatchNumber = 0,
                             supportProfiling = profiling\<rparr>)))"

definition onnxjs_initialize :: "navigator \<Rightarrow> bool \<times> onnxjsBackend option" where
  "onnxjs_initialize nav =
     (case onnxjs_initialize_try nav of
        Inl e \<Rightarrow> (False, None)
      | Inr r \<Rightarrow> r)"

section \<open>Vocabulary of the properties\<close>

text \<open>A buffer id is live when the registry holds a buffer under it.\<close>

definition isLive :: "gpuDataManager \<Rightarrow> int \<Rightarrow> bool" where
  "isLive g i = (map_of (storageCache g) i \<noteq> None)"

text \<open>
  What the theorems ask of the callbacks handed to \<^verbatim>\<open>run\<close>. A callback keeps the
  buffers when every buffer live before it is still there, unchanged, after it; it
  allocates fresh when the tensor it returns is backed by a buffer that was not live
  before.
\<close>

definition keepsBuffers :: "(gpuDataManager \<Rightarrow> (string + tensorView) \<times> gpuDataManager) \<Rightarrow> bool" where
  "keepsBuffers f = (\<forall>g. map_of (storageCache g) \<subseteq>\<^sub>m map_of (storageCache (snd (f g))))"

definition allocatesFresh :: "(gpuDataManager \<Rightarrow> (string + tensorView) \<times> gpuDataManager) \<Rightarrow> bool" where
  "allocatesFresh f = (\<forall>g tv. fst (f g) = Inr tv \<longrightarrow> \<not> isLive g (data tv))"

definition wellBehaved :: "createKernelOutputFn \<Rightarrow> createTemporaryOutputFn \<Rightarrow> bool" where
  "wellBehaved cko cto =
     ((\<forall>i dt ds. keepsBuffers (cko i dt ds))
      \<and> (\<forall>dt ds. keepsBuffers (cto dt ds) \<and> allocatesFresh (cto dt ds)))"

text \<open>
  The temporary list is in order, relative to a set \<open>P\<close> of protected buffer ids: its
  buffers are live and pairwise different, and the protected buffers are live and not
  among them.
\<close>

definition temporariesOk :: "int set \<Rightarrow> webGpuBackend \<Rightarrow> bool" where
  "temporariesOk P b =
     (distinct (map gpuDataId (temporaryData b))
      \<and> (\<forall>d \<in> set (temporaryData b). isLive (gpuDataManager b) (gpuDataId d))
      \<and> (\<forall>i \<in> P. isLive (gpuDataManager b) i \<and> i \<notin> gpuDataId ` set (temporaryData b)))"

text \<open>
  Two backend states agree on everything but the buffer bookkeeping (the registry, the
  temporary list and the persistent lists).
\<close>

definition sameControlState :: "webGpuBackend \<Rightarrow> webGpuBackend \<Rightarrow> bool" where
  "sameControlState b b' =
     (device b' = device b \<and> programManager b' = programManager b
      \<and> currentKernelId b' = currentKernelId b \<and> kernels b' = kernels b
      \<and> commandEncoder b' = commandEncoder b \<and> computePassEncoder b' = computePassEncoder b
      \<and> pendingDispatchNumber b' = pendingDispatchNumber b
      \<and> profilingEnabled b' = profilingEnabled b)"

text \<open>
  The run of a kernel entry reaches a later point: \<open>reaches ctx kp b kp' b'\<close> when
  running \<open>kp\<close> from state \<open>b\<close> comes, after some successful computations, to
  run \<open>kp'\<close> from state \<open>b'\<close>.
\<close>

inductive reaches ::
  "computeContext \<Rightarrow> kernelProgram \<Rightarrow> webGpuBackend \<Rightarrow> kernelProgram \<Rightarrow> webGpuBackend \<Rightarrow> bool"
  for ctx :: computeContext where
    here: "reaches ctx kp b kp b"
  | later:
      "run p ins oi (createKernelOutput ctx) (createTemporaryOutput ctx) b = (Inr tvs, b1) \<Longrightarrow>
       reaches ctx (k tvs) b1 kp' b' \<Longrightarrow>
       reaches ctx (Compute p ins oi k) b kp' b'"

text \<open>
  The outputs \<^verbatim>\<open>run\<close> takes as declared, for a program and inputs in a backend state:
  those of the program information it resolves once the inputs have passed validation.
\<close>

definition declaredOutputs :: "webGpuBackend \<Rightarrow> program \<Rightarrow> tensorView list \<Rightarrow> outputInfo list" where
  "declaredOutputs b p ins =
     (case getInputDatas (gpuDataManager b) ins of
        Inl e \<Rightarrow> []
      | Inr inputDatas \<Rightarrow>
          outputs (resolveProgramInfo
            (getArtifact (programManager b)
               (getProgramInfoUniqueKey p (map dims ins) (map gpuDataType inputDatas))) p))"

text \<open>An output index outside the declared range and not one of the two markers.\<close>

definition invalidIndex :: "nat \<Rightarrow> int \<Rightarrow> bool" where
  "invalidIndex n idx = (idx < - 2 \<or> int n \<le> idx)"

text \<open>The errors of creating an output: the callback threw, or its buffer is unknown.\<close>

fun isCreationError :: "error \<Rightarrow> bool" where
  "isCreationError (CreateOutputError msg) = True"
| "isCreationError (NoGpuDataForOutput i) = True"
| "isCreationError e = False"

text \<open>The persistent buffers attached under a key of \<^verbatim>\<open>kernelPersistentData\<close>.\<close>

definition persistentOf :: "webGpuBackend \<Rightarrow> int option \<Rightarrow> gpuData list" where
  "persistentOf b k = (case kernelPersistentData b k of None \<Rightarrow> [] | Some pd \<Rightarrow> pd)"

text \<open>
  The persistent list under a key is in order when its buffers are live and pairwise
  different; inside an invocation, moreover, none of them is in the temporary list.
\<close>

definition persistentLive :: "int option \<Rightarrow> webGpuBackend \<Rightarrow> bool" where
  "persistentLive k b =
     (distinct (map gpuDataId (persistentOf b k))
      \<and> (\<forall>d \<in> set (persistentOf b k). isLive (gpuDataManager b) (gpuDataId d)))"

definition persistentOk :: "int option \<Rightarrow> webGpuBackend \<Rightarrow> bool" where
  "persistentOk k b =
     (persistentLive k b
      \<and> (\<forall>d \<in> set (persistentOf b k). gpuDataId d \<notin> gpuDataId ` set (temporaryData b)))"

text \<open>
  The compiled programs dispatched so far, in order: those of the submitted command
  buffers, then those of the open recording. The recording session is in order when an
  open compute pass has its encoder.
\<close>

definition dispatched :: "command list \<Rightarrow> artifact list" where
  "dispatched cs =
     concat (map (\<lambda>c. case c of Dispatch a ins outs grp \<Rightarrow> [a] | _ \<Rightarrow> []) cs)"

definition dispatchLog :: "webGpuBackend \<Rightarrow> artifact list" where
  "dispatchLog b =
     concat (map dispatched (queue (device b)))
       @ (case commandEncoder b of None \<Rightarrow> [] | Some cs \<Rightarrow> dispatched cs)"

definition sessionOk :: "webGpuBackend \<Rightarrow> bool" where
  "sessionOk b = (computePassEncoder b = None \<or> commandEncoder b \<noteq> None)"

text \<open>
  The cache hint as the key sees it: an absent hint and an empty one are both left out
  of the key.
\<close>

definition cacheHintText :: "program \<Rightarrow> string" where
  "cacheHintText p = (case programCacheHint p of None \<Rightarrow> [] | Some hint \<Rightarrow> hint)"

text \<open>Reading a decimal numeral back: the value of a digit, and of a string of digits.\<close>

definition digitValue :: "char \<Rightarrow> nat" where
  "digitValue c = of_char c - 48"

definition decimalValue :: "string \<Rightarrow> nat" where
  "decimalValue s = foldl (\<lambda>v c. 10 * v + digitValue c) 0 s"

section \<open>Example states\<close>

text \<open>Concrete adapters, devices and backends on which the theorems below are instantiated.\<close>

definition example_limits :: gpuLimits where
  "example_limits = \<lparr>maxComputeWorkgroupStorageSize = 16384, maxComputeWorkgroupsPerDimension = 65535,
      maxStorageBufferBindingSize = 134217728\<rparr>"

definition example_adapter :: gpuAdapter where
  "example_adapter = \<lparr>adapterLimits = example_limits, adapterFeatures = [''timestamp-query''], requestDeviceError = None\<rparr>"

definition example_navigator :: navigator where
  "example_navigator = \<lparr>gpu = Some (Some example_adapter)\<rparr>"

definition example_device :: gpuDevice where
  "example_device = \<lparr>requiredLimits = example_limits, requiredFeatures = [], queue = []\<rparr>"

definition example_backend :: webGpuBackend where
  "example_backend =
     \<lparr>device = example_device,
      gpuDataManager = \<lparr>storageCache = [], buffersPending = []\<rparr>,
      programManager = \<lparr>repo = Map.empty, builds = [], flushThreshold = 16\<rparr>,
      temporaryData = [],
      currentKernelId = None,
      kernelPersistentData = Map.empty,
      kernels = Map.empty,
      commandEncoder = None,
      computePassEncoder = None,
      pendingDispatchNumber = 0,
      profilingEnabled = False\<rparr>"

definition example_onnxjs_backend :: onnxjsBackend where
  "example_onnxjs_backend =
     \<lparr>onnxjsDevice = example_device,
      onnxjsCommandEncoder = None,
      onnxjsComputePassEncoder = None,
      onnxjsPendingDispatchNumber = 0,
      supportProfiling = False\<rparr>"

text \<open>
  Callbacks that obtain every output from the registry's \<^verbatim>\<open>alloc\<close>, and a context
  made of them.
\<close>

definition allocOutput :: "int \<Rightarrow> int list \<Rightarrow> gpuDataManager \<Rightarrow> (string + tensorView) \<times> gpuDataManager" where
  "allocOutput dt ds g =
     (let (d, g') = gdm_create g in (Inr \<lparr>data = gpuDataId d, dataType = dt, dims = ds\<rparr>, g'))"

definition example_context :: computeContext where
  "example_context =
     \<lparr>inputs = [], createKernelOutput = (\<lambda>i. allocOutput), createTemporaryOutput = allocOutput\<rparr>"

text \<open>
  A program with two inputs and one output, and three kernels: \<^verbatim>\<open>add\<close> computes the
  program on the inputs of its context and asks for its output as output 0;
  \<^verbatim>\<open>noop\<close> returns at once; \<^verbatim>\<open>fill\<close> computes an input-free program into a
  temporary and a persistent buffer and then throws.
\<close>

definition example_program :: programInfo where
  "example_program =
     \<lparr>name = ''add'', cacheHint = None, inputTypes = [0, 0],
      outputs = [\<lparr>outputDataType = 1, outputDims = [2, 3]\<rparr>],
      dispatchGroup = (\<lambda>ins. (1, 1, 1))\<rparr>"

definition example_fill :: programInfo where
  "example_fill =
     \<lparr>name = ''fill'', cacheHint = Some ''f32'', inputTypes = [],
      outputs = [\<lparr>outputDataType = 1, outputDims = [4]\<rparr>, \<lparr>outputDataType = 1, outputDims = [4]\<rparr>],
      dispatchGroup = (\<lambda>ins. (1, 1, 1))\<rparr>"

definition example_add_kernel :: kernel where
  "example_add_kernel =
     (''add'', (\<lambda>ins attr. Compute (Info example_program) ins [0] (\<lambda>tvs. Return 0)), (None, []))"

definition example_noop_kernel :: kernel where
  "example_noop_kernel = (''noop'', (\<lambda>ins attr. Return 0), (None, []))"

definition example_fill_kernel :: kernel where
  "example_fill_kernel =
     (''fill'',
      (\<lambda>ins attr. Compute (Info example_fill) [] [- 2, - 1] (\<lambda>tvs. Throw ''stop'')),
      (None, []))"

definition example_kernels :: "int \<rightharpoonup> kernel" where
  "example_kernels =
     [1 \<mapsto> example_add_kernel, 2 \<mapsto> example_noop_kernel, 3 \<mapsto> example_fill_kernel]"

definition example_registry :: webGpuBackend where
  "example_registry = example_backend\<lparr>kernels := example_kernels\<rparr>"

text \<open>
  A backend whose registry holds two buffers, and the two tensors of shape 2 by 3 that
  they back.
\<close>

definition example_loaded :: webGpuBackend where
  "example_loaded =
     example_registry\<lparr>gpuDataManager := \<lparr>storageCache = [(1, 0), (2, 0)], buffersPending = []\<rparr>\<rparr>"

definition example_inputs :: "tensorView list" where
  "example_inputs =
     [\<lparr>data = 1, dataType = 1, dims = [2, 3]\<rparr>, \<lparr>data = 2, dataType = 1, dims = [2, 3]\<rparr>]"

text \<open>The artifact of the first compilation of the example program.\<close>

definition example_artifact :: artifact where
  "example_artifact = \<lparr>artifactProgramInfo = example_program, computePipeline = 0\<rparr>"

text \<open>
  A second registry. \<^verbatim>\<open>conv\<close> has an attribute parser that throws; \<^verbatim>\<open>chain\<close> has one
  that succeeds, computes the input-free program and then the two-input program on one
  tensor; \<^verbatim>\<open>twice\<close> asks for two temporary outputs.
\<close>

definition example_conv_kernel :: kernel where
  "example_conv_kernel =
     (''conv'', (\<lambda>ins attr. Return 0), (Some (\<lambda>attr. Inl ''bad attribute''), []))"

definition example_chain_kernel :: kernel where
  "example_chain_kernel =
     (''chain'',
      (\<lambda>ins attr. Compute (Info example_fill) [] [- 2, - 1]
                    (\<lambda>tvs. Compute (Info example_program) (take 1 tvs) [0] (\<lambda>tvs'. Return 0))),
      (Some (\<lambda>attr. Inr attr), []))"

definition example_twice_kernel :: kernel where
  "example_twice_kernel =
     (''twice'',
      (\<lambda>ins attr. Compute (Info example_fill) [] [- 2, - 2] (\<lambda>tvs. Return 0)),
      (None, []))"

definition example_registry2 :: webGpuBackend where
  "example_registry2 =
     example_backend\<lparr>kernels := [2 \<mapsto> example_noop_kernel, 4 \<mapsto> example_conv_kernel,
                                 5 \<mapsto> example_chain_kernel, 6 \<mapsto> example_twice_kernel]\<rparr>"

text \<open>
  A callback that backs every temporary output by buffer 1, creating the buffer if it
  is not there, and a context with it.
\<close>

definition reuseOutput :: "int \<Rightarrow> int list \<Rightarrow> gpuDataManager \<Rightarrow> (string + tensorView) \<times> gpuDataManager" where
  "reuseOutput dt ds g =
     (Inr \<lparr>data = 1, dataType = dt, dims = ds\<rparr>,
      if map_of (storageCache g) 1 = None then g\<lparr>storageCache := (1, 0) # storageCache g\<rparr> else g)"

definition example_reusing_context :: computeContext where
  "example_reusing_context =
     \<lparr>inputs = [], createKernelOutput = (\<lambda>i. allocOutput), createTemporaryOutput = reuseOutput\<rparr>"

text \<open>
  A program with one input, a backend whose two buffers differ in their GPU data type,
  and two tensors of the same shape and element type that they back.
\<close>

definition example_unary :: programInfo where
  "example_unary =
     \<lparr>name = ''neg'', cacheHint = None, inputTypes = [0],
      outputs = [\<lparr>outputDataType = 1, outputDims = [2, 3]\<rparr>],
      dispatchGroup = (\<lambda>ins. (1, 1, 1))\<rparr>"

definition example_mixed :: webGpuBackend where
  "example_mixed =
     example_backend\<lparr>gpuDataManager := \<lparr>storageCache = [(1, 0), (2, 1)], buffersPending = []\<rparr>\<rparr>"

definition example_first_tensor :: tensorView where
  "example_first_tensor = \<lparr>data = 1, dataType = 1, dims = [2, 3]\<rparr>"

definition example_second_tensor :: tensorView where
  "example_second_tensor = \<lparr>data = 2, dataType = 1, dims = [2, 3]\<rparr>"

section \<open>Basic facts\<close>

lemma not_Some_unit: "(x \<noteq> Some ()) = (x = None)"
  by (cases x) auto

section \<open>The buffer bookkeeping of \<^verbatim>\<open>run\<close>\<close>

lemma gdm_get_SomeD:
  "gdm_get g i = Some d \<Longrightarrow> gpuDataId d = i \<and> isLive g i"
  by (auto simp: gdm_get_def isLive_def)

lemma isLive_mono:
  "map_of (storageCache g) \<subseteq>\<^sub>m map_of (storageCache g') \<Longrightarrow> isLive g i \<Longrightarrow> isLive g' i"
  by (auto simp: isLive_def map_le_def dom_def)

lemma sameControlState_refl: "sameControlState b b"
  by (simp add: sameControlState_def)

lemma sameControlState_trans:
  "sameControlState b b' \<Longrightarrow> sameControlState b' b'' \<Longrightarrow> sameControlState b b''"
  by (simp add: sameControlState_def)

lemma createOutput_frame:
  "createOutput cko cto n idx out b = (r, b') \<Longrightarrow> sameControlState b b'"
  unfolding createOutput_def Let_def pushPersistent_def sameControlState_def
  by (auto split: if_splits prod.splits sum.splits option.splits)

lemma createOutputs_frame:
  "createOutputs cko cto n zs b = (r, b') \<Longrightarrow> sameControlState b b'"
proof (induction zs arbitrary: b r b')
  case Nil
  then show ?case by (simp add: sameControlState_refl)
next
  case (Cons z zs)
  obtain r1 b1 where step: "createOutput cko cto n (fst z) (snd z) b = (r1, b1)"
    by (cases "createOutput cko cto n (fst z) (snd z) b")
  note f1 = createOutput_frame [OF step]
  show ?case
  proof (cases r1)
    case (Inl e)
    with Cons.prems step f1 show ?thesis by simp
  next
    case (Inr td)
    obtain r2 b2 where rest: "createOutputs cko cto n zs b1 = (r2, b2)"
      by (cases "createOutputs cko cto n zs b1")
    from Cons.IH [OF rest] have f2: "sameControlState b1 b2" .
    from Cons.prems step Inr rest have "b' = b2"
      by (auto split: sum.splits)
    with f1 f2 show ?thesis by (auto intro: sameControlState_trans)
  qed
qed

text \<open>One iteration keeps the temporary list in order.\<close>

lemma createOutput_inv:
  assumes wb: "wellBehaved cko cto"
      and ok: "temporariesOk P b"
      and step: "createOutput cko cto n idx out b = (r, b')"
  shows "temporariesOk P b'
         \<and> map_of (storageCache (gpuDataManager b)) \<subseteq>\<^sub>m map_of (storageCache (gpuDataManager b'))"
proof (cases "idx < - 2 \<or> int n \<le> idx")
  case True
  with step have "b' = b" by (simp add: createOutput_def)
  with ok show ?thesis by simp
next
  case valid: False
  define f where "f = (if idx = - 2 \<or> idx = - 1
                      then cto (outputDataType out) (outputDims out)
                      else cko idx (outputDataType out) (outputDims out))"
  obtain cr g where call: "f (gpuDataManager b) = (cr, g)"
    by (cases "f (gpuDataManager b)")
  from wb have keeps: "keepsBuffers f"
    by (simp add: f_def wellBehaved_def)
  from keeps call have le: "map_of (storageCache (gpuDataManager b)) \<subseteq>\<^sub>m map_of (storageCache g)"
    by (auto simp: keepsBuffers_def dest: spec [of _ "gpuDataManager b"])
  have ok1: "temporariesOk P (b\<lparr>gpuDataManager := g\<rparr>)"
    using ok le by (auto simp: temporariesOk_def intro: isLive_mono)
  show ?thesis
  proof (cases cr)
    case (Inl msg)
    with step valid call have "b' = b\<lparr>gpuDataManager := g\<rparr>"
      by (auto simp: createOutput_def f_def Let_def split: if_splits)
    with ok1 le show ?thesis by simp
  next
    case (Inr tv)
    show ?thesis
    proof (cases "gdm_get g (data tv)")
      case None
      with step valid call Inr have "b' = b\<lparr>gpuDataManager := g\<rparr>"
        by (auto simp: createOutput_def f_def Let_def split: if_splits)
      with ok1 le show ?thesis by simp
    next
      case (Some d)
      from gdm_get_SomeD [OF Some] have did: "gpuDataId d = data tv" and dlive: "isLive g (data tv)"
        by simp_all
      consider (temp) "idx = - 2" | (pers) "idx = - 1" | (kern) "idx \<noteq> - 2" "idx \<noteq> - 1"
        by blast
      then show ?thesis
      proof cases
        case temp
        with step valid call Inr Some
        have b': "b' = b\<lparr>gpuDataManager := g, temporaryData := temporaryData b @ [d]\<rparr>"
          by (auto simp: createOutput_def f_def Let_def)
        from wb temp have "allocatesFresh f"
          by (simp add: f_def wellBehaved_def)
        with call Inr have fresh: "\<not> isLive (gpuDataManager b) (data tv)"
          by (auto simp: allocatesFresh_def dest: spec [of _ "gpuDataManager b"])
        have "temporariesOk P b'"
          unfolding b' using ok1 ok fresh did dlive
          by (auto simp: temporariesOk_def)
        with le b' show ?thesis by simp
      next
        case pers
        with step valid call Inr Some
        have b': "b' = pushPersistent d (b\<lparr>gpuDataManager := g\<rparr>)"
          by (auto simp: createOutput_def f_def Let_def)
        have "temporariesOk P b'"
          unfolding b' using ok1 by (simp add: temporariesOk_def pushPersistent_def)
        with le b' show ?thesis by (simp add: pushPersistent_def)
      next
        case kern
        with step valid call Inr Some
        have b': "b' = b\<lparr>gpuDataManager := g\<rparr>"
          by (auto simp: createOutput_def f_def Let_def)
        with ok1 le show ?thesis by simp
      qed
    qed
  qed
qed

lemma createOutputs_inv:
  assumes wb: "wellBehaved cko cto"
  shows "temporariesOk P b \<Longrightarrow> createOutputs cko cto n zs b = (r, b') \<Longrightarrow>
         temporariesOk P b'
         \<and> map_of (storageCache (gpuDataManager b)) \<subseteq>\<^sub>m map_of (storageCache (gpuDataManager b'))"
proof (induction zs arbitrary: b r b')
  case Nil
  then show ?case by simp
next
  case (Cons z zs)
  obtain r1 b1 where step: "createOutput cko cto n (fst z) (snd z) b = (r1, b1)"
    by (cases "createOutput cko cto n (fst z) (snd z) b")
  note i1 = createOutput_inv [OF wb Cons.prems(1) step]
  show ?case
  proof (cases r1)
    case (Inl e)
    with Cons.prems step i1 show ?thesis by simp
  next
    case (Inr td)
    obtain r2 b2 where rest: "createOutputs cko cto n zs b1 = (r2, b2)"
      by (cases "createOutputs cko cto n zs b1")
    from i1 have "temporariesOk P b1" by simp
    from Cons.IH [OF this rest] have i2: "temporariesOk P b2
       \<and> map_of (storageCache (gpuDataManager b1)) \<subseteq>\<^sub>m map_of (storageCache (gpuDataManager b2))" .
    from Cons.prems step Inr rest have "b' = b2"
      by (auto split: sum.splits)
    with i1 i2 show ?thesis by (auto intro: map_le_trans)
  qed
qed

lemma flush_bookkeeping:
  "storageCache (gpuDataManager (flush b)) = storageCache (gpuDataManager b)"
  "temporaryData (flush b) = temporaryData b"
  "kernelPersistentData (flush b) = kernelPersistentData b"
  "currentKernelId (flush b) = currentKernelId b"
  "kernels (flush b) = kernels b"
  "programManager (flush b) = programManager b"
  by (simp_all add: flush_def Let_def submit_def getCommandEncoder_def endComputePass_def
      record_command_def refreshPendingBuffers_def)

lemma pm_run_bookkeeping:
  "storageCache (gpuDataManager (pm_run a ids ods grp b)) = storageCache (gpuDataManager b)"
  "temporaryData (pm_run a ids ods grp b) = temporaryData b"
  "kernelPersistentData (pm_run a ids ods grp b) = kernelPersistentData b"
  "currentKernelId (pm_run a ids ods grp b) = currentKernelId b"
  "kernels (pm_run a ids ods grp b) = kernels b"
  "programManager (pm_run a ids ods grp b) = programManager b"
  by (simp_all add: pm_run_def Let_def flush_bookkeeping getComputePassEncoder_def
      getCommandEncoder_def record_command_def)

lemma ensureArtifact_bookkeeping:
  "gpuDataManager (snd (ensureArtifact a key pinfo b)) = gpuDataManager b"
  "temporaryData (snd (ensureArtifact a key pinfo b)) = temporaryData b"
  "kernelPersistentData (snd (ensureArtifact a key pinfo b)) = kernelPersistentData b"
  "currentKernelId (snd (ensureArtifact a key pinfo b)) = currentKernelId b"
  "kernels (snd (ensureArtifact a key pinfo b)) = kernels b"
  by (simp_all add: ensureArtifact_def build_def setArtifact_def split: option.splits)

lemma temporariesOk_cong:
  "storageCache (gpuDataManager b') = storageCache (gpuDataManager b) \<Longrightarrow>
   temporaryData b' = temporaryData b \<Longrightarrow> temporariesOk P b' = temporariesOk P b"
  by (simp add: temporariesOk_def isLive_def)

text \<open>
  The shape of \<^verbatim>\<open>run\<close>: it fails before the output loop and changes nothing, or it
  fails in the loop and leaves the loop's state, or it completes from the loop's state.
\<close>

lemma run_cases:
  assumes "run p ins oi cko cto b = (r, b')"
  obtains (early) e where "r = Inl e" and "b' = b"
  | (loop) e zs n where "r = Inl e" and "createOutputs cko cto n zs b = (Inl e, b')"
  | (complete) tvs ds zs n b1 a key pinfo a' b2 ids
      where "r = Inr tvs" and "createOutputs cko cto n zs b = (Inr (tvs, ds), b1)"
        and "ensureArtifact a key pinfo b1 = (a', b2)"
        and "b' = pm_run a' ids ds (dispatchGroup (artifactProgramInfo a') ins) b2"
        and "a = getArtifact (programManager b) key"
  using assms unfolding run_def Let_def
  by (auto split: if_splits sum.splits prod.splits)

lemma ensureArtifact_bookkeeping':
  assumes "ensureArtifact a key pinfo b = (a', b')"
  shows "gpuDataManager b' = gpuDataManager b" and "temporaryData b' = temporaryData b"
    and "kernelPersistentData b' = kernelPersistentData b"
    and "currentKernelId b' = currentKernelId b" and "kernels b' = kernels b"
  using ensureArtifact_bookkeeping [of a key pinfo b] assms by simp_all

lemma run_inv:
  assumes wb: "wellBehaved cko cto"
      and ok: "temporariesOk P b"
      and run: "run p ins oi cko cto b = (r, b')"
  shows "temporariesOk P b'
         \<and> map_of (storageCache (gpuDataManager b)) \<subseteq>\<^sub>m map_of (storageCache (gpuDataManager b'))"
  using run
proof (cases rule: run_cases)
  case (early e)
  with ok show ?thesis by simp
next
  case (loop e zs n)
  from createOutputs_inv [OF wb ok loop(2)] show ?thesis .
next
  case (complete tvs ds zs n b1 a key pinfo a' b2 ids)
  from createOutputs_inv [OF wb ok complete(2)]
  have i1: "temporariesOk P b1"
    and le: "map_of (storageCache (gpuDataManager b)) \<subseteq>\<^sub>m map_of (storageCache (gpuDataManager b1))"
    by simp_all
  have st: "storageCache (gpuDataManager b') = storageCache (gpuDataManager b1)"
    and tm: "temporaryData b' = temporaryData b1"
    unfolding complete(4)
    by (simp_all add: pm_run_bookkeeping ensureArtifact_bookkeeping' [OF complete(3)])
  from temporariesOk_cong [OF st tm] i1 le st show ?thesis by simp
qed

lemma run_marker:
  assumes run: "run p ins oi cko cto b = (r, b')"
  shows "currentKernelId b' = currentKernelId b \<and> kernels b' = kernels b"
  using run
proof (cases rule: run_cases)
  case (early e)
  then show ?thesis by simp
next
  case (loop e zs n)
  from createOutputs_frame [OF loop(2)] show ?thesis by (simp add: sameControlState_def)
next
  case (complete tvs ds zs n b1 a key pinfo a' b2 ids)
  from createOutputs_frame [OF complete(2)] show ?thesis
    unfolding complete(4)
    by (simp add: sameControlState_def pm_run_bookkeeping ensureArtifact_bookkeeping' [OF complete(3)])
qed

lemma execEntry_inv:
  assumes wb: "wellBehaved (createKernelOutput ctx) (createTemporaryOutput ctx)"
  shows "temporariesOk P b \<Longrightarrow> execEntry kp ctx b = (r, b') \<Longrightarrow>
         temporariesOk P b'
         \<and> map_of (storageCache (gpuDataManager b)) \<subseteq>\<^sub>m map_of (storageCache (gpuDataManager b'))
         \<and> currentKernelId b' = currentKernelId b \<and> kernels b' = kernels b"
proof (induction kp arbitrary: b r b')
  case (Return v)
  then show ?case by simp
next
  case (Throw msg)
  then show ?case by simp
next
  case (Compute p ins oi k)
  obtain r1 b1 where step: "run p ins oi (createKernelOutput ctx) (createTemporaryOutput ctx) b = (r1, b1)"
    by (cases "run p ins oi (createKernelOutput ctx) (createTemporaryOutput ctx) b")
  note i1 = run_inv [OF wb Compute.prems(1) step] and m1 = run_marker [OF step]
  show ?case
  proof (cases r1)
    case (Inl e)
    with Compute.prems step have "b' = b1" by simp
    with i1 m1 show ?thesis by simp
  next
    case (Inr tvs)
    with Compute.prems step have rest: "execEntry (k tvs) ctx b1 = (r, b')" by simp
    from i1 have "temporariesOk P b1" by simp
    from Compute.IH [OF _ this rest] i1 m1 show ?thesis
      by (auto intro: map_le_trans)
  qed
qed

text \<open>Releasing a list of live, pairwise different buffers succeeds and removes exactly them.\<close>

lemma gdm_release_live:
  "isLive g i \<Longrightarrow>
   \<exists>g'. gdm_release g i = Inr g'
      \<and> (\<forall>j. map_of (storageCache g') j = (if j = i then None else map_of (storageCache g) j))"
proof -
  have filt: "\<And>xs j. map_of (filter (\<lambda>p. fst p \<noteq> i) xs) j
                 = (if j = i then None else map_of xs j)"
    subgoal for xs j by (induction xs) auto
    done
  assume "isLive g i"
  then show ?thesis
    by (auto simp: gdm_release_def isLive_def filt)
qed

lemma releaseAll_live:
  "distinct (map gpuDataId ds) \<Longrightarrow> \<forall>d \<in> set ds. isLive g (gpuDataId d) \<Longrightarrow>
   \<exists>g'. releaseAll ds g = (Inr (), g')
      \<and> (\<forall>j. map_of (storageCache g') j
              = (if j \<in> gpuDataId ` set ds then None else map_of (storageCache g) j))"
proof (induction ds arbitrary: g)
  case Nil
  then show ?case by simp
next
  case (Cons d ds)
  from Cons.prems have "isLive g (gpuDataId d)" by simp
  from gdm_release_live [OF this] obtain g1 where
    rel: "gdm_release g (gpuDataId d) = Inr g1"
    and st: "\<forall>j. map_of (storageCache g1) j
               = (if j = gpuDataId d then None else map_of (storageCache g) j)"
    by blast
  from Cons.prems have dist: "distinct (map gpuDataId ds)"
    and notin: "gpuDataId d \<notin> gpuDataId ` set ds" by auto
  have "\<forall>x \<in> set ds. isLive g1 (gpuDataId x)"
  proof
    fix x assume x: "x \<in> set ds"
    with notin have "gpuDataId x \<noteq> gpuDataId d" by (metis imageI)
    moreover from x Cons.prems(2) have "isLive g (gpuDataId x)" by simp
    ultimately show "isLive g1 (gpuDataId x)" using st by (simp add: isLive_def)
  qed
  from Cons.IH [OF dist this] obtain g2 where
    rest: "releaseAll ds g1 = (Inr (), g2)"
    and st2: "\<forall>j. map_of (storageCache g2) j
               = (if j \<in> gpuDataId ` set ds then None else map_of (storageCache g1) j)"
    by blast
  from rel rest have "releaseAll (d # ds) g = (Inr (), g2)" by simp
  moreover from st st2 have "\<forall>j. map_of (storageCache g2) j
      = (if j \<in> gpuDataId ` set (d # ds) then None else map_of (storageCache g) j)"
    by auto
  ultimately show ?case by blast
qed

section \<open>Kernel invocations\<close>

text \<open>The example callbacks are well behaved: every id they allocate is above the live ones.\<close>

lemma fold_max_ge: "(a::int) \<le> fold max ks a \<and> (\<forall>k \<in> set ks. k \<le> fold max ks a)"
proof (induction ks arbitrary: a)
  case Nil
  then show ?case by simp
next
  case (Cons k ks)
  from Cons.IH [of "max k a"] show ?case by auto
qed

lemma freshId_fresh: "\<not> isLive g (freshId g)"
proof
  assume "isLive g (freshId g)"
  then have "freshId g \<in> fst ` set (storageCache g)"
    by (auto simp: isLive_def dest: map_of_SomeD intro: rev_image_eqI)
  then have "freshId g \<in> set (map fst (storageCache g))" by simp
  with fold_max_ge [of 0 "map fst (storageCache g)"] have "freshId g \<le> freshId g - 1"
    by (auto simp: freshId_def)
  then show False by simp
qed

lemma allocOutput_wellBehaved: "wellBehaved (\<lambda>i. allocOutput) allocOutput"
proof -
  have keeps: "keepsBuffers (allocOutput dt ds)" for dt ds
    unfolding keepsBuffers_def
  proof
    fix g
    from freshId_fresh [of g] show
      "map_of (storageCache g) \<subseteq>\<^sub>m map_of (storageCache (snd (allocOutput dt ds g)))"
      by (auto simp: allocOutput_def gdm_create_def Let_def map_le_def isLive_def)
  qed
  have fresh: "allocatesFresh (allocOutput dt ds)" for dt ds
    using freshId_fresh
    by (auto simp: allocatesFresh_def allocOutput_def gdm_create_def Let_def)
  from keeps fresh show ?thesis by (simp add: wellBehaved_def)
qed

lemma example_context_wellBehaved:
  "wellBehaved (createKernelOutput example_context) (createTemporaryOutput example_context)"
  using allocOutput_wellBehaved by (simp add: example_context_def)

lemma enterKernel_fields:
  "currentKernelId (enterKernel k kern attrs' b) = Some k"
  "temporaryData (enterKernel k kern attrs' b) = []"
  "gpuDataManager (enterKernel k kern attrs' b) = gpuDataManager b"
  "kernelPersistentData (enterKernel k kern attrs' b) = kernelPersistentData b"
  by (simp_all add: enterKernel_def split: prod.splits)

text \<open>The two ways past the guards: the parser throws, or the kernel entry runs.\<close>

lemma computeKernel_parser_throws:
  "currentKernelId b = None \<Longrightarrow> kernels b k = Some (nm, entry, attrs) \<Longrightarrow>
   parseAttributes attrs = Inl msg \<Longrightarrow>
   computeKernel k ctx b = (Inl (AttributeParserError msg), b\<lparr>currentKernelId := Some k\<rparr>)"
  by (simp add: computeKernel_def)

lemma computeKernel_entered:
  "currentKernelId b = None \<Longrightarrow> kernels b k = Some (nm, entry, attrs) \<Longrightarrow>
   parseAttributes attrs = Inr attrs' \<Longrightarrow>
   computeKernel k ctx b
     = leaveKernel (execEntry (entry (inputs ctx) (snd attrs')) ctx
                      (enterKernel k (nm, entry, attrs) attrs' b))"
  by (simp add: computeKernel_def)

lemma leaveKernel_ok:
  assumes ok: "temporariesOk P b4"
  shows "\<exists>g. leaveKernel (r, b4)
            = (r, b4\<lparr>gpuDataManager := g, temporaryData := [], currentKernelId := None\<rparr>)
          \<and> (\<forall>j. map_of (storageCache g) j
                 = (if j \<in> gpuDataId ` set (temporaryData b4) then None
                    else map_of (storageCache (gpuDataManager b4)) j))"
proof -
  from ok have "distinct (map gpuDataId (temporaryData b4))"
    and "\<forall>d \<in> set (temporaryData b4). isLive (gpuDataManager b4) (gpuDataId d)"
    by (simp_all add: temporariesOk_def)
  from releaseAll_live [OF this] obtain g where
    "releaseAll (temporaryData b4) (gpuDataManager b4) = (Inr (), g)"
    and "\<forall>j. map_of (storageCache g) j
              = (if j \<in> gpuDataId ` set (temporaryData b4) then None
                 else map_of (storageCache (gpuDataManager b4)) j)"
    by blast
  then show ?thesis by (auto simp: leaveKernel_def)
qed

text \<open>
  An invocation that reaches the kernel entry, with well-behaved callbacks: its outcome
  is the outcome of the entry, the marker and the temporary list are cleared, the
  buffers of the temporary list are released, and the protected buffers are still live.
\<close>

lemma computeKernel_completes:
  assumes wb: "wellBehaved (createKernelOutput ctx) (createTemporaryOutput ctx)"
      and idle: "currentKernelId b = None"
      and kern: "kernels b k = Some (nm, entry, attrs)"
      and parsed: "parseAttributes attrs = Inr attrs'"
      and prot: "\<forall>i \<in> P. isLive (gpuDataManager b) i"
      and ex: "execEntry (entry (inputs ctx) (snd attrs')) ctx
                 (enterKernel k (nm, entry, attrs) attrs' b) = (r, b4)"
  shows "fst (computeKernel k ctx b) = r"
    and "currentKernelId (snd (computeKernel k ctx b)) = None"
    and "temporaryData (snd (computeKernel k ctx b)) = []"
    and "\<forall>d \<in> set (temporaryData b4).
           \<not> isLive (gpuDataManager (snd (computeKernel k ctx b))) (gpuDataId d)"
    and "\<forall>i \<in> P. isLive (gpuDataManager (snd (computeKernel k ctx b))) i"
    and "kernelPersistentData (snd (computeKernel k ctx b)) = kernelPersistentData b4"
proof -
  have start: "temporariesOk P (enterKernel k (nm, entry, attrs) attrs' b)"
    using prot by (simp add: temporariesOk_def enterKernel_fields)
  from execEntry_inv [OF wb start ex] have ok: "temporariesOk P b4" by simp
  from leaveKernel_ok [OF ok, of r] obtain g where
    leave: "leaveKernel (r, b4)
            = (r, b4\<lparr>gpuDataManager := g, temporaryData := [], currentKernelId := None\<rparr>)"
    and st: "\<forall>j. map_of (storageCache g) j
                 = (if j \<in> gpuDataId ` set (temporaryData b4) then None
                    else map_of (storageCache (gpuDataManager b4)) j)"
    by blast
  from computeKernel_entered [OF idle kern parsed, of ctx] ex leave
  have ck: "computeKernel k ctx b
            = (r, b4\<lparr>gpuDataManager := g, temporaryData := [], currentKernelId := None\<rparr>)"
    by simp
  show "fst (computeKernel k ctx b) = r"
    and "currentKernelId (snd (computeKernel k ctx b)) = None"
    and "temporaryData (snd (computeKernel k ctx b)) = []"
    and "kernelPersistentData (snd (computeKernel k ctx b)) = kernelPersistentData b4"
    by (simp_all add: ck)
  show "\<forall>d \<in> set (temporaryData b4).
           \<not> isLive (gpuDataManager (snd (computeKernel k ctx b))) (gpuDataId d)"
    using st by (simp add: ck isLive_def)
  show "\<forall>i \<in> P. isLive (gpuDataManager (snd (computeKernel k ctx b))) i"
    using st ok by (auto simp: ck isLive_def temporariesOk_def)
qed

text \<open>A later point of a kernel entry's run has the outcome of the whole run.\<close>

lemma reaches_execEntry:
  "reaches ctx kp b kp' b' \<Longrightarrow> execEntry kp ctx b = execEntry kp' ctx b'"
  by (induction rule: reaches.induct) simp_all

text \<open>The temporary list only grows until the \<^verbatim>\<open>finally\<close> block.\<close>

lemma createOutput_temporaries:
  "createOutput cko cto n idx out b = (r, b') \<Longrightarrow>
   \<exists>ext. temporaryData b' = temporaryData b @ ext"
  unfolding createOutput_def Let_def pushPersistent_def
  by (auto split: if_splits prod.splits sum.splits option.splits)

lemma createOutputs_temporaries:
  "createOutputs cko cto n zs b = (r, b') \<Longrightarrow> \<exists>ext. temporaryData b' = temporaryData b @ ext"
proof (induction zs arbitrary: b r b')
  case Nil
  then show ?case by simp
next
  case (Cons z zs)
  obtain r1 b1 where step: "createOutput cko cto n (fst z) (snd z) b = (r1, b1)"
    by (cases "createOutput cko cto n (fst z) (snd z) b")
  from createOutput_temporaries [OF step] obtain e1 where
    t1: "temporaryData b1 = temporaryData b @ e1" by blast
  show ?case
  proof (cases r1)
    case (Inl e)
    with Cons.prems step t1 show ?thesis by auto
  next
    case (Inr td)
    obtain r2 b2 where rest: "createOutputs cko cto n zs b1 = (r2, b2)"
      by (cases "createOutputs cko cto n zs b1")
    from Cons.IH [OF rest] obtain e2 where t2: "temporaryData b2 = temporaryData b1 @ e2"
      by blast
    from Cons.prems step Inr rest have "b' = b2"
      by (auto split: sum.splits)
    with t1 t2 show ?thesis by simp
  qed
qed

lemma run_temporaries:
  assumes run: "run p ins oi cko cto b = (r, b')"
  shows "\<exists>ext. temporaryData b' = temporaryData b @ ext"
  using run
proof (cases rule: run_cases)
  case (early e)
  then show ?thesis by simp
next
  case (loop e zs n)
  from createOutputs_temporaries [OF loop(2)] show ?thesis .
next
  case (complete tvs ds zs n b1 a key pinfo a' b2 ids)
  from createOutputs_temporaries [OF complete(2)] show ?thesis
    unfolding complete(4)
    by (simp add: pm_run_bookkeeping ensureArtifact_bookkeeping' [OF complete(3)])
qed

lemma execEntry_temporaries:
  "execEntry kp ctx b = (r, b') \<Longrightarrow> \<exists>ext. temporaryData b' = temporaryData b @ ext"
proof (induction kp arbitrary: b r b')
  case (Return v)
  then show ?case by simp
next
  case (Throw msg)
  then show ?case by simp
next
  case (Compute p ins oi k)
  obtain r1 b1 where step: "run p ins oi (createKernelOutput ctx) (createTemporaryOutput ctx) b = (r1, b1)"
    by (cases "run p ins oi (createKernelOutput ctx) (createTemporaryOutput ctx) b")
  from run_temporaries [OF step] obtain e1 where t1: "temporaryData b1 = temporaryData b @ e1"
    by blast
  show ?case
  proof (cases r1)
    case (Inl e)
    with Compute.prems step t1 show ?thesis by auto
  next
    case (Inr tvs)
    with Compute.prems step have rest: "execEntry (k tvs) ctx b1 = (r, b')" by simp
    from Compute.IH [OF rangeI rest] t1 show ?thesis by auto
  qed
qed

lemma createOutput_temporary_tracked:
  "createOutput cko cto n (- 2) out b = (Inr (tv, d), b') \<Longrightarrow>
   temporaryData b' = temporaryData b @ [d] \<and> gpuDataId d = data tv"
  unfolding createOutput_def Let_def pushPersistent_def
  by (auto split: if_splits prod.splits sum.splits option.splits dest: gdm_get_SomeD)

text \<open>The definitions that evaluate an invocation on the example states.\<close>

lemmas example_defs = example_registry_def example_registry2_def example_kernels_def
  example_backend_def example_conv_kernel_def example_chain_kernel_def example_twice_kernel_def
  example_reusing_context_def reuseOutput_def
  example_context_def example_program_def example_fill_def example_device_def
  example_add_kernel_def example_noop_kernel_def example_fill_kernel_def

lemmas run_defs = parseAttributes_def enterKernel_def
  run_def getArtifact_def resolveProgramInfo_def allocOutput_def gdm_create_def freshId_def
  createOutput_def Let_def gdm_get_def pushPersistent_def ensureArtifact_def build_def
  setArtifact_def pm_run_def getComputePassEncoder_def getCommandEncoder_def record_command_def
  computeKernel_def leaveKernel_def gdm_release_def

lemma execEntry_marker:
  "execEntry kp ctx b = (r, b') \<Longrightarrow>
   currentKernelId b' = currentKernelId b \<and> kernels b' = kernels b"
proof (induction kp arbitrary: b r b')
  case (Return v)
  then show ?case by simp
next
  case (Throw msg)
  then show ?case by simp
next
  case (Compute p ins oi k)
  obtain r1 b1 where step: "run p ins oi (createKernelOutput ctx) (createTemporaryOutput ctx) b = (r1, b1)"
    by (cases "run p ins oi (createKernelOutput ctx) (createTemporaryOutput ctx) b")
  note m1 = run_marker [OF step]
  show ?case
  proof (cases r1)
    case (Inl e)
    with Compute.prems step m1 show ?thesis by auto
  next
    case (Inr tvs)
    with Compute.prems step have rest: "execEntry (k tvs) ctx b1 = (r, b')" by simp
    from Compute.IH [OF rangeI rest] m1 show ?thesis by simp
  qed
qed

section \<open>Output slots\<close>

text \<open>The output loop on indices that all name kernel outputs.\<close>

lemma createOutput_kernel_output:
  assumes "0 \<le> idx" and "createOutput cko cto n idx out b = (Inr (tv, d), b')"
  shows "temporaryData b' = temporaryData b \<and> kernelPersistentData b' = kernelPersistentData b
         \<and> (\<exists>g. fst (cko idx (outputDataType out) (outputDims out) g) = Inr tv)"
  using assms unfolding createOutput_def Let_def
  by (auto split: if_splits prod.splits sum.splits option.splits
      intro!: exI [of _ "gpuDataManager b"])

lemma createOutputs_kernel_outputs:
  "\<forall>z \<in> set zs. 0 \<le> fst z \<Longrightarrow> createOutputs cko cto n zs b = (Inr (tvs, ds), b') \<Longrightarrow>
   length tvs = length zs
   \<and> temporaryData b' = temporaryData b \<and> kernelPersistentData b' = kernelPersistentData b
   \<and> (\<forall>j < length zs.
         \<exists>g. fst (cko (fst (zs ! j)) (outputDataType (snd (zs ! j))) (outputDims (snd (zs ! j))) g)
              = Inr (tvs ! j))"
proof (induction zs arbitrary: b tvs ds b')
  case Nil
  then show ?case by simp
next
  case (Cons z zs)
  obtain r1 b1 where step: "createOutput cko cto n (fst z) (snd z) b = (r1, b1)"
    by (cases "createOutput cko cto n (fst z) (snd z) b")
  obtain r2 b2 where rest: "createOutputs cko cto n zs b1 = (r2, b2)"
    by (cases "createOutputs cko cto n zs b1")
  from Cons.prems(2) step rest obtain tv d tvs' ds' where
    r1: "r1 = Inr (tv, d)" and r2: "r2 = Inr (tvs', ds')"
    and res: "tvs = tv # tvs'" "ds = d # ds'" "b' = b2"
    by (auto split: sum.splits)
  from Cons.prems(1) have pos: "0 \<le> fst z" and pos': "\<forall>z \<in> set zs. 0 \<le> fst z"
    by simp_all
  from createOutput_kernel_output [OF pos step [unfolded r1]]
  have h1: "temporaryData b1 = temporaryData b" "kernelPersistentData b1 = kernelPersistentData b"
    "\<exists>g. fst (cko (fst z) (outputDataType (snd z)) (outputDims (snd z)) g) = Inr tv"
    by simp_all
  from Cons.IH [OF pos' rest [unfolded r2]]
  have h2: "length tvs' = length zs" "temporaryData b2 = temporaryData b1"
    "kernelPersistentData b2 = kernelPersistentData b1"
    "\<forall>j < length zs.
         \<exists>g. fst (cko (fst (zs ! j)) (outputDataType (snd (zs ! j))) (outputDims (snd (zs ! j))) g)
              = Inr (tvs' ! j)"
    by simp_all
  have "\<exists>g. fst (cko (fst ((z # zs) ! j)) (outputDataType (snd ((z # zs) ! j)))
                (outputDims (snd ((z # zs) ! j))) g) = Inr (tvs ! j)"
    if "j < length (z # zs)" for j
    using that h1(3) h2(4) res(1) by (cases j) simp_all
  with h1 h2 res show ?case by simp
qed

lemma run_unfold:
  assumes "length ins = length (programInputTypes p)"
      and "getInputDatas (gpuDataManager b) ins = Inr ids"
      and "length oi = length (declaredOutputs b p ins)"
      and "oi \<noteq> [] \<or> declaredOutputs b p ins = []"
  shows "run p ins oi cko cto b =
     (let key = getProgramInfoUniqueKey p (map dims ins) (map gpuDataType ids);
          a = getArtifact (programManager b) key;
          pinfo = resolveProgramInfo a p
      in case createOutputs cko cto (length (declaredOutputs b p ins))
                (zip oi (declaredOutputs b p ins)) b of
           (Inl e, b1) \<Rightarrow> (Inl e, b1)
         | (Inr created, b1) \<Rightarrow>
             (Inr (fst created),
              pm_run (fst (ensureArtifact a key pinfo b1)) ids (snd created)
                (dispatchGroup (artifactProgramInfo (fst (ensureArtifact a key pinfo b1))) ins)
                (snd (ensureArtifact a key pinfo b1))))"
  using assms
  by (auto simp: run_def declaredOutputs_def Let_def split: prod.splits sum.splits)

text \<open>A loop that meets an index out of range throws, there or earlier.\<close>

lemma createOutputs_invalid:
  "\<exists>z \<in> set zs. invalidIndex n (fst z) \<Longrightarrow>
   \<exists>e b'. createOutputs cko cto n zs b = (Inl e, b')
         \<and> (e = InvalidOutputIndex (hd (filter (invalidIndex n) (map fst zs))) \<or> isCreationError e)"
proof (induction zs arbitrary: b)
  case Nil
  then show ?case by simp
next
  case (Cons z zs)
  obtain r1 b1 where step: "createOutput cko cto n (fst z) (snd z) b = (r1, b1)"
    by (cases "createOutput cko cto n (fst z) (snd z) b")
  show ?case
  proof (cases "invalidIndex n (fst z)")
    case True
    then have "createOutput cko cto n (fst z) (snd z) b = (Inl (InvalidOutputIndex (fst z)), b)"
      by (simp add: createOutput_def invalidIndex_def)
    with True show ?thesis by simp
  next
    case valid: False
    with Cons.prems have later: "\<exists>z \<in> set zs. invalidIndex n (fst z)" by auto
    show ?thesis
    proof (cases r1)
      case (Inl e)
      with step valid have "isCreationError e"
        unfolding createOutput_def Let_def invalidIndex_def
        by (auto split: if_splits prod.splits sum.splits option.splits)
      with step Inl show ?thesis by simp
    next
      case (Inr td)
      from Cons.IH [OF later, of b1] obtain e b' where
        "createOutputs cko cto n zs b1 = (Inl e, b')"
        and "e = InvalidOutputIndex (hd (filter (invalidIndex n) (map fst zs))) \<or> isCreationError e"
        by blast
      with step Inr valid show ?thesis by simp
    qed
  qed
qed

section \<open>Persistent buffers\<close>

text \<open>The persistent lists through an invocation.\<close>

lemma persistentOk_registry:
  assumes ok: "persistentOk K b"
      and le: "map_of (storageCache (gpuDataManager b)) \<subseteq>\<^sub>m map_of (storageCache g)"
  shows "persistentOk K (b\<lparr>gpuDataManager := g\<rparr>)"
  using ok le
  by (auto simp: persistentOk_def persistentLive_def persistentOf_def intro: isLive_mono)

lemma createOutput_persistent_inv:
  assumes wb: "wellBehaved cko cto"
      and tok: "temporariesOk P b"
      and ok: "persistentOk K b"
      and step: "createOutput cko cto n idx out b = (r, b')"
  shows "persistentOk K b' \<and> (\<exists>ext. persistentOf b' K = persistentOf b K @ ext)"
proof (cases "idx < - 2 \<or> int n \<le> idx")
  case True
  with step have "b' = b" by (simp add: createOutput_def)
  with ok show ?thesis by simp
next
  case valid: False
  define f where "f = (if idx = - 2 \<or> idx = - 1
                      then cto (outputDataType out) (outputDims out)
                      else cko idx (outputDataType out) (outputDims out))"
  obtain cr g where call: "f (gpuDataManager b) = (cr, g)"
    by (cases "f (gpuDataManager b)")
  from wb have keeps: "keepsBuffers f"
    by (simp add: f_def wellBehaved_def)
  from keeps call have le: "map_of (storageCache (gpuDataManager b)) \<subseteq>\<^sub>m map_of (storageCache g)"
    by (auto simp: keepsBuffers_def dest: spec [of _ "gpuDataManager b"])
  note ok1 = persistentOk_registry [OF ok le]
  have same1: "persistentOf (b\<lparr>gpuDataManager := g\<rparr>) K = persistentOf b K"
    by (simp add: persistentOf_def)
  show ?thesis
  proof (cases cr)
    case (Inl msg)
    with step valid call have "b' = b\<lparr>gpuDataManager := g\<rparr>"
      by (auto simp: createOutput_def f_def Let_def split: if_splits)
    with ok1 same1 show ?thesis by simp
  next
    case (Inr tv)
    show ?thesis
    proof (cases "gdm_get g (data tv)")
      case None
      with step valid call Inr have "b' = b\<lparr>gpuDataManager := g\<rparr>"
        by (auto simp: createOutput_def f_def Let_def split: if_splits)
      with ok1 same1 show ?thesis by simp
    next
      case (Some d)
      from gdm_get_SomeD [OF Some] have did: "gpuDataId d = data tv" and dlive: "isLive g (data tv)"
        by simp_all
      consider (temp) "idx = - 2" | (pers) "idx = - 1" | (kern) "idx \<noteq> - 2" "idx \<noteq> - 1"
        by blast
      then show ?thesis
      proof cases
        case temp
        with step valid call Inr Some
        have b': "b' = b\<lparr>gpuDataManager := g, temporaryData := temporaryData b @ [d]\<rparr>"
          by (auto simp: createOutput_def f_def Let_def)
        from wb temp have "allocatesFresh f"
          by (simp add: f_def wellBehaved_def)
        with call Inr have fresh: "\<not> isLive (gpuDataManager b) (data tv)"
          by (auto simp: allocatesFresh_def dest: spec [of _ "gpuDataManager b"])
        have "persistentOk K b'"
          unfolding b' using ok1 ok fresh did
          by (auto simp: persistentOk_def persistentLive_def persistentOf_def)
        moreover have "persistentOf b' K = persistentOf b K"
          by (simp add: b' persistentOf_def)
        ultimately show ?thesis by simp
      next
        case pers
        with step valid call Inr Some
        have b': "b' = pushPersistent d (b\<lparr>gpuDataManager := g\<rparr>)"
          by (auto simp: createOutput_def f_def Let_def)
        from wb pers have "allocatesFresh f"
          by (simp add: f_def wellBehaved_def)
        with call Inr have fresh: "\<not> isLive (gpuDataManager b) (data tv)"
          by (auto simp: allocatesFresh_def dest: spec [of _ "gpuDataManager b"])
        show ?thesis
        proof (cases "K = currentKernelId b")
          case True
          have ext: "persistentOf b' K = persistentOf b K @ [d]"
            by (simp add: b' True pushPersistent_def persistentOf_def)
          have "persistentOk K b'"
            unfolding persistentOk_def persistentLive_def ext
            using ok1 ok tok fresh did dlive
            by (auto simp: persistentOk_def persistentLive_def temporariesOk_def b'
                pushPersistent_def persistentOf_def)
          with ext show ?thesis by simp
        next
          case False
          have same: "persistentOf b' K = persistentOf b K"
            using False by (simp add: b' pushPersistent_def persistentOf_def)
          have "persistentOk K b'"
            unfolding persistentOk_def persistentLive_def same
            using ok1 by (simp add: persistentOk_def persistentLive_def b' pushPersistent_def
                persistentOf_def)
          with same show ?thesis by simp
        qed
      next
        case kern
        with step valid call Inr Some
        have b': "b' = b\<lparr>gpuDataManager := g\<rparr>"
          by (auto simp: createOutput_def f_def Let_def)
        with ok1 same1 show ?thesis by simp
      qed
    qed
  qed
qed

lemma createOutputs_persistent_inv:
  assumes wb: "wellBehaved cko cto"
  shows "temporariesOk P b \<Longrightarrow> persistentOk K b \<Longrightarrow> createOutputs cko cto n zs b = (r, b') \<Longrightarrow>
         persistentOk K b' \<and> (\<exists>ext. persistentOf b' K = persistentOf b K @ ext)"
proof (induction zs arbitrary: b r b')
  case Nil
  then show ?case by simp
next
  case (Cons z zs)
  obtain r1 b1 where step: "createOutput cko cto n (fst z) (snd z) b = (r1, b1)"
    by (cases "createOutput cko cto n (fst z) (snd z) b")
  note t1 = createOutput_inv [OF wb Cons.prems(1) step]
    and p1 = createOutput_persistent_inv [OF wb Cons.prems(1) Cons.prems(2) step]
  show ?case
  proof (cases r1)
    case (Inl e)
    with Cons.prems step p1 show ?thesis by simp
  next
    case (Inr td)
    obtain r2 b2 where rest: "createOutputs cko cto n zs b1 = (r2, b2)"
      by (cases "createOutputs cko cto n zs b1")
    from t1 have tok1: "temporariesOk P b1" by simp
    from p1 have pok1: "persistentOk K b1" by simp
    note p2 = Cons.IH [OF tok1 pok1 rest]
    from Cons.prems step Inr rest have "b' = b2"
      by (auto split: sum.splits)
    with p1 p2 show ?thesis by auto
  qed
qed

lemma persistentOk_cong:
  "storageCache (gpuDataManager b') = storageCache (gpuDataManager b) \<Longrightarrow>
   temporaryData b' = temporaryData b \<Longrightarrow> kernelPersistentData b' = kernelPersistentData b \<Longrightarrow>
   persistentOk K b' = persistentOk K b \<and> persistentOf b' K = persistentOf b K"
  by (simp add: persistentOk_def persistentLive_def persistentOf_def isLive_def)

lemma run_persistent_inv:
  assumes wb: "wellBehaved cko cto"
      and tok: "temporariesOk P b"
      and ok: "persistentOk K b"
      and run: "run p ins oi cko cto b = (r, b')"
  shows "persistentOk K b' \<and> (\<exists>ext. persistentOf b' K = persistentOf b K @ ext)"
  using run
proof (cases rule: run_cases)
  case (early e)
  with ok show ?thesis by simp
next
  case (loop e zs n)
  from createOutputs_persistent_inv [OF wb tok ok loop(2)] show ?thesis .
next
  case (complete tvs ds zs n b1 a key pinfo a' b2 ids)
  note p1 = createOutputs_persistent_inv [OF wb tok ok complete(2)]
  have "storageCache (gpuDataManager b') = storageCache (gpuDataManager b1)"
    and "temporaryData b' = temporaryData b1"
    and "kernelPersistentData b' = kernelPersistentData b1"
    unfolding complete(4)
    by (simp_all add: pm_run_bookkeeping ensureArtifact_bookkeeping' [OF complete(3)])
  from persistentOk_cong [OF this, of K] p1 show ?thesis by simp
qed

lemma execEntry_persistent_inv:
  assumes wb: "wellBehaved (createKernelOutput ctx) (createTemporaryOutput ctx)"
  shows "temporariesOk P b \<Longrightarrow> persistentOk K b \<Longrightarrow> execEntry kp ctx b = (r, b') \<Longrightarrow>
         persistentOk K b' \<and> (\<exists>ext. persistentOf b' K = persistentOf b K @ ext)"
proof (induction kp arbitrary: b r b')
  case (Return v)
  then show ?case by simp
next
  case (Throw msg)
  then show ?case by simp
next
  case (Compute p ins oi k)
  obtain r1 b1 where step: "run p ins oi (createKernelOutput ctx) (createTemporaryOutput ctx) b = (r1, b1)"
    by (cases "run p ins oi (createKernelOutput ctx) (createTemporaryOutput ctx) b")
  note t1 = run_inv [OF wb Compute.prems(1) step]
    and p1 = run_persistent_inv [OF wb Compute.prems(1) Compute.prems(2) step]
  show ?case
  proof (cases r1)
    case (Inl e)
    with Compute.prems step have "b' = b1" by simp
    with p1 show ?thesis by simp
  next
    case (Inr tvs)
    with Compute.prems step have rest: "execEntry (k tvs) ctx b1 = (r, b')" by simp
    from t1 have tok1: "temporariesOk P b1" by simp
    from p1 have pok1: "persistentOk K b1" by simp
    from Compute.IH [OF rangeI tok1 pok1 rest] p1 show ?thesis by auto
  qed
qed

lemma computeKernel_persistent:
  assumes wb: "wellBehaved (createKernelOutput ctx) (createTemporaryOutput ctx)"
      and idle: "currentKernelId b = None"
      and kern: "kernels b k = Some kern"
      and live: "persistentLive K b"
  shows "persistentLive K (snd (computeKernel k ctx b))
         \<and> (\<exists>ext. persistentOf (snd (computeKernel k ctx b)) K = persistentOf b K @ ext)"
proof -
  obtain nm entry attrs where kern': "kernels b k = Some (nm, entry, attrs)"
    using kern by (cases kern) auto
  show ?thesis
  proof (cases "parseAttributes attrs")
    case (Inl msg)
    from computeKernel_parser_throws [OF idle kern' Inl, of ctx]
    have "snd (computeKernel k ctx b) = b\<lparr>currentKernelId := Some k\<rparr>" by simp
    with live show ?thesis
      by (simp add: persistentLive_def persistentOf_def)
  next
    case (Inr attrs')
    let ?b3 = "enterKernel k (nm, entry, attrs) attrs' b"
    have tok: "temporariesOk {} ?b3"
      by (simp add: temporariesOk_def enterKernel_fields)
    have same3: "persistentOf ?b3 K = persistentOf b K"
      by (simp add: persistentOf_def enterKernel_fields)
    have pok: "persistentOk K ?b3"
      using live by (simp add: persistentOk_def persistentLive_def same3 enterKernel_fields)
    obtain r b4 where ex: "execEntry (entry (inputs ctx) (snd attrs')) ctx ?b3 = (r, b4)"
      by (cases "execEntry (entry (inputs ctx) (snd attrs')) ctx ?b3")
    from execEntry_inv [OF wb tok ex] have tok4: "temporariesOk {} b4" by simp
    from execEntry_persistent_inv [OF wb tok pok ex] same3
    have pok4: "persistentOk K b4" and ext: "\<exists>ext. persistentOf b4 K = persistentOf b K @ ext"
      by simp_all
    from leaveKernel_ok [OF tok4, of r] obtain g where
      leave: "leaveKernel (r, b4)
              = (r, b4\<lparr>gpuDataManager := g, temporaryData := [], currentKernelId := None\<rparr>)"
      and st: "\<forall>j. map_of (storageCache g) j
                   = (if j \<in> gpuDataId ` set (temporaryData b4) then None
                      else map_of (storageCache (gpuDataManager b4)) j)"
      by blast
    from computeKernel_entered [OF idle kern' Inr, of ctx] ex leave
    have ck: "snd (computeKernel k ctx b)
              = b4\<lparr>gpuDataManager := g, temporaryData := [], currentKernelId := None\<rparr>"
      by simp
    have same: "persistentOf (snd (computeKernel k ctx b)) K = persistentOf b4 K"
      by (simp add: ck persistentOf_def)
    have "persistentLive K (snd (computeKernel k ctx b))"
      unfolding persistentLive_def same
      using pok4 st by (auto simp: ck persistentOk_def persistentLive_def isLive_def)
    with same ext show ?thesis by simp
  qed
qed

lemma createOutput_persistent_tracked:
  "createOutput cko cto n (- 1) out b = (Inr (tv, d), b') \<Longrightarrow>
   persistentOf b' (currentKernelId b) = persistentOf b (currentKernelId b) @ [d]
   \<and> gpuDataId d = data tv \<and> temporaryData b' = temporaryData b"
  unfolding createOutput_def Let_def pushPersistent_def persistentOf_def
  by (auto split: if_splits prod.splits sum.splits option.splits dest: gdm_get_SomeD)

lemma releaseKernel_live:
  assumes live: "persistentLive (Some k) b"
  shows "fst (releaseKernel k b) = Inr ()
    \<and> (\<forall>j. map_of (storageCache (gpuDataManager (snd (releaseKernel k b)))) j
            = (if j \<in> gpuDataId ` set (persistentOf b (Some k)) then None
               else map_of (storageCache (gpuDataManager b)) j))
    \<and> kernelPersistentData (snd (releaseKernel k b)) = (kernelPersistentData b)(Some k := None)
    \<and> kernels (snd (releaseKernel k b)) = (kernels b)(k := None)"
proof (cases "kernelPersistentData b (Some k)")
  case None
  then show ?thesis
    by (auto simp: releaseKernel_def persistentOf_def)
next
  case (Some pd)
  then have pd: "persistentOf b (Some k) = pd" by (simp add: persistentOf_def)
  from live pd have "distinct (map gpuDataId pd)"
    and "\<forall>d \<in> set pd. isLive (gpuDataManager b) (gpuDataId d)"
    by (simp_all add: persistentLive_def)
  from releaseAll_live [OF this] obtain g where
    rel: "releaseAll pd (gpuDataManager b) = (Inr (), g)"
    and st: "\<forall>j. map_of (storageCache g) j
            = (if j \<in> gpuDataId ` set pd then None else map_of (storageCache (gpuDataManager b)) j)"
    by blast
  from Some rel st pd show ?thesis
    by (simp add: releaseKernel_def)
qed

section \<open>The program cache\<close>

text \<open>The dispatch log and the program cache through \<^verbatim>\<open>run\<close>.\<close>

lemma dispatched_simps:
  "dispatched [] = []"
  "dispatched (cs @ cs') = dispatched cs @ dispatched cs'"
  "dispatched (Dispatch a ids ods grp # cs) = a # dispatched cs"
  "dispatched (BeginComputePass # cs) = dispatched cs"
  "dispatched (EndComputePass # cs) = dispatched cs"
  by (simp_all add: dispatched_def)

lemma flush_dispatchLog:
  "dispatchLog (flush b) = dispatchLog b \<and> sessionOk (flush b)"
  by (cases "commandEncoder b")
     (auto simp: flush_def Let_def submit_def getCommandEncoder_def endComputePass_def
        record_command_def dispatchLog_def sessionOk_def dispatched_simps not_Some_unit)

lemma pm_run_dispatchLog:
  assumes "sessionOk b"
  shows "dispatchLog (pm_run a ids ods grp b) = dispatchLog b @ [a]
         \<and> sessionOk (pm_run a ids ods grp b)"
proof -
  define b2 where "b2 = (record_command (Dispatch a ids ods grp) (getComputePassEncoder b))
                          \<lparr>pendingDispatchNumber :=
                             pendingDispatchNumber (record_command (Dispatch a ids ods grp)
                               (getComputePassEncoder b)) + 1\<rparr>"
  from assms have "dispatchLog b2 = dispatchLog b @ [a] \<and> sessionOk b2"
    by (cases "commandEncoder b"; cases "computePassEncoder b")
       (auto simp: b2_def getComputePassEncoder_def getCommandEncoder_def record_command_def
          dispatchLog_def sessionOk_def dispatched_simps not_Some_unit)
  moreover have "pm_run a ids ods grp b
       = (if flushThreshold (programManager b2) \<le> pendingDispatchNumber b2 then flush b2 else b2)"
    by (simp add: pm_run_def b2_def Let_def)
  ultimately show ?thesis by (simp add: flush_dispatchLog)
qed

lemma sameControlState_session:
  "sameControlState b b' \<Longrightarrow> dispatchLog b' = dispatchLog b \<and> sessionOk b' = sessionOk b"
  by (simp add: sameControlState_def dispatchLog_def sessionOk_def)

lemma ensureArtifact_cache:
  assumes "ensureArtifact (getArtifact (programManager b) key) key pinfo b = (a', b')"
  shows "getArtifact (programManager b') key = Some a'"
    and "getArtifact (programManager b) key = Some a0 \<Longrightarrow> a' = a0 \<and> b' = b"
    and "dispatchLog b' = dispatchLog b \<and> sessionOk b' = sessionOk b"
  using assms
  by (auto simp: ensureArtifact_def build_def setArtifact_def getArtifact_def dispatchLog_def
      sessionOk_def split: option.splits)

lemma run_success:
  assumes "run p ins oi cko cto b = (Inr outs, b')"
      and "getInputDatas (gpuDataManager b) ins = Inr ids"
  obtains zs n ds b1 pinfo a' b2
    where "createOutputs cko cto n zs b = (Inr (outs, ds), b1)"
      and "ensureArtifact (getArtifact (programManager b)
               (getProgramInfoUniqueKey p (map dims ins) (map gpuDataType ids)))
             (getProgramInfoUniqueKey p (map dims ins) (map gpuDataType ids)) pinfo b1 = (a', b2)"
      and "b' = pm_run a' ids ds (dispatchGroup (artifactProgramInfo a') ins) b2"
  using assms unfolding run_def Let_def
  by (auto split: if_splits sum.splits prod.splits)

lemma run_cached:
  assumes ids: "getInputDatas (gpuDataManager b) ins = Inr ids"
      and cached: "getArtifact (programManager b)
                     (getProgramInfoUniqueKey p (map dims ins) (map gpuDataType ids)) = Some a"
      and ok: "sessionOk b"
  shows "programManager (snd (run p ins oi cko cto b)) = programManager b"
    and "fst (run p ins oi cko cto b) = Inr outs \<Longrightarrow>
         dispatchLog (snd (run p ins oi cko cto b)) = dispatchLog b @ [a]"
proof -
  obtain r b' where res: "run p ins oi cko cto b = (r, b')"
    by (cases "run p ins oi cko cto b")
  from res have "programManager b' = programManager b"
  proof (cases rule: run_cases)
    case (early e)
    then show ?thesis by simp
  next
    case (loop e zs n)
    from createOutputs_frame [OF loop(2)] show ?thesis by (simp add: sameControlState_def)
  next
    case (complete tvs ds zs n b1 a0 key pinfo a' b2 ids')
    from res complete(1) ids obtain zs' n' ds' b1' pinfo' a'' b2' where
      loop: "createOutputs cko cto n' zs' b = (Inr (tvs, ds'), b1')"
      and ens: "ensureArtifact (getArtifact (programManager b)
               (getProgramInfoUniqueKey p (map dims ins) (map gpuDataType ids)))
             (getProgramInfoUniqueKey p (map dims ins) (map gpuDataType ids)) pinfo' b1' = (a'', b2')"
      and b': "b' = pm_run a'' ids ds' (dispatchGroup (artifactProgramInfo a'') ins) b2'"
      by (auto elim: run_success)
    from createOutputs_frame [OF loop] have pm: "programManager b1' = programManager b"
      by (simp add: sameControlState_def)
    from ensureArtifact_cache(2) [of b1', unfolded pm, OF ens cached] have "b2' = b1'" by simp
    with pm b' show ?thesis
      by (simp add: pm_run_bookkeeping)
  qed
  with res show "programManager (snd (run p ins oi cko cto b)) = programManager b" by simp
  assume "fst (run p ins oi cko cto b) = Inr outs"
  with res have res': "run p ins oi cko cto b = (Inr outs, b')" by simp
  from res' ids obtain zs n ds b1 pinfo a' b2 where
    loop: "createOutputs cko cto n zs b = (Inr (outs, ds), b1)"
    and ens: "ensureArtifact (getArtifact (programManager b)
               (getProgramInfoUniqueKey p (map dims ins) (map gpuDataType ids)))
             (getProgramInfoUniqueKey p (map dims ins) (map gpuDataType ids)) pinfo b1 = (a', b2)"
    and b': "b' = pm_run a' ids ds (dispatchGroup (artifactProgramInfo a') ins) b2"
    by (auto elim: run_success)
  from createOutputs_frame [OF loop] have pm: "programManager b1 = programManager b"
    by (simp add: sameControlState_def)
  from ensureArtifact_cache(2) [of b1, unfolded pm, OF ens cached]
  have same: "a' = a" "b2 = b1" by simp_all
  from sameControlState_session [OF createOutputs_frame [OF loop]] ok
  have "dispatchLog b1 = dispatchLog b" and "sessionOk b1" by simp_all
  with pm_run_dispatchLog [of b1 a ids ds "dispatchGroup (artifactProgramInfo a) ins"] b' same res
  show "dispatchLog (snd (run p ins oi cko cto b)) = dispatchLog b @ [a]" by simp
qed

lemma run_compiles:
  assumes res: "run p ins oi cko cto b = (Inr outs, b')"
      and ids: "getInputDatas (gpuDataManager b) ins = Inr ids"
      and ok: "sessionOk b"
  shows "\<exists>a. getArtifact (programManager b')
                (getProgramInfoUniqueKey p (map dims ins) (map gpuDataType ids)) = Some a
            \<and> dispatchLog b' = dispatchLog b @ [a] \<and> sessionOk b'"
proof -
  from res ids obtain zs n ds b1 pinfo a' b2 where
    loop: "createOutputs cko cto n zs b = (Inr (outs, ds), b1)"
    and ens: "ensureArtifact (getArtifact (programManager b)
               (getProgramInfoUniqueKey p (map dims ins) (map gpuDataType ids)))
             (getProgramInfoUniqueKey p (map dims ins) (map gpuDataType ids)) pinfo b1 = (a', b2)"
    and b': "b' = pm_run a' ids ds (dispatchGroup (artifactProgramInfo a') ins) b2"
    by (auto elim: run_success)
  from createOutputs_frame [OF loop] have pm: "programManager b1 = programManager b"
    by (simp add: sameControlState_def)
  note cache = ensureArtifact_cache [of b1, unfolded pm, OF ens]
  from sameControlState_session [OF createOutputs_frame [OF loop]] ok
  have "dispatchLog b1 = dispatchLog b" and "sessionOk b1" by simp_all
  with cache(3) have "dispatchLog b2 = dispatchLog b" and "sessionOk b2"
    by simp_all
  with pm_run_dispatchLog [of b2 a' ids ds "dispatchGroup (artifactProgramInfo a') ins"] b'
  have "dispatchLog b' = dispatchLog b @ [a']" and "sessionOk b'" by simp_all
  moreover from cache(1) b'
  have "getArtifact (programManager b')
          (getProgramInfoUniqueKey p (map dims ins) (map gpuDataType ids)) = Some a'"
    by (simp add: pm_run_bookkeeping)
  ultimately show ?thesis by blast
qed

lemma ensureArtifact_keeps:
  assumes "ensureArtifact (getArtifact (programManager b) key) key pinfo b = (a', b')"
      and "getArtifact (programManager b) k0 = Some a0"
  shows "getArtifact (programManager b') k0 = Some a0"
  using assms
  by (auto simp: ensureArtifact_def build_def setArtifact_def getArtifact_def
      split: option.splits)

lemma run_keeps_cache:
  assumes cached: "getArtifact (programManager b) k0 = Some a0"
  shows "getArtifact (programManager (snd (run p ins oi cko cto b))) k0 = Some a0"
proof -
  obtain r b' where res: "run p ins oi cko cto b = (r, b')"
    by (cases "run p ins oi cko cto b")
  from res have "getArtifact (programManager b') k0 = Some a0"
  proof (cases rule: run_cases)
    case (early e)
    with cached show ?thesis by simp
  next
    case (loop e zs n)
    from createOutputs_frame [OF loop(2)] cached show ?thesis
      by (simp add: sameControlState_def)
  next
    case (complete tvs ds zs n b1 a key pinfo a' b2 ids)
    from createOutputs_frame [OF complete(2)] have pm: "programManager b1 = programManager b"
      by (simp add: sameControlState_def)
    from complete(3) complete(5) pm
    have "ensureArtifact (getArtifact (programManager b1) key) key pinfo b1 = (a', b2)"
      by simp
    from ensureArtifact_keeps [OF this] cached pm
    have "getArtifact (programManager b2) k0 = Some a0" by simp
    then show ?thesis
      unfolding complete(4) by (simp add: pm_run_bookkeeping)
  qed
  with res show ?thesis by simp
qed

lemma run_session:
  assumes ok: "sessionOk b"
  shows "sessionOk (snd (run p ins oi cko cto b))"
proof -
  obtain r b' where res: "run p ins oi cko cto b = (r, b')"
    by (cases "run p ins oi cko cto b")
  from res have "sessionOk b'"
  proof (cases rule: run_cases)
    case (early e)
    with ok show ?thesis by simp
  next
    case (loop e zs n)
    from sameControlState_session [OF createOutputs_frame [OF loop(2)]] ok show ?thesis
      by simp
  next
    case (complete tvs ds zs n b1 a key pinfo a' b2 ids)
    from sameControlState_session [OF createOutputs_frame [OF complete(2)]] ok
    have "sessionOk b1" by simp
    moreover from complete(3) have "sessionOk b2 = sessionOk b1"
      by (auto simp: ensureArtifact_def build_def setArtifact_def sessionOk_def
          split: option.splits)
    ultimately have "sessionOk b2" by simp
    from pm_run_dispatchLog [OF this] show ?thesis
      unfolding complete(4) by simp
  qed
  with res show ?thesis by simp
qed

subsection \<open>The cache key separates its components\<close>

lemma digitValue_digitChar: "d < 10 \<Longrightarrow> digitValue (digitChar d) = d"
proof -
  assume "d < 10"
  then have "d = 0 \<or> d = 1 \<or> d = 2 \<or> d = 3 \<or> d = 4 \<or> d = 5 \<or> d = 6 \<or> d = 7 \<or> d = 8 \<or> d = 9"
    by presburger
  then show ?thesis
    by (elim disjE) (simp_all add: digitValue_def digitChar_def)
qed

lemma digitChar_digit: "d < 10 \<Longrightarrow> digitChar d \<in> set ''0123456789''"
  unfolding digitChar_def by (rule nth_mem) simp

lemma decimalDigits_small: "n < 10 \<Longrightarrow> decimalDigits n acc = digitChar n # acc"
  by (subst decimalDigits.simps) (simp del: decimalDigits.simps)

lemma decimalDigits_step:
  "\<not> n < 10 \<Longrightarrow> decimalDigits n acc = decimalDigits (n div 10) (digitChar (n mod 10) # acc)"
  by (subst decimalDigits.simps) (simp del: decimalDigits.simps)

lemma decimalDigits_acc: "decimalDigits n acc = decimalDigits n [] @ acc"
proof (induction n arbitrary: acc rule: less_induct)
  case (less n)
  show ?case
  proof (cases "n < 10")
    case True
    then show ?thesis by (simp add: decimalDigits_small del: decimalDigits.simps)
  next
    case False
    then have "n div 10 < n" by simp
    note ih = less [OF this]
    from False have "decimalDigits n acc = decimalDigits (n div 10) (digitChar (n mod 10) # acc)"
      by (rule decimalDigits_step)
    also have "\<dots> = decimalDigits (n div 10) [] @ digitChar (n mod 10) # acc"
      by (rule ih)
    also have "\<dots> = (decimalDigits (n div 10) [] @ [digitChar (n mod 10)]) @ acc"
      by simp
    also have "decimalDigits (n div 10) [] @ [digitChar (n mod 10)]
        = decimalDigits (n div 10) [digitChar (n mod 10)]"
      by (rule ih [symmetric])
    also have "\<dots> = decimalDigits n []"
      using False by (rule decimalDigits_step [symmetric])
    finally show ?thesis .
  qed
qed

lemma decimalDigits_snoc:
  "\<not> n < 10 \<Longrightarrow> decimalDigits n [] = decimalDigits (n div 10) [] @ [digitChar (n mod 10)]"
  using decimalDigits_step [of n "[]"] decimalDigits_acc [of "n div 10" "[digitChar (n mod 10)]"]
  by (simp del: decimalDigits.simps)

lemma decimalValue_decimalDigits: "decimalValue (decimalDigits n []) = n"
proof (induction n rule: less_induct)
  case (less n)
  show ?case
  proof (cases "n < 10")
    case True
    then show ?thesis
      by (simp add: decimalDigits_small decimalValue_def digitValue_digitChar
          del: decimalDigits.simps)
  next
    case False
    then have "n div 10 < n" by simp
    from less [OF this] have ih: "decimalValue (decimalDigits (n div 10) []) = n div 10" .
    have "decimalValue (decimalDigits n [])
        = 10 * decimalValue (decimalDigits (n div 10) []) + digitValue (digitChar (n mod 10))"
      by (simp add: decimalDigits_snoc [OF False] decimalValue_def del: decimalDigits.simps)
    also have "\<dots> = 10 * (n div 10) + n mod 10"
      by (simp add: ih digitValue_digitChar del: decimalDigits.simps)
    finally show ?thesis by simp
  qed
qed

lemma decimalDigits_chars: "set (decimalDigits n []) \<subseteq> set ''0123456789''"
proof (induction n rule: less_induct)
  case (less n)
  show ?case
  proof (cases "n < 10")
    case True
    with digitChar_digit [OF True] show ?thesis
      by (simp add: decimalDigits_small del: decimalDigits.simps)
  next
    case False
    then have "n div 10 < n" by simp
    from less [OF this] digitChar_digit [of "n mod 10"] show ?thesis
      by (simp add: decimalDigits_snoc [OF False] del: decimalDigits.simps)
  qed
qed

lemma decimalDigits_nonempty: "decimalDigits n [] \<noteq> []"
  by (cases "n < 10") (simp_all add: decimalDigits_small decimalDigits_snoc del: decimalDigits.simps)

lemma decimalDigits_inj: "decimalDigits n [] = decimalDigits m [] \<Longrightarrow> n = m"
  by (metis decimalValue_decimalDigits)

lemma numberToString_chars: "set (numberToString x) \<subseteq> set ''-0123456789''"
proof -
  have digits: "set (decimalDigits n []) \<subseteq> set ''-0123456789''" for n
    by (rule subset_trans [OF decimalDigits_chars set_subset_Cons])
  show ?thesis
  proof (cases "0 \<le> x")
    case True
    with digits [of "nat x"] show ?thesis
      by (simp only: numberToString_def if_True)
  next
    case False
    have "set (CHR ''-'' # decimalDigits (nat (- x)) []) \<subseteq> set ''-0123456789''"
      unfolding list.set(2) [of "CHR ''-''" "decimalDigits (nat (- x)) []"]
      by (rule insert_subsetI [OF _ digits]) (simp del: decimalDigits.simps)
    with False show ?thesis
      by (simp only: numberToString_def if_False)
  qed
qed

lemma numberToString_nonempty: "numberToString x \<noteq> []"
  by (simp add: numberToString_def decimalDigits_nonempty del: decimalDigits.simps)

lemma numberToString_inj: "numberToString x = numberToString y \<Longrightarrow> x = y"
proof -
  assume eq: "numberToString x = numberToString y"
  have no_minus: "decimalDigits n [] \<noteq> CHR ''-'' # s" for n s
  proof
    assume "decimalDigits n [] = CHR ''-'' # s"
    then have "CHR ''-'' \<in> set (decimalDigits n [])" by (simp del: decimalDigits.simps)
    with decimalDigits_chars [of n] have "CHR ''-'' \<in> set ''0123456789''" by (rule_tac subsetD)
    then show False by simp
  qed
  show "x = y"
  proof (cases "0 \<le> x")
    case x: True
    show ?thesis
    proof (cases "0 \<le> y")
      case True
      with x eq have "decimalDigits (nat x) [] = decimalDigits (nat y) []"
        by (simp add: numberToString_def del: decimalDigits.simps)
      from decimalDigits_inj [OF this] x True show ?thesis by simp
    next
      case False
      with x eq no_minus show ?thesis
        by (simp add: numberToString_def del: decimalDigits.simps)
    qed
  next
    case x: False
    show ?thesis
    proof (cases "0 \<le> y")
      case True
      with x eq no_minus [of "nat y" "decimalDigits (nat (- x)) []"] show ?thesis
        by (simp add: numberToString_def del: decimalDigits.simps)
    next
      case False
      with x eq have "decimalDigits (nat (- x)) [] = decimalDigits (nat (- y)) []"
        by (simp add: numberToString_def del: decimalDigits.simps)
      from decimalDigits_inj [OF this] x False show ?thesis by simp
    qed
  qed
qed

lemma join_chars: "set (join sep xs) \<subseteq> set sep \<union> (\<Union>x \<in> set xs. set x)"
  by (induction sep xs rule: join.induct) auto

lemma split_sep:
  "c \<notin> set x \<Longrightarrow> c \<notin> set y \<Longrightarrow> x @ c # r = y @ c # r' \<Longrightarrow> x = y \<and> r = r'"
proof (induction x arbitrary: y)
  case Nil
  then show ?case by (cases y) auto
next
  case (Cons a x)
  then show ?case by (cases y) auto
qed

lemma join_inj_length:
  "length xs = length ys \<Longrightarrow> \<forall>x \<in> set xs. c \<notin> set x \<Longrightarrow> \<forall>y \<in> set ys. c \<notin> set y \<Longrightarrow>
   join [c] xs = join [c] ys \<Longrightarrow> xs = ys"
proof (induction xs ys rule: list_induct2)
  case Nil
  then show ?case by simp
next
  case (Cons x xs y ys)
  show ?case
  proof (cases xs)
    case Nil
    with Cons show ?thesis by simp
  next
    case xs: (Cons x' xs')
    with Cons.hyps obtain y' ys' where ys: "ys = y' # ys'" by (cases ys) auto
    from Cons.prems xs ys have "x @ c # join [c] xs = y @ c # join [c] ys"
      and "c \<notin> set x" and "c \<notin> set y"
      by simp_all
    from split_sep [OF this(2,3,1)] have "x = y" and "join [c] xs = join [c] ys" by simp_all
    with Cons show ?thesis by simp
  qed
qed

lemma join_nonempty: "xs \<noteq> [] \<Longrightarrow> \<forall>x \<in> set xs. x \<noteq> [] \<Longrightarrow> join sep xs \<noteq> []"
  by (induction sep xs rule: join.induct) auto

lemma join_length:
  "\<forall>x \<in> set xs. c \<notin> set x \<and> x \<noteq> [] \<Longrightarrow> \<forall>y \<in> set ys. c \<notin> set y \<and> y \<noteq> [] \<Longrightarrow>
   join [c] xs = join [c] ys \<Longrightarrow> length xs = length ys"
proof (induction xs arbitrary: ys)
  case Nil
  with join_nonempty [of ys "[c]"] show ?case by (cases ys) auto
next
  case (Cons x xs)
  show ?case
  proof (cases ys)
    case Nil
    with Cons.prems join_nonempty [of "x # xs" "[c]"] show ?thesis by auto
  next
    case ys: (Cons y ys')
    show ?thesis
    proof (cases xs)
      case Nil
      show ?thesis
      proof (cases ys')
        case Nil
        with \<open>xs = []\<close> ys show ?thesis by simp
      next
        case (Cons y' ys'')
        with Cons.prems \<open>xs = []\<close> ys have "x = y @ c # join [c] ys'" and "c \<notin> set x" by simp_all
        then show ?thesis by auto
      qed
    next
      case xs: (Cons x' xs')
      show ?thesis
      proof (cases ys')
        case Nil
        with Cons.prems xs ys have "y = x @ c # join [c] xs" and "c \<notin> set y" by simp_all
        then show ?thesis by auto
      next
        case (Cons y' ys'')
        with Cons.prems xs ys have "x @ c # join [c] xs = y @ c # join [c] ys'"
          and "c \<notin> set x" and "c \<notin> set y"
          by simp_all
        from split_sep [OF this(2,3,1)] have "join [c] xs = join [c] ys'" by simp
        with Cons.IH [of ys'] Cons.prems ys show ?thesis by simp
      qed
    qed
  qed
qed

lemma join_inj_nonempty:
  assumes "\<forall>x \<in> set xs. c \<notin> set x \<and> x \<noteq> []" and "\<forall>y \<in> set ys. c \<notin> set y \<and> y \<noteq> []"
    and "join [c] xs = join [c] ys"
  shows "xs = ys"
  using join_length [OF assms] assms by (auto intro: join_inj_length)


lemma numberToString_free:
  "c \<notin> set ''-0123456789'' \<Longrightarrow> c \<notin> set (numberToString x)"
  using numberToString_chars [of x] by (rule_tac notI) (drule (1) subsetD, simp)

lemma numbers_free:
  "c \<notin> set ''-0123456789'' \<Longrightarrow> \<forall>s \<in> set (map numberToString d). c \<notin> set s \<and> s \<noteq> []"
  by (auto simp add: numberToString_free numberToString_nonempty simp del: set_simps)

lemma map_numberToString_inj: "map numberToString d = map numberToString d' \<Longrightarrow> d = d'"
  by (rule map_injective) (auto intro: injI numberToString_inj)

lemma shapeText_inj:
  "join '','' (map numberToString d) = join '','' (map numberToString d') \<Longrightarrow> d = d'"
proof -
  assume eq: "join '','' (map numberToString d) = join '','' (map numberToString d')"
  have sep: "CHR '','' \<notin> set ''-0123456789''" by simp
  from join_inj_nonempty [OF numbers_free [OF sep] numbers_free [OF sep] eq]
  show "d = d'" by (rule map_numberToString_inj)
qed

lemma shapeText_free:
  assumes "c \<notin> set ''-0123456789''" and "c \<noteq> CHR '',''"
  shows "c \<notin> set (join '','' (map numberToString d))"
proof
  assume "c \<in> set (join '','' (map numberToString d))"
  with join_chars [of "'',''" "map numberToString d"]
  have "c \<in> set '','' \<union> (\<Union>s \<in> set (map numberToString d). set s)" by (rule_tac subsetD)
  with assms(2) obtain x where "c \<in> set (numberToString x)" by auto
  with numberToString_free [OF assms(1)] show False by simp
qed

lemma shapesText_inj:
  assumes "length s = length s'"
    and "join ''_'' (map (\<lambda>d. join '','' (map numberToString d)) s)
           = join ''_'' (map (\<lambda>d. join '','' (map numberToString d)) s')"
  shows "s = s'"
proof -
  have free: "\<forall>x \<in> set (map (\<lambda>d. join '','' (map numberToString d)) t). CHR ''_'' \<notin> set x"
    for t :: "int list list"
  proof -
    have "CHR ''_'' \<notin> set (join '','' (map numberToString d))" for d
      by (rule shapeText_free) simp_all
    then show ?thesis by (simp del: set_simps)
  qed
  from assms(1) have "length (map (\<lambda>d. join '','' (map numberToString d)) s)
      = length (map (\<lambda>d. join '','' (map numberToString d)) s')"
    by simp
  from join_inj_length [OF this free free assms(2)]
  show ?thesis
    by (rule map_injective) (auto intro: injI shapeText_inj)
qed

lemma shapesText_free:
  "CHR '';'' \<notin> set (join ''_'' (map (\<lambda>d. join '','' (map numberToString d)) s))"
proof
  assume "CHR '';'' \<in> set (join ''_'' (map (\<lambda>d. join '','' (map numberToString d)) s))"
  with join_chars [of "''_''" "map (\<lambda>d. join '','' (map numberToString d)) s"]
  have "CHR '';'' \<in> set ''_'' \<union> (\<Union>x \<in> set (map (\<lambda>d. join '','' (map numberToString d)) s). set x)"
    by (rule_tac subsetD)
  then obtain d where "CHR '';'' \<in> set (join '','' (map numberToString d))" by auto
  moreover have "CHR '';'' \<notin> set (join '','' (map numberToString d))"
    by (rule shapeText_free) simp_all
  ultimately show False by simp
qed

lemma typesText_inj:
  assumes "join ''_'' (map (numberToString \<circ> int) t) = join ''_'' (map (numberToString \<circ> int) t')"
  shows "t = t'"
proof -
  have sep: "CHR ''_'' \<notin> set ''-0123456789''" by simp
  have free: "\<forall>x \<in> set (map (numberToString \<circ> int) u). CHR ''_'' \<notin> set x \<and> x \<noteq> []"
    for u :: "nat list"
    by (auto simp add: numberToString_free [OF sep] numberToString_nonempty simp del: set_simps)
  from join_inj_nonempty [OF free free assms]
  show ?thesis
  proof (rule map_injective)
    show "inj (numberToString \<circ> int)"
    proof (rule injI)
      fix x y
      assume "(numberToString \<circ> int) x = (numberToString \<circ> int) y"
      then have "numberToString (int x) = numberToString (int y)" by simp
      from numberToString_inj [OF this] show "x = y" by simp
    qed
  qed
qed

lemma key_unfold:
  "getProgramInfoUniqueKey p s t =
     programName p @ (if cacheHintText p = [] then [] else ''['' @ cacheHintText p @ '']'')
       @ '':'' @ join ''_'' (map (\<lambda>d. join '','' (map numberToString d)) s)
       @ '';'' @ join ''_'' (map (numberToString \<circ> int) t)"
  by (simp add: getProgramInfoUniqueKey_def cacheHintText_def Let_def split: option.splits)

lemma key_same_program:
  "programName p2 = programName p1 \<Longrightarrow> cacheHintText p2 = cacheHintText p1 \<Longrightarrow>
   getProgramInfoUniqueKey p2 shapes types = getProgramInfoUniqueKey p1 shapes types"
  by (simp only: key_unfold)

lemma key_separates_inputs:
  assumes name: "programName p2 = programName p1"
      and hint: "cacheHintText p2 = cacheHintText p1"
      and len1: "length s1 = length t1" and len2: "length s2 = length t2"
      and key: "getProgramInfoUniqueKey p2 s2 t2 = getProgramInfoUniqueKey p1 s1 t1"
  shows "s2 = s1 \<and> t2 = t1"
proof -
  let ?S = "\<lambda>s. join ''_'' (map (\<lambda>d. join '','' (map numberToString d)) s)"
  let ?T = "\<lambda>t. join ''_'' (map (numberToString \<circ> int) t)"
  from key name hint have "?S s2 @ CHR '';'' # ?T t2 = ?S s1 @ CHR '';'' # ?T t1"
    by (simp add: key_unfold)
  from split_sep [OF shapesText_free shapesText_free this]
  have shapes: "?S s2 = ?S s1" and types: "?T t2 = ?T t1" by simp_all
  from typesText_inj [OF types] have t: "t2 = t1" .
  with len1 len2 have "length s2 = length s1" by simp
  from shapesText_inj [OF this shapes] t show ?thesis by simp
qed

lemma key_separates_names:
  assumes hint: "cacheHintText p2 = cacheHintText p1"
      and key: "getProgramInfoUniqueKey p2 s t = getProgramInfoUniqueKey p1 s t"
  shows "programName p2 = programName p1"
  using key hint by (simp add: key_unfold)

lemma key_separates_hints:
  assumes name: "programName p2 = programName p1"
      and key: "getProgramInfoUniqueKey p2 s t = getProgramInfoUniqueKey p1 s t"
  shows "cacheHintText p2 = cacheHintText p1"
  using key name by (simp add: key_unfold split: if_splits)

section \<open>The command batcher\<close>


lemma endComputePass_fields:
  "commandEncoder (endComputePass b) =
     (if computePassEncoder b = None then commandEncoder b
      else map_option (\<lambda>cs. cs @ [EndComputePass]) (commandEncoder b))"
  "computePassEncoder (endComputePass b) = None"
  "device (endComputePass b) = device b"
  by (simp_all add: endComputePass_def record_command_def not_Some_unit)

text \<open>
  Claim C7. After \<^verbatim>\<open>flush()\<close> with a recording session open, in either backend: no
  compute pass is open; the queue has received one more command buffer, which holds
  what the session had recorded, closed by the end of the compute pass if one was open;
  the pending-dispatch counter is zero; and the recording handle is cleared.
\<close>

theorem flush_open_session:
  "(commandEncoder b = Some cs \<longrightarrow>
      computePassEncoder (flush b) = None
    \<and> queue (device (flush b)) =
        queue (device b) @ [if computePassEncoder b = None then cs else cs @ [EndComputePass]]
    \<and> pendingDispatchNumber (flush b) = 0
    \<and> commandEncoder (flush b) = None)
   \<and> (onnxjsCommandEncoder ob = Some cs' \<longrightarrow>
      fst (onnxjs_flush ob) = Inr ()
    \<and> onnxjsComputePassEncoder (snd (onnxjs_flush ob)) = None
    \<and> queue (onnxjsDevice (snd (onnxjs_flush ob))) =
        queue (onnxjsDevice ob) @ [if onnxjsComputePassEncoder ob = None then cs' else cs' @ [EndComputePass]]
    \<and> onnxjsPendingDispatchNumber (snd (onnxjs_flush ob)) = 0
    \<and> onnxjsCommandEncoder (snd (onnxjs_flush ob)) = None)"
proof (intro conjI impI)
  assume open_session: "commandEncoder b = Some cs"
  show "computePassEncoder (flush b) = None"
    by (simp add: flush_def Let_def submit_def getCommandEncoder_def endComputePass_fields)
  show "queue (device (flush b)) =
        queue (device b) @ [if computePassEncoder b = None then cs else cs @ [EndComputePass]]"
    using open_session
    by (simp add: flush_def Let_def submit_def getCommandEncoder_def endComputePass_fields)
  show "pendingDispatchNumber (flush b) = 0"
    by (simp add: flush_def Let_def)
  show "commandEncoder (flush b) = None"
    by (simp add: flush_def Let_def)
next
  assume open_session: "onnxjsCommandEncoder ob = Some cs'"
  then show "fst (onnxjs_flush ob) = Inr ()"
    by (simp add: onnxjs_flush_def onnxjs_endComputePass_def Let_def not_Some_unit)
  from open_session show "onnxjsComputePassEncoder (snd (onnxjs_flush ob)) = None"
    by (simp add: onnxjs_flush_def onnxjs_endComputePass_def Let_def not_Some_unit)
  from open_session show "queue (onnxjsDevice (snd (onnxjs_flush ob))) =
        queue (onnxjsDevice ob) @ [if onnxjsComputePassEncoder ob = None then cs' else cs' @ [EndComputePass]]"
    by (simp add: onnxjs_flush_def onnxjs_endComputePass_def Let_def not_Some_unit)
  from open_session show "onnxjsPendingDispatchNumber (snd (onnxjs_flush ob)) = 0"
    by (simp add: onnxjs_flush_def onnxjs_endComputePass_def Let_def not_Some_unit)
  from open_session show "onnxjsCommandEncoder (snd (onnxjs_flush ob)) = None"
    by (simp add: onnxjs_flush_def onnxjs_endComputePass_def Let_def not_Some_unit)
qed

text \<open>
  The theorem at a JSEP backend with a compute pass open and at an onnxjs backend with an
  empty recording.
\<close>

theorem flush_open_session_witness:
  "commandEncoder (getComputePassEncoder example_backend) = Some [BeginComputePass]
   \<and> queue (device (flush (getComputePassEncoder example_backend))) = [ [BeginComputePass, EndComputePass] ]
   \<and> commandEncoder (flush (getComputePassEncoder example_backend)) = None
   \<and> onnxjsCommandEncoder (example_onnxjs_backend\<lparr>onnxjsCommandEncoder := Some []\<rparr>) = Some []
   \<and> queue (onnxjsDevice (snd (onnxjs_flush (example_onnxjs_backend\<lparr>onnxjsCommandEncoder := Some []\<rparr>)))) = [ [] ]"
  using flush_open_session [of "getComputePassEncoder example_backend" "[BeginComputePass]"
      "example_onnxjs_backend\<lparr>onnxjsCommandEncoder := Some []\<rparr>" "[]"]
  by (simp add: getComputePassEncoder_def getCommandEncoder_def record_command_def
      example_backend_def example_onnxjs_backend_def example_device_def)

text \<open>
  Claim C4, as stated, fails in the JSEP backend. With no recording session open,
  \<^verbatim>\<open>flush()\<close> takes its encoder from \<^verbatim>\<open>getCommandEncoder()\<close>, which creates one, and
  submits the empty command buffer: the queue receives a submission and the backend
  state is not what it was.
\<close>

theorem flush_without_session_counterexample:
  "commandEncoder example_backend = None
   \<and> computePassEncoder example_backend = None
   \<and> queue (device example_backend) = []
   \<and> queue (device (flush example_backend)) = [ [] ]
   \<and> flush example_backend \<noteq> example_backend"
proof -
  have q: "queue (device (flush example_backend)) = [ [] ]"
    by (simp add: flush_def Let_def submit_def getCommandEncoder_def endComputePass_def
        example_backend_def example_device_def)
  have q0: "queue (device example_backend) = []"
    by (simp add: example_backend_def example_device_def)
  from q q0 have "flush example_backend \<noteq> example_backend"
    by auto
  with q q0 show ?thesis
    by (simp add: example_backend_def)
qed

text \<open>
  Claim C4, amended. With no recording session open, the JSEP \<^verbatim>\<open>flush()\<close> does not fail:
  it submits one empty command buffer, refreshes the pending buffers of the buffer
  registry, and leaves no session open and the pending-dispatch counter at zero; nothing
  else of the backend changes. The onnxjs \<^verbatim>\<open>flush()\<close> dereferences its absent encoder:
  it throws and changes nothing.
\<close>

theorem flush_without_session:
  "(commandEncoder b = None \<and> computePassEncoder b = None \<longrightarrow>
      flush b = b\<lparr>device := (device b)\<lparr>queue := queue (device b) @ [ [] ]\<rparr>,
                  gpuDataManager := refreshPendingBuffers (gpuDataManager b),
                  commandEncoder := None,
                  pendingDispatchNumber := 0\<rparr>)
   \<and> (onnxjsCommandEncoder ob = None \<and> onnxjsComputePassEncoder ob = None \<longrightarrow>
      onnxjs_flush ob = (Inl NullCommandEncoder, ob))"
  by (simp add: flush_def Let_def submit_def getCommandEncoder_def endComputePass_def
      onnxjs_flush_def onnxjs_endComputePass_def)

text \<open>The amended claim at the example backends, neither of which has a session open.\<close>

theorem flush_without_session_witness:
  "commandEncoder example_backend = None \<and> computePassEncoder example_backend = None
   \<and> flush example_backend =
       example_backend\<lparr>device := (device example_backend)\<lparr>queue := queue (device example_backend) @ [ [] ]\<rparr>,
                  gpuDataManager := refreshPendingBuffers (gpuDataManager example_backend),
                  commandEncoder := None,
                  pendingDispatchNumber := 0\<rparr>
   \<and> onnxjsCommandEncoder example_onnxjs_backend = None
   \<and> onnxjsComputePassEncoder example_onnxjs_backend = None
   \<and> onnxjs_flush example_onnxjs_backend = (Inl NullCommandEncoder, example_onnxjs_backend)"
  using flush_without_session [of example_backend example_onnxjs_backend]
  by (simp add: example_backend_def example_onnxjs_backend_def)

section \<open>Initialization\<close>

lemma descriptor_limits: "deviceDescriptorLimits a = adapterLimits a"
  by (simp add: deviceDescriptorLimits_def)

text \<open>
  Claim C9, as stated, fails for the JSEP backend: when WebGPU is not available its
  \<^verbatim>\<open>initialize\<close> throws instead of returning a failure result.
\<close>

theorem initialize_jsep_throws_counterexample:
  "initialize \<lparr>gpu = None\<rparr> ''default'' 16 = Inl WebGpuNotAvailable"
  by (simp add: initialize_def)

text \<open>
  Claim C9, amended. The onnxjs \<^verbatim>\<open>initialize\<close> returns \<^verbatim>\<open>true\<close> exactly when an
  adapter is obtained and grants the device, and \<^verbatim>\<open>false\<close> otherwise, also when the
  body of its \<^verbatim>\<open>try\<close> block throws. The JSEP \<^verbatim>\<open>initialize\<close> throws in exactly the
  cases in which the onnxjs one returns \<^verbatim>\<open>false\<close>. On success, either backend holds a
  device requested with the limits of the adapter, with nothing submitted yet.
\<close>

theorem initialize_results:
  "fst (onnxjs_initialize nav) = (\<exists>a. gpu nav = Some (Some a) \<and> requestDeviceError a = None)
   \<and> (\<forall>e. onnxjs_initialize_try nav = Inl e \<longrightarrow> onnxjs_initialize nav = (False, None))
   \<and> (gpu nav = Some (Some a) \<and> requestDeviceError a = None \<longrightarrow>
        (\<exists>ob. onnxjs_initialize nav = (True, Some ob)
              \<and> requiredLimits (onnxjsDevice ob) = adapterLimits a
              \<and> queue (onnxjsDevice ob) = []))
   \<and> isl (initialize nav mode threshold) = (\<not> (\<exists>a. gpu nav = Some (Some a) \<and> requestDeviceError a = None))
   \<and> (gpu nav = Some (Some a) \<and> requestDeviceError a = None \<longrightarrow>
        (\<exists>b. initialize nav mode threshold = Inr b
              \<and> requiredLimits (device b) = adapterLimits a
              \<and> queue (device b) = []
              \<and> currentKernelId b = None \<and> commandEncoder b = None))"
proof (intro conjI allI impI)
  show "fst (onnxjs_initialize nav) = (\<exists>a. gpu nav = Some (Some a) \<and> requestDeviceError a = None)"
    by (auto simp: onnxjs_initialize_def onnxjs_initialize_try_def requestDevice_def Let_def
        split: option.splits sum.splits)
  show "isl (initialize nav mode threshold) = (\<not> (\<exists>a. gpu nav = Some (Some a) \<and> requestDeviceError a = None))"
    by (auto simp: initialize_def requestDevice_def Let_def split: option.splits sum.splits)
next
  fix e assume "onnxjs_initialize_try nav = Inl e"
  then show "onnxjs_initialize nav = (False, None)"
    by (simp add: onnxjs_initialize_def)
next
  assume "gpu nav = Some (Some a) \<and> requestDeviceError a = None"
  then show "\<exists>ob. onnxjs_initialize nav = (True, Some ob)
              \<and> requiredLimits (onnxjsDevice ob) = adapterLimits a
              \<and> queue (onnxjsDevice ob) = []"
    by (simp add: onnxjs_initialize_def onnxjs_initialize_try_def requestDevice_def Let_def
        descriptor_limits)
next
  assume "gpu nav = Some (Some a) \<and> requestDeviceError a = None"
  then show "\<exists>b. initialize nav mode threshold = Inr b
              \<and> requiredLimits (device b) = adapterLimits a
              \<and> queue (device b) = []
              \<and> currentKernelId b = None \<and> commandEncoder b = None"
    by (simp add: initialize_def requestDevice_def Let_def descriptor_limits)
qed

text \<open>
  The amended claim at an adapter that grants the device, and at one that rejects the
  request.
\<close>

theorem initialize_results_witness:
  "gpu example_navigator = Some (Some example_adapter) \<and> requestDeviceError example_adapter = None
   \<and> fst (onnxjs_initialize example_navigator)
   \<and> \<not> isl (initialize example_navigator ''default'' 16)
   \<and> (\<exists>b. initialize example_navigator ''default'' 16 = Inr b
              \<and> requiredLimits (device b) = example_limits)
   \<and> onnxjs_initialize_try (example_navigator\<lparr>gpu := Some (Some (example_adapter\<lparr>requestDeviceError := Some ''lost''\<rparr>))\<rparr>)
       = Inl (RequestDeviceFailed ''lost'')
   \<and> onnxjs_initialize (example_navigator\<lparr>gpu := Some (Some (example_adapter\<lparr>requestDeviceError := Some ''lost''\<rparr>))\<rparr>)
       = (False, None)"
proof -
  have h: "gpu example_navigator = Some (Some example_adapter) \<and> requestDeviceError example_adapter = None"
    by (simp add: example_navigator_def example_adapter_def)
  have t: "onnxjs_initialize_try (example_navigator\<lparr>gpu := Some (Some (example_adapter\<lparr>requestDeviceError := Some ''lost''\<rparr>))\<rparr>)
       = Inl (RequestDeviceFailed ''lost'')"
    by (simp add: onnxjs_initialize_try_def requestDevice_def Let_def example_navigator_def example_adapter_def)
  show ?thesis
    using h t initialize_results [of example_navigator example_adapter "''default''" 16]
      initialize_results [of "example_navigator\<lparr>gpu := Some (Some (example_adapter\<lparr>requestDeviceError := Some ''lost''\<rparr>))\<rparr>" example_adapter "''default''" 16]
    by (auto simp: example_adapter_def)
qed

section \<open>Output slots of \<^verbatim>\<open>run\<close>\<close>

text \<open>
  Claim C10. \<^verbatim>\<open>run\<close> with an empty list of output indices is \<^verbatim>\<open>run\<close> with the indices
  0, 1, ..., n-1, for the n outputs it takes as declared: the same outcome and the same
  state. When it succeeds it returns n tensor views, the j-th of them made by
  \<^verbatim>\<open>createKernelOutput\<close> for index j with the data type and dimensions of the j-th
  declared output, and neither the temporary list nor the persistent lists change.
\<close>

theorem run_default_outputs:
  "run p ins [] cko cto b
     = run p ins (map int [0..<length (declaredOutputs b p ins)]) cko cto b
   \<and> (run p ins [] cko cto b = (Inr tvs, b') \<longrightarrow>
        length tvs = length (declaredOutputs b p ins)
      \<and> temporaryData b' = temporaryData b
      \<and> kernelPersistentData b' = kernelPersistentData b
      \<and> (\<forall>j < length (declaredOutputs b p ins).
            \<exists>g. fst (cko (int j) (outputDataType (declaredOutputs b p ins ! j))
                       (outputDims (declaredOutputs b p ins ! j)) g) = Inr (tvs ! j)))"
proof (intro conjI impI)
  show same: "run p ins [] cko cto b
     = run p ins (map int [0..<length (declaredOutputs b p ins)]) cko cto b"
    by (auto simp: run_def declaredOutputs_def Let_def split: sum.splits)
  assume ok: "run p ins [] cko cto b = (Inr tvs, b')"
  let ?outs = "declaredOutputs b p ins"
  let ?oi = "map int [0..<length ?outs]"
  let ?zs = "zip ?oi ?outs"
  from ok have len: "length ins = length (programInputTypes p)"
    by (auto simp: run_def split: if_splits)
  from ok len obtain ids where ids: "getInputDatas (gpuDataManager b) ins = Inr ids"
    by (auto simp: run_def split: sum.splits)
  have "length ?oi = length ?outs" and "?oi \<noteq> [] \<or> ?outs = []" by simp_all
  note unfolded = run_unfold [OF len ids this, of cko cto]
  from ok same have "run p ins ?oi cko cto b = (Inr tvs, b')" by simp
  with unfolded obtain ds b1 where
    loop: "createOutputs cko cto (length ?outs) ?zs b = (Inr (tvs, ds), b1)"
    and b': "b' = pm_run (fst (ensureArtifact
                 (getArtifact (programManager b) (getProgramInfoUniqueKey p (map dims ins) (map gpuDataType ids)))
                 (getProgramInfoUniqueKey p (map dims ins) (map gpuDataType ids))
                 (resolveProgramInfo (getArtifact (programManager b) (getProgramInfoUniqueKey p (map dims ins) (map gpuDataType ids))) p) b1))
               ids ds
               (dispatchGroup (artifactProgramInfo (fst (ensureArtifact
                 (getArtifact (programManager b) (getProgramInfoUniqueKey p (map dims ins) (map gpuDataType ids)))
                 (getProgramInfoUniqueKey p (map dims ins) (map gpuDataType ids))
                 (resolveProgramInfo (getArtifact (programManager b) (getProgramInfoUniqueKey p (map dims ins) (map gpuDataType ids))) p) b1))) ins)
               (snd (ensureArtifact
                 (getArtifact (programManager b) (getProgramInfoUniqueKey p (map dims ins) (map gpuDataType ids)))
                 (getProgramInfoUniqueKey p (map dims ins) (map gpuDataType ids))
                 (resolveProgramInfo (getArtifact (programManager b) (getProgramInfoUniqueKey p (map dims ins) (map gpuDataType ids))) p) b1))"
    by (auto simp: Let_def split: prod.splits sum.splits)
  have pos: "\<forall>z \<in> set ?zs. 0 \<le> fst z"
    by (auto simp: set_zip)
  from createOutputs_kernel_outputs [OF pos loop]
  have facts: "length tvs = length ?zs" "temporaryData b1 = temporaryData b"
    "kernelPersistentData b1 = kernelPersistentData b"
    "\<forall>j < length ?zs.
         \<exists>g. fst (cko (fst (?zs ! j)) (outputDataType (snd (?zs ! j))) (outputDims (snd (?zs ! j))) g)
              = Inr (tvs ! j)"
    by simp_all
  from facts(1) show "length tvs = length ?outs" by simp
  from facts(2) show "temporaryData b' = temporaryData b"
    by (simp add: b' pm_run_bookkeeping ensureArtifact_bookkeeping)
  from facts(3) show "kernelPersistentData b' = kernelPersistentData b"
    by (simp add: b' pm_run_bookkeeping ensureArtifact_bookkeeping)
  from facts(4) show "\<forall>j < length ?outs.
            \<exists>g. fst (cko (int j) (outputDataType (?outs ! j)) (outputDims (?outs ! j)) g) = Inr (tvs ! j)"
    by simp
qed

text \<open>The theorem at a program with two declared outputs and no input.\<close>

theorem run_default_outputs_witness:
  "declaredOutputs example_backend (Info example_fill) [] = outputs example_fill
   \<and> run (Info example_fill) [] [] (\<lambda>i. allocOutput) allocOutput example_backend
       = (Inr [\<lparr>data = 1, dataType = 1, dims = [4]\<rparr>, \<lparr>data = 2, dataType = 1, dims = [4]\<rparr>],
          snd (run (Info example_fill) [] [] (\<lambda>i. allocOutput) allocOutput example_backend))
   \<and> run (Info example_fill) [] [] (\<lambda>i. allocOutput) allocOutput example_backend
       = run (Info example_fill) [] [0, 1] (\<lambda>i. allocOutput) allocOutput example_backend
   \<and> temporaryData (snd (run (Info example_fill) [] [] (\<lambda>i. allocOutput) allocOutput example_backend))
       = temporaryData example_backend"
proof -
  have outs: "declaredOutputs example_backend (Info example_fill) [] = outputs example_fill"
    by (simp add: declaredOutputs_def example_defs run_defs)
  have n: "map int [0..<length (outputs example_fill)] = [0, 1]"
    by (simp add: example_fill_def upt_rec)
  have "fst (run (Info example_fill) [] [] (\<lambda>i. allocOutput) allocOutput example_backend)
       = Inr [\<lparr>data = 1, dataType = 1, dims = [4]\<rparr>, \<lparr>data = 2, dataType = 1, dims = [4]\<rparr>]"
    by (simp add: example_defs run_defs upt_rec)
  then have r: "run (Info example_fill) [] [] (\<lambda>i. allocOutput) allocOutput example_backend
       = (Inr [\<lparr>data = 1, dataType = 1, dims = [4]\<rparr>, \<lparr>data = 2, dataType = 1, dims = [4]\<rparr>],
          snd (run (Info example_fill) [] [] (\<lambda>i. allocOutput) allocOutput example_backend))"
    by (metis prod.collapse)
  from run_default_outputs [of "Info example_fill" "[]" "\<lambda>i. allocOutput" allocOutput example_backend
      "[\<lparr>data = 1, dataType = 1, dims = [4]\<rparr>, \<lparr>data = 2, dataType = 1, dims = [4]\<rparr>]"
      "snd (run (Info example_fill) [] [] (\<lambda>i. allocOutput) allocOutput example_backend)"]
    r outs n
  show ?thesis by auto
qed

text \<open>
  Claim C6, as stated, fails: an empty list of requested outputs against a program that
  declares two outputs does not fail the count validation; the invocation succeeds.
\<close>

theorem output_validation_counterexample:
  "length ([] :: int list) \<noteq> length (declaredOutputs example_backend (Info example_fill) [])
   \<and> fst (run (Info example_fill) [] [] (\<lambda>i. allocOutput) allocOutput example_backend)
       = Inr [\<lparr>data = 1, dataType = 1, dims = [4]\<rparr>, \<lparr>data = 2, dataType = 1, dims = [4]\<rparr>]"
  by (simp add: declaredOutputs_def example_defs run_defs upt_rec)

text \<open>
  Claim C6, amended. For inputs that pass validation: a non-empty list of requested
  outputs whose length differs from the declared output count makes \<^verbatim>\<open>run\<close> fail with
  "Output size must be equal to" the count, with the backend unchanged. A list of the
  right length with an index below -2 or not below the count makes \<^verbatim>\<open>run\<close> fail: with
  "Invalid output index" for the first such index, unless creating an output for an
  earlier slot fails first. That failure leaves everything but the buffer bookkeeping
  as it was, and the temporary list is at most extended by the outputs created for
  earlier slots.
\<close>

theorem output_validation:
  "(oi \<noteq> [] \<and> length ins = length (programInputTypes p)
      \<and> getInputDatas (gpuDataManager b) ins = Inr ids
      \<and> length oi \<noteq> length (declaredOutputs b p ins) \<longrightarrow>
        run p ins oi cko cto b
          = (Inl (OutputSizeMustBeEqualTo (length (declaredOutputs b p ins))), b))
   \<and> (length ins' = length (programInputTypes p')
      \<and> getInputDatas (gpuDataManager b0) ins' = Inr ids'
      \<and> length oi' = length (declaredOutputs b0 p' ins')
      \<and> (\<exists>x \<in> set oi'. invalidIndex (length (declaredOutputs b0 p' ins')) x) \<longrightarrow>
        (\<exists>e. fst (run p' ins' oi' cko cto b0) = Inl e
           \<and> (e = InvalidOutputIndex
                    (hd (filter (invalidIndex (length (declaredOutputs b0 p' ins'))) oi'))
              \<or> isCreationError e))
      \<and> sameControlState b0 (snd (run p' ins' oi' cko cto b0))
      \<and> (\<exists>ext. temporaryData (snd (run p' ins' oi' cko cto b0)) = temporaryData b0 @ ext))"
proof (intro conjI impI)
  assume "oi \<noteq> [] \<and> length ins = length (programInputTypes p)
      \<and> getInputDatas (gpuDataManager b) ins = Inr ids
      \<and> length oi \<noteq> length (declaredOutputs b p ins)"
  then have "oi \<noteq> []" and "length ins = length (programInputTypes p)"
    and ids: "getInputDatas (gpuDataManager b) ins = Inr ids"
    and "length oi \<noteq> length (declaredOutputs b p ins)"
    by simp_all
  then show "run p ins oi cko cto b
          = (Inl (OutputSizeMustBeEqualTo (length (declaredOutputs b p ins))), b)"
    by (simp add: run_def declaredOutputs_def Let_def)
next
  assume h: "length ins' = length (programInputTypes p')
      \<and> getInputDatas (gpuDataManager b0) ins' = Inr ids'
      \<and> length oi' = length (declaredOutputs b0 p' ins')
      \<and> (\<exists>x \<in> set oi'. invalidIndex (length (declaredOutputs b0 p' ins')) x)"
  let ?outs = "declaredOutputs b0 p' ins'"
  let ?zs = "zip oi' ?outs"
  from h have len: "length oi' = length ?outs" by simp
  from h have nonempty: "oi' \<noteq> [] \<or> ?outs = []" by auto
  from len have fsts: "map fst ?zs = oi'" by simp
  from h fsts have "\<exists>z \<in> set ?zs. invalidIndex (length ?outs) (fst z)"
    by (metis (no_types, lifting) image_iff list.set_map)
  from createOutputs_invalid [OF this, of cko cto b0] fsts obtain e b1 where
    loop: "createOutputs cko cto (length ?outs) ?zs b0 = (Inl e, b1)"
    and err: "e = InvalidOutputIndex (hd (filter (invalidIndex (length ?outs)) oi')) \<or> isCreationError e"
    by auto
  from h have "length ins' = length (programInputTypes p')"
    and "getInputDatas (gpuDataManager b0) ins' = Inr ids'" by simp_all
  from run_unfold [OF this len nonempty, of cko cto] loop
  have res: "run p' ins' oi' cko cto b0 = (Inl e, b1)"
    by (simp add: Let_def)
  from res err show "\<exists>e. fst (run p' ins' oi' cko cto b0) = Inl e
           \<and> (e = InvalidOutputIndex (hd (filter (invalidIndex (length ?outs)) oi'))
              \<or> isCreationError e)"
    by simp
  from createOutputs_frame [OF loop] res
  show "sameControlState b0 (snd (run p' ins' oi' cko cto b0))" by simp
  from createOutputs_temporaries [OF loop] res
  show "\<exists>ext. temporaryData (snd (run p' ins' oi' cko cto b0)) = temporaryData b0 @ ext"
    by simp
qed

text \<open>
  The amended claim at a program with two declared outputs: one requested output, and
  the request of a temporary followed by index 5.
\<close>

theorem output_validation_witness:
  "length ([] :: tensorView list) = length (programInputTypes (Info example_fill))
   \<and> getInputDatas (gpuDataManager example_backend) [] = Inr []
   \<and> declaredOutputs example_backend (Info example_fill) [] = outputs example_fill
   \<and> length (outputs example_fill) = 2
   \<and> run (Info example_fill) [] [0] (\<lambda>i. allocOutput) allocOutput example_backend
       = (Inl (OutputSizeMustBeEqualTo 2), example_backend)
   \<and> invalidIndex 2 5
   \<and> fst (run (Info example_fill) [] [- 2, 5] (\<lambda>i. allocOutput) allocOutput example_backend)
       = Inl (InvalidOutputIndex 5)
   \<and> sameControlState example_backend
        (snd (run (Info example_fill) [] [- 2, 5] (\<lambda>i. allocOutput) allocOutput example_backend))
   \<and> temporaryData (snd (run (Info example_fill) [] [- 2, 5] (\<lambda>i. allocOutput) allocOutput example_backend))
       = [\<lparr>gpuDataId = 1, gpuDataType = 0\<rparr>]"
proof -
  have a: "length ([] :: tensorView list) = length (programInputTypes (Info example_fill))"
    and b: "getInputDatas (gpuDataManager example_backend) [] = Inr []"
    and c: "declaredOutputs example_backend (Info example_fill) [] = outputs example_fill"
    and d: "length (outputs example_fill) = 2"
    by (simp_all add: declaredOutputs_def example_defs run_defs)
  have e: "invalidIndex 2 5" "\<not> invalidIndex 2 (- 2)"
    by (simp_all add: invalidIndex_def)
  have f: "fst (run (Info example_fill) [] [- 2, 5] (\<lambda>i. allocOutput) allocOutput example_backend)
       = Inl (InvalidOutputIndex 5)"
    and g: "temporaryData (snd (run (Info example_fill) [] [- 2, 5] (\<lambda>i. allocOutput) allocOutput example_backend))
       = [\<lparr>gpuDataId = 1, gpuDataType = 0\<rparr>]"
    by (simp_all add: example_defs run_defs)
  from output_validation [of "[0]" "[]" "Info example_fill" example_backend "[]"
      "\<lambda>i. allocOutput" allocOutput "[]" "Info example_fill" example_backend "[]" "[- 2, 5]"]
    a b c d e f g
  show ?thesis by simp
qed

section \<open>Persistent buffers of a kernel instance\<close>

text \<open>
  Claim C8. An output created under the persistent marker is appended to the persistent
  list of the currently-executing kernel instance, and not to the temporary list. With
  well-behaved callbacks, an invocation of any kernel keeps every persistent list in
  order (its buffers live and pairwise different) and only extends it: the buffers
  attached so far survive the invocation and its cleanup. Releasing an instance whose
  persistent list is in order succeeds: it releases exactly the buffers of that list,
  drops the list, and removes the instance from the registry.
\<close>

theorem persistent_buffers:
  "(createOutput cko cto n (- 1) out b = (Inr (tv, d), b') \<longrightarrow>
      persistentOf b' (currentKernelId b) = persistentOf b (currentKernelId b) @ [d]
    \<and> gpuDataId d = data tv \<and> temporaryData b' = temporaryData b)
   \<and> (wellBehaved (createKernelOutput ctx) (createTemporaryOutput ctx)
      \<and> currentKernelId b0 = None \<and> kernels b0 k = Some kern \<and> persistentLive K b0 \<longrightarrow>
        persistentLive K (snd (computeKernel k ctx b0))
      \<and> (\<exists>ext. persistentOf (snd (computeKernel k ctx b0)) K = persistentOf b0 K @ ext))
   \<and> (persistentLive (Some k1) b1 \<longrightarrow>
        fst (releaseKernel k1 b1) = Inr ()
      \<and> (\<forall>d \<in> set (persistentOf b1 (Some k1)).
            \<not> isLive (gpuDataManager (snd (releaseKernel k1 b1))) (gpuDataId d))
      \<and> (\<forall>j. j \<notin> gpuDataId ` set (persistentOf b1 (Some k1)) \<longrightarrow>
            isLive (gpuDataManager (snd (releaseKernel k1 b1))) j = isLive (gpuDataManager b1) j)
      \<and> kernelPersistentData (snd (releaseKernel k1 b1)) (Some k1) = None
      \<and> kernels (snd (releaseKernel k1 b1)) k1 = None)"
proof (intro conjI impI)
  assume "createOutput cko cto n (- 1) out b = (Inr (tv, d), b')"
  from createOutput_persistent_tracked [OF this]
  show "persistentOf b' (currentKernelId b) = persistentOf b (currentKernelId b) @ [d]"
    and "gpuDataId d = data tv" and "temporaryData b' = temporaryData b"
    by simp_all
next
  assume h: "wellBehaved (createKernelOutput ctx) (createTemporaryOutput ctx)
      \<and> currentKernelId b0 = None \<and> kernels b0 k = Some kern \<and> persistentLive K b0"
  then have "wellBehaved (createKernelOutput ctx) (createTemporaryOutput ctx)"
    and "currentKernelId b0 = None" and "kernels b0 k = Some kern" and "persistentLive K b0"
    by simp_all
  from computeKernel_persistent [OF this]
  show "persistentLive K (snd (computeKernel k ctx b0))"
    and "\<exists>ext. persistentOf (snd (computeKernel k ctx b0)) K = persistentOf b0 K @ ext"
    by simp_all
next
  assume live: "persistentLive (Some k1) b1"
  note rel = releaseKernel_live [OF live]
  from rel show "fst (releaseKernel k1 b1) = Inr ()" by simp
  from rel show "\<forall>d \<in> set (persistentOf b1 (Some k1)).
            \<not> isLive (gpuDataManager (snd (releaseKernel k1 b1))) (gpuDataId d)"
    by (simp add: isLive_def)
  from rel show "\<forall>j. j \<notin> gpuDataId ` set (persistentOf b1 (Some k1)) \<longrightarrow>
            isLive (gpuDataManager (snd (releaseKernel k1 b1))) j = isLive (gpuDataManager b1) j"
    by (simp add: isLive_def)
  from rel show "kernelPersistentData (snd (releaseKernel k1 b1)) (Some k1) = None" by simp
  from rel show "kernels (snd (releaseKernel k1 b1)) k1 = None" by simp
qed

text \<open>
  The theorem at the \<^verbatim>\<open>fill\<close> kernel: its invocation attaches buffer 2, which is
  live after the invocation has thrown, and releasing the instance releases it.
\<close>

theorem persistent_buffers_witness:
  "fst (createOutput (\<lambda>i. allocOutput) allocOutput 2 (- 1) \<lparr>outputDataType = 1, outputDims = [4]\<rparr>
          example_backend)
     = Inr (\<lparr>data = 1, dataType = 1, dims = [4]\<rparr>, \<lparr>gpuDataId = 1, gpuDataType = 0\<rparr>)
   \<and> persistentOf (snd (createOutput (\<lambda>i. allocOutput) allocOutput 2 (- 1)
                          \<lparr>outputDataType = 1, outputDims = [4]\<rparr> example_backend))
        (currentKernelId example_backend)
       = persistentOf example_backend (currentKernelId example_backend)
           @ [\<lparr>gpuDataId = 1, gpuDataType = 0\<rparr>]
   \<and> wellBehaved (createKernelOutput example_context) (createTemporaryOutput example_context)
   \<and> currentKernelId example_registry = None
   \<and> kernels example_registry 3 = Some example_fill_kernel
   \<and> persistentLive (Some 3) example_registry
   \<and> persistentOf (snd (computeKernel 3 example_context example_registry)) (Some 3)
       = [\<lparr>gpuDataId = 2, gpuDataType = 0\<rparr>]
   \<and> persistentLive (Some 3) (snd (computeKernel 3 example_context example_registry))
   \<and> isLive (gpuDataManager (snd (computeKernel 3 example_context example_registry))) 2
   \<and> fst (releaseKernel 3 (snd (computeKernel 3 example_context example_registry))) = Inr ()
   \<and> \<not> isLive (gpuDataManager
                (snd (releaseKernel 3 (snd (computeKernel 3 example_context example_registry))))) 2
   \<and> kernels (snd (releaseKernel 3 (snd (computeKernel 3 example_context example_registry)))) 3 = None"
proof -
  let ?out = "\<lparr>outputDataType = 1, outputDims = [4]\<rparr>"
  let ?after = "snd (computeKernel 3 example_context example_registry)"
  have res: "fst (createOutput (\<lambda>i. allocOutput) allocOutput 2 (- 1) ?out example_backend)
     = Inr (\<lparr>data = 1, dataType = 1, dims = [4]\<rparr>, \<lparr>gpuDataId = 1, gpuDataType = 0\<rparr>)"
    by (simp add: example_defs run_defs)
  then have one: "createOutput (\<lambda>i. allocOutput) allocOutput 2 (- 1) ?out example_backend
     = (Inr (\<lparr>data = 1, dataType = 1, dims = [4]\<rparr>, \<lparr>gpuDataId = 1, gpuDataType = 0\<rparr>),
        snd (createOutput (\<lambda>i. allocOutput) allocOutput 2 (- 1) ?out example_backend))"
    by (metis prod.collapse)
  have idle: "currentKernelId example_registry = None"
    and k3: "kernels example_registry 3 = Some example_fill_kernel"
    and live0: "persistentLive (Some 3) example_registry"
    by (simp_all add: example_registry_def example_kernels_def example_backend_def
        persistentLive_def persistentOf_def)
  have pers: "persistentOf ?after (Some 3) = [\<lparr>gpuDataId = 2, gpuDataType = 0\<rparr>]"
    and live2: "isLive (gpuDataManager ?after) 2"
    by (simp_all add: persistentOf_def isLive_def example_defs run_defs)
  from persistent_buffers [of "\<lambda>i. allocOutput" allocOutput 2 ?out example_backend
      "\<lparr>data = 1, dataType = 1, dims = [4]\<rparr>" "\<lparr>gpuDataId = 1, gpuDataType = 0\<rparr>"
      "snd (createOutput (\<lambda>i. allocOutput) allocOutput 2 (- 1) ?out example_backend)"
      example_context example_registry 3 example_fill_kernel "Some 3" 3 ?after]
    one example_context_wellBehaved idle k3 live0 pers live2
  have rest: "persistentOf (snd (createOutput (\<lambda>i. allocOutput) allocOutput 2 (- 1) ?out example_backend))
        (currentKernelId example_backend)
       = persistentOf example_backend (currentKernelId example_backend)
           @ [\<lparr>gpuDataId = 1, gpuDataType = 0\<rparr>]
   \<and> persistentLive (Some 3) ?after
   \<and> fst (releaseKernel 3 ?after) = Inr ()
   \<and> \<not> isLive (gpuDataManager (snd (releaseKernel 3 ?after))) 2
   \<and> kernels (snd (releaseKernel 3 ?after)) 3 = None"
    by auto
  with res example_context_wellBehaved idle k3 live0 pers live2 show ?thesis
    by simp
qed


section \<open>The kernel registry\<close>

text \<open>
  Claim C1. With the execution marker set, the invocation of a registered kernel instance
  fails with "kernel is not allowed to be called recursively" and changes nothing. The
  marker is assigned, and the attribute parser of the kernel is called, before the
  \<^verbatim>\<open>try\<close> block whose \<^verbatim>\<open>finally\<close> clears the marker. At a kernel whose attribute parser
  throws, the invocation from an idle backend fails with the marker left at that kernel;
  the invocation of another registered instance that follows does not run: it is
  rejected as recursive, and the marker stays set.
\<close>

theorem reentrancy_after_parser_failure:
  "currentKernelId example_registry2 = None
   \<and> kernels example_registry2 4 = Some example_conv_kernel
   \<and> computeKernel 4 example_context example_registry2
       = (Inl (AttributeParserError ''bad attribute''), example_registry2\<lparr>currentKernelId := Some 4\<rparr>)
   \<and> kernels (snd (computeKernel 4 example_context example_registry2)) 2 = Some example_noop_kernel
   \<and> computeKernel 2 example_context (snd (computeKernel 4 example_context example_registry2))
       = (Inl (KernelCalledRecursively ''noop''),
          snd (computeKernel 4 example_context example_registry2))"
proof -
  have idle: "currentKernelId example_registry2 = None"
    and k4: "kernels example_registry2 4
               = Some (''conv'', (\<lambda>ins attr. Return 0), (Some (\<lambda>attr. Inl ''bad attribute''), []))"
    and k2: "kernels example_registry2 2 = Some (''noop'', (\<lambda>ins attr. Return 0), (None, []))"
    by (simp_all add: example_registry2_def example_backend_def example_conv_kernel_def
        example_noop_kernel_def)
  have parse: "parseAttributes (Some (\<lambda>attr. Inl ''bad attribute''), []) = Inl ''bad attribute''"
    by (simp add: parseAttributes_def)
  from computeKernel_parser_throws [OF idle k4 parse, of example_context]
  have outer: "computeKernel 4 example_context example_registry2
       = (Inl (AttributeParserError ''bad attribute''), example_registry2\<lparr>currentKernelId := Some 4\<rparr>)" .
  have inner: "computeKernel 2 example_context (example_registry2\<lparr>currentKernelId := Some 4\<rparr>)
       = (Inl (KernelCalledRecursively ''noop''), example_registry2\<lparr>currentKernelId := Some 4\<rparr>)"
    using k2 by (simp add: computeKernel_def)
  from idle k4 k2 outer inner show ?thesis
    by (simp add: example_conv_kernel_def example_noop_kernel_def)
qed

text \<open>
  Claim C2. The cleanup of \<^verbatim>\<open>computeKernel\<close> is the \<^verbatim>\<open>finally\<close> block of its \<^verbatim>\<open>try\<close>: it
  covers neither what runs before the \<^verbatim>\<open>try\<close> nor a failure of its own. An invocation
  whose attribute parser throws ends with the marker at the invoked kernel. An
  invocation whose callback backs two temporary outputs with one buffer fails while
  releasing that buffer a second time, and ends with the marker at the invoked kernel
  and the temporary list as the entry left it.
\<close>

theorem cleanup_skipped:
  "fst (computeKernel 4 example_context example_registry2)
     = Inl (AttributeParserError ''bad attribute'')
   \<and> currentKernelId (snd (computeKernel 4 example_context example_registry2)) = Some 4
   \<and> fst (computeKernel 6 example_reusing_context example_registry2)
       = Inl (ReleasingDataDoesNotExist 1)
   \<and> currentKernelId (snd (computeKernel 6 example_reusing_context example_registry2)) = Some 6
   \<and> temporaryData (snd (computeKernel 6 example_reusing_context example_registry2))
       = [\<lparr>gpuDataId = 1, gpuDataType = 0\<rparr>, \<lparr>gpuDataId = 1, gpuDataType = 0\<rparr>]"
  by (simp add: example_defs example_fill_def example_context_def example_device_def
      example_noop_kernel_def run_defs upt_rec)

text \<open>
  Claim C5. A \<^verbatim>\<open>run\<close> whose number of inputs differs from the declared input arity of
  its program fails with "Input size must be equal to n" and changes nothing. Let that
  \<^verbatim>\<open>run\<close> be any computation of a kernel entry, reached from the start of the entry
  through any number of successful computations, in an invocation from an idle backend
  whose attribute parser succeeds and whose callbacks are well behaved: the invocation
  fails with that error, and ends with the marker clear, the temporary list empty and
  the temporary buffers of the earlier computations released. When it is the first
  computation of the entry, the same holds for any callbacks, and the buffer registry
  is as it was before the invocation.
\<close>

theorem input_arity_mismatch:
  "(length ins \<noteq> length (programInputTypes p) \<longrightarrow>
      run p ins oi cko cto b = (Inl (InputSizeMustBeEqualTo (length (programInputTypes p))), b))
   \<and> (wellBehaved (createKernelOutput ctx) (createTemporaryOutput ctx)
      \<and> currentKernelId b0 = None
      \<and> kernels b0 k = Some (nm, entry, attrs)
      \<and> parseAttributes attrs = Inr attrs'
      \<and> reaches ctx (entry (inputs ctx) (snd attrs')) (enterKernel k (nm, entry, attrs) attrs' b0)
            (Compute p ins oi cont) b1
      \<and> length ins \<noteq> length (programInputTypes p) \<longrightarrow>
        fst (computeKernel k ctx b0) = Inl (InputSizeMustBeEqualTo (length (programInputTypes p)))
      \<and> currentKernelId (snd (computeKernel k ctx b0)) = None
      \<and> temporaryData (snd (computeKernel k ctx b0)) = []
      \<and> (\<forall>d \<in> set (temporaryData b1).
            \<not> isLive (gpuDataManager (snd (computeKernel k ctx b0))) (gpuDataId d)))
   \<and> (length ins2 \<noteq> length (programInputTypes p2) \<and> currentKernelId b2 = None
      \<and> kernels b2 k2 = Some (nm2, entry2, attrs2)
      \<and> parseAttributes attrs2 = Inr attrs2'
      \<and> entry2 (inputs ctx2) (snd attrs2') = Compute p2 ins2 oi2 cont2 \<longrightarrow>
        fst (computeKernel k2 ctx2 b2) = Inl (InputSizeMustBeEqualTo (length (programInputTypes p2)))
      \<and> currentKernelId (snd (computeKernel k2 ctx2 b2)) = None
      \<and> temporaryData (snd (computeKernel k2 ctx2 b2)) = []
      \<and> gpuDataManager (snd (computeKernel k2 ctx2 b2)) = gpuDataManager b2)"
proof (intro conjI impI)
  assume "length ins \<noteq> length (programInputTypes p)"
  then show "run p ins oi cko cto b = (Inl (InputSizeMustBeEqualTo (length (programInputTypes p))), b)"
    by (simp add: run_def)
next
  assume h: "wellBehaved (createKernelOutput ctx) (createTemporaryOutput ctx)
      \<and> currentKernelId b0 = None
      \<and> kernels b0 k = Some (nm, entry, attrs)
      \<and> parseAttributes attrs = Inr attrs'
      \<and> reaches ctx (entry (inputs ctx) (snd attrs')) (enterKernel k (nm, entry, attrs) attrs' b0)
            (Compute p ins oi cont) b1
      \<and> length ins \<noteq> length (programInputTypes p)"
  then have wb: "wellBehaved (createKernelOutput ctx) (createTemporaryOutput ctx)"
    and idle: "currentKernelId b0 = None"
    and kern: "kernels b0 k = Some (nm, entry, attrs)"
    and parsed: "parseAttributes attrs = Inr attrs'"
    and reach: "reaches ctx (entry (inputs ctx) (snd attrs'))
                  (enterKernel k (nm, entry, attrs) attrs' b0) (Compute p ins oi cont) b1"
    and mismatch: "length ins \<noteq> length (programInputTypes p)"
    by simp_all
  from mismatch have "execEntry (Compute p ins oi cont) ctx b1
      = (Inl (InputSizeMustBeEqualTo (length (programInputTypes p))), b1)"
    by (simp add: run_def)
  with reaches_execEntry [OF reach]
  have ex: "execEntry (entry (inputs ctx) (snd attrs')) ctx
              (enterKernel k (nm, entry, attrs) attrs' b0)
            = (Inl (InputSizeMustBeEqualTo (length (programInputTypes p))), b1)"
    by simp
  have prot: "\<forall>i \<in> {}. isLive (gpuDataManager b0) i" by simp
  note facts = computeKernel_completes [OF wb idle kern parsed prot ex]
  from facts(1) show "fst (computeKernel k ctx b0)
      = Inl (InputSizeMustBeEqualTo (length (programInputTypes p)))" .
  from facts(2) show "currentKernelId (snd (computeKernel k ctx b0)) = None" .
  from facts(3) show "temporaryData (snd (computeKernel k ctx b0)) = []" .
  from facts(4) show "\<forall>d \<in> set (temporaryData b1).
            \<not> isLive (gpuDataManager (snd (computeKernel k ctx b0))) (gpuDataId d)" .
next
  assume h: "length ins2 \<noteq> length (programInputTypes p2) \<and> currentKernelId b2 = None
      \<and> kernels b2 k2 = Some (nm2, entry2, attrs2)
      \<and> parseAttributes attrs2 = Inr attrs2'
      \<and> entry2 (inputs ctx2) (snd attrs2') = Compute p2 ins2 oi2 cont2"
  let ?b3 = "enterKernel k2 (nm2, entry2, attrs2) attrs2' b2"
  from h have "execEntry (entry2 (inputs ctx2) (snd attrs2')) ctx2 ?b3
                 = (Inl (InputSizeMustBeEqualTo (length (programInputTypes p2))), ?b3)"
    by (simp add: run_def)
  moreover from h have "computeKernel k2 ctx2 b2
      = leaveKernel (execEntry (entry2 (inputs ctx2) (snd attrs2')) ctx2 ?b3)"
    by (simp add: computeKernel_entered)
  ultimately have ck: "computeKernel k2 ctx2 b2
      = (Inl (InputSizeMustBeEqualTo (length (programInputTypes p2))),
         ?b3\<lparr>gpuDataManager := gpuDataManager ?b3, temporaryData := [], currentKernelId := None\<rparr>)"
    by (simp add: leaveKernel_def enterKernel_fields)
  show "fst (computeKernel k2 ctx2 b2) = Inl (InputSizeMustBeEqualTo (length (programInputTypes p2)))"
    and "currentKernelId (snd (computeKernel k2 ctx2 b2)) = None"
    and "temporaryData (snd (computeKernel k2 ctx2 b2)) = []"
    and "gpuDataManager (snd (computeKernel k2 ctx2 b2)) = gpuDataManager b2"
    by (simp_all add: ck enterKernel_fields)
qed

text \<open>
  The theorem at the \<^verbatim>\<open>chain\<close> kernel, whose second computation has one input against
  an arity of two, and at the \<^verbatim>\<open>add\<close> kernel, invoked with no input.
\<close>

theorem input_arity_mismatch_witness:
  "length (inputs example_context) \<noteq> length (programInputTypes (Info example_program))
   \<and> run (Info example_program) [\<lparr>data = 1, dataType = 1, dims = [4]\<rparr>] [0] (createKernelOutput example_context)
        (createTemporaryOutput example_context) example_registry
       = (Inl (InputSizeMustBeEqualTo 2), example_registry)
   \<and> wellBehaved (createKernelOutput example_context) (createTemporaryOutput example_context)
   \<and> currentKernelId example_registry2 = None
   \<and> kernels example_registry2 5 = Some example_chain_kernel
   \<and> parseAttributes (snd (snd example_chain_kernel)) = Inr (None, [])
   \<and> reaches example_context (fst (snd example_chain_kernel) (inputs example_context) [])
        (enterKernel 5 example_chain_kernel (None, []) example_registry2)
        (Compute (Info example_program) [\<lparr>data = 1, dataType = 1, dims = [4]\<rparr>] [0]
           (\<lambda>tvs'. Return 0))
        (snd (run (Info example_fill) [] [- 2, - 1] (\<lambda>i. allocOutput) allocOutput
               (enterKernel 5 example_chain_kernel (None, []) example_registry2)))
   \<and> length [\<lparr>data = 1, dataType = 1, dims = [4]\<rparr>] \<noteq> length (programInputTypes (Info example_program))
   \<and> temporaryData (snd (run (Info example_fill) [] [- 2, - 1] (\<lambda>i. allocOutput) allocOutput
               (enterKernel 5 example_chain_kernel (None, []) example_registry2)))
       = [\<lparr>gpuDataId = 1, gpuDataType = 0\<rparr>]
   \<and> fst (computeKernel 5 example_context example_registry2) = Inl (InputSizeMustBeEqualTo 2)
   \<and> currentKernelId (snd (computeKernel 5 example_context example_registry2)) = None
   \<and> \<not> isLive (gpuDataManager (snd (computeKernel 5 example_context example_registry2))) 1
   \<and> kernels example_registry 1 = Some example_add_kernel
   \<and> fst (computeKernel 1 example_context example_registry) = Inl (InputSizeMustBeEqualTo 2)
   \<and> currentKernelId (snd (computeKernel 1 example_context example_registry)) = None"
proof -
  let ?entry5 = "\<lambda>ins attr. Compute (Info example_fill) [] [- 2, - 1]
                    (\<lambda>tvs. Compute (Info example_program) (take 1 tvs) [0] (\<lambda>tvs'. Return 0))"
  let ?attrs5 = "(Some (\<lambda>attr. Inr attr), [])"
  let ?b3 = "enterKernel 5 (''chain'', ?entry5, ?attrs5) (None, []) example_registry2"
  let ?run1 = "run (Info example_fill) [] [- 2, - 1] (\<lambda>i. allocOutput) allocOutput ?b3"
  let ?tv1 = "\<lparr>data = 1, dataType = 1, dims = [4]\<rparr>"
  let ?tv2 = "\<lparr>data = 2, dataType = 1, dims = [4]\<rparr>"
  let ?entry1 = "\<lambda>ins attr. Compute (Info example_program) ins [0] (\<lambda>tvs. Return 0)"
  have chain: "example_chain_kernel = (''chain'', ?entry5, ?attrs5)"
    by (simp add: example_chain_kernel_def)
  have len: "length (inputs example_context) \<noteq> length (programInputTypes (Info example_program))"
    and arity: "length (programInputTypes (Info example_program)) = 2"
    by (simp_all add: example_context_def example_program_def)
  have idle2: "currentKernelId example_registry2 = None"
    and k5: "kernels example_registry2 5 = Some (''chain'', ?entry5, ?attrs5)"
    by (simp_all add: example_registry2_def example_backend_def example_chain_kernel_def)
  have parsed: "parseAttributes ?attrs5 = Inr (None, [])"
    by (simp add: parseAttributes_def)
  have first: "fst ?run1 = Inr [?tv1, ?tv2]"
    and temps: "temporaryData (snd ?run1) = [\<lparr>gpuDataId = 1, gpuDataType = 0\<rparr>]"
    by (simp_all add: example_defs example_fill_def example_device_def run_defs)
  from first have run1: "run (Info example_fill) [] [- 2, - 1]
      (createKernelOutput example_context) (createTemporaryOutput example_context) ?b3
      = (Inr [?tv1, ?tv2], snd ?run1)"
    by (simp add: example_context_def) (metis prod.collapse)
  have "reaches example_context
          ((\<lambda>tvs. Compute (Info example_program) (take 1 tvs) [0] (\<lambda>tvs'. Return 0)) [?tv1, ?tv2])
          (snd ?run1)
          (Compute (Info example_program) [?tv1] [0] (\<lambda>tvs'. Return 0)) (snd ?run1)"
    by (simp add: reaches.here)
  from reaches.later [of "Info example_fill" "[]" "[- 2, - 1]" example_context ?b3
      "[?tv1, ?tv2]" "snd ?run1"
      "\<lambda>tvs. Compute (Info example_program) (take 1 tvs) [0] (\<lambda>tvs'. Return 0)"
      "Compute (Info example_program) [?tv1] [0] (\<lambda>tvs'. Return 0)" "snd ?run1", OF run1 this]
  have reach: "reaches example_context (?entry5 (inputs example_context) (snd (None :: attributeParser option, [])))
      ?b3 (Compute (Info example_program) [?tv1] [0] (\<lambda>tvs'. Return 0)) (snd ?run1)"
    by simp
  have idle: "currentKernelId example_registry = None"
    and k1: "kernels example_registry 1 = Some (''add'', ?entry1, (None, []))"
    by (simp_all add: example_registry_def example_kernels_def example_backend_def
        example_add_kernel_def)
  have parsed1: "parseAttributes (None, []) = Inr (None, [])"
    by (simp add: parseAttributes_def)
  have mismatch: "length [?tv1] \<noteq> length (programInputTypes (Info example_program))"
    by (simp add: example_program_def)
  note inst = input_arity_mismatch [of "[?tv1]" "Info example_program" "[0]"
      "createKernelOutput example_context" "createTemporaryOutput example_context" example_registry
      example_context example_registry2 5 "''chain''" ?entry5 ?attrs5 "(None, [])"
      "\<lambda>tvs'. Return 0" "snd ?run1"
      "inputs example_context" "Info example_program" example_registry 1 "''add''" ?entry1
      "(None, [])" "(None, [])" example_context "[0]" "\<lambda>tvs. Return 0"]
  have wb: "wellBehaved (createKernelOutput example_context) (createTemporaryOutput example_context)"
    by (rule example_context_wellBehaved)
  have r1: "run (Info example_program) [?tv1] [0]
              (createKernelOutput example_context) (createTemporaryOutput example_context)
              example_registry
            = (Inl (InputSizeMustBeEqualTo (length (programInputTypes (Info example_program)))),
               example_registry)"
    by (rule inst [THEN conjunct1, THEN mp]) (rule mismatch)
  have r2: "fst (computeKernel 5 example_context example_registry2)
              = Inl (InputSizeMustBeEqualTo (length (programInputTypes (Info example_program))))
      \<and> currentKernelId (snd (computeKernel 5 example_context example_registry2)) = None
      \<and> temporaryData (snd (computeKernel 5 example_context example_registry2)) = []
      \<and> (\<forall>d \<in> set (temporaryData (snd ?run1)).
            \<not> isLive (gpuDataManager (snd (computeKernel 5 example_context example_registry2)))
                (gpuDataId d))"
    by (rule inst [THEN conjunct2, THEN conjunct1, THEN mp])
      (intro conjI wb idle2 k5 parsed reach mismatch)
  have r3: "fst (computeKernel 1 example_context example_registry)
              = Inl (InputSizeMustBeEqualTo (length (programInputTypes (Info example_program))))
      \<and> currentKernelId (snd (computeKernel 1 example_context example_registry)) = None
      \<and> temporaryData (snd (computeKernel 1 example_context example_registry)) = []
      \<and> gpuDataManager (snd (computeKernel 1 example_context example_registry))
          = gpuDataManager example_registry"
    by (rule inst [THEN conjunct2, THEN conjunct2, THEN mp])
      (intro conjI len idle k1 parsed1 refl)
  from r2 temps
  have dead: "\<not> isLive (gpuDataManager (snd (computeKernel 5 example_context example_registry2))) 1"
    by simp
  show ?thesis
    unfolding chain example_add_kernel_def fst_conv snd_conv
    by (intro conjI len r1 [unfolded arity] wb idle2 k5 parsed reach [unfolded snd_conv] mismatch temps
        r2 [unfolded arity, THEN conjunct1] r2 [THEN conjunct2, THEN conjunct1] dead
        k1 r3 [unfolded arity, THEN conjunct1] r3 [THEN conjunct2, THEN conjunct1])
qed


section \<open>Compile once per key\<close>

text \<open>
  Claim C3 speaks of the element types of the inputs. The key is built from the GPU data
  type of the buffer behind each input (\<^verbatim>\<open>inputDatas[i].type\<close>); the element type of a
  tensor does not reach it. Two runs of one program on two tensors of the same shape
  and the same element type, whose buffers differ in GPU data type, compile twice and
  dispatch two different compiled programs; a run on a tensor of another element type
  in the buffer of the first run compiles nothing.
\<close>

theorem compile_once_counterexample:
  "dims example_second_tensor = dims example_first_tensor
   \<and> dataType example_second_tensor = dataType example_first_tensor
   \<and> fst (run (Info example_unary) [example_first_tensor] [0] (\<lambda>i. allocOutput) allocOutput
            example_mixed)
       = Inr [\<lparr>data = 3, dataType = 1, dims = [2, 3]\<rparr>]
   \<and> builds (programManager
        (snd (run (Info example_unary) [example_first_tensor] [0] (\<lambda>i. allocOutput) allocOutput
               example_mixed)))
       = [example_unary]
   \<and> fst (run (Info example_unary) [example_second_tensor] [0] (\<lambda>i. allocOutput) allocOutput
        (snd (run (Info example_unary) [example_first_tensor] [0] (\<lambda>i. allocOutput) allocOutput
               example_mixed)))
       = Inr [\<lparr>data = 4, dataType = 1, dims = [2, 3]\<rparr>]
   \<and> builds (programManager
        (snd (run (Info example_unary) [example_second_tensor] [0] (\<lambda>i. allocOutput) allocOutput
          (snd (run (Info example_unary) [example_first_tensor] [0] (\<lambda>i. allocOutput) allocOutput
                 example_mixed)))))
       = [example_unary, example_unary]
   \<and> dispatchLog
        (snd (run (Info example_unary) [example_second_tensor] [0] (\<lambda>i. allocOutput) allocOutput
          (snd (run (Info example_unary) [example_first_tensor] [0] (\<lambda>i. allocOutput) allocOutput
                 example_mixed))))
       = [\<lparr>artifactProgramInfo = example_unary, computePipeline = 0\<rparr>,
          \<lparr>artifactProgramInfo = example_unary, computePipeline = 1\<rparr>]
   \<and> builds (programManager
        (snd (run (Info example_unary) [\<lparr>data = 1, dataType = 7, dims = [2, 3]\<rparr>] [0]
               (\<lambda>i. allocOutput) allocOutput
          (snd (run (Info example_unary) [example_first_tensor] [0] (\<lambda>i. allocOutput) allocOutput
                 example_mixed)))))
       = [example_unary]"
  by (simp add: example_mixed_def example_first_tensor_def example_second_tensor_def
      example_unary_def example_defs run_defs dispatchLog_def dispatched_def
      getProgramInfoUniqueKey_def numberToString_def digitChar_def)

text \<open>
  Claim C3, amended. The cache key of a \<^verbatim>\<open>run\<close> is built from the program name, the
  cache hint, and the shapes and the buffer GPU data types of the inputs, in order. A
  successful \<^verbatim>\<open>run\<close> leaves a compiled program in the cache under its key and
  dispatches that program; no later \<^verbatim>\<open>run\<close> removes or replaces a cache entry. A
  \<^verbatim>\<open>run\<close> with the same program name, cache hint, input shapes and buffer GPU data
  types as one whose compiled program is in the cache computes the same key, leaves
  the program manager as it is (it compiles nothing), and, when it succeeds,
  dispatches that same compiled program. The key tells its components apart: for one
  program name and cache hint, and as many shapes as GPU data types, different shapes
  or different GPU data types give different keys; for one cache hint and the same
  inputs, different names give different keys; for one name and the same inputs,
  different cache hints give different keys.
\<close>

theorem compile_once:
  "(sessionOk b \<and> run p1 ins1 oi1 cko1 cto1 b = (Inr outs1, b1)
      \<and> getInputDatas (gpuDataManager b) ins1 = Inr ids1 \<longrightarrow>
        sessionOk b1
      \<and> (\<exists>a. getArtifact (programManager b1)
                 (getProgramInfoUniqueKey p1 (map dims ins1) (map gpuDataType ids1)) = Some a
             \<and> dispatchLog b1 = dispatchLog b @ [a]))
   \<and> (getArtifact (programManager b3) key = Some a3 \<longrightarrow>
        getArtifact (programManager (snd (run p3 ins3 oi3 cko3 cto3 b3))) key = Some a3)
   \<and> (sessionOk b3 \<longrightarrow> sessionOk (snd (run p3 ins3 oi3 cko3 cto3 b3)))
   \<and> (sessionOk b2
      \<and> getArtifact (programManager b2)
           (getProgramInfoUniqueKey p1 (map dims ins1) (map gpuDataType ids1)) = Some a
      \<and> getInputDatas (gpuDataManager b2) ins2 = Inr ids2
      \<and> programName p2 = programName p1 \<and> cacheHintText p2 = cacheHintText p1
      \<and> map dims ins2 = map dims ins1 \<and> map gpuDataType ids2 = map gpuDataType ids1 \<longrightarrow>
        getProgramInfoUniqueKey p2 (map dims ins2) (map gpuDataType ids2)
          = getProgramInfoUniqueKey p1 (map dims ins1) (map gpuDataType ids1)
      \<and> programManager (snd (run p2 ins2 oi2 cko2 cto2 b2)) = programManager b2
      \<and> (\<forall>outs2. fst (run p2 ins2 oi2 cko2 cto2 b2) = Inr outs2 \<longrightarrow>
            dispatchLog (snd (run p2 ins2 oi2 cko2 cto2 b2)) = dispatchLog b2 @ [a]))
   \<and> (programName q2 = programName q1 \<and> cacheHintText q2 = cacheHintText q1
      \<and> length shapes1 = length types1 \<and> length shapes2 = length types2
      \<and> (shapes2 \<noteq> shapes1 \<or> types2 \<noteq> types1) \<longrightarrow>
        getProgramInfoUniqueKey q2 shapes2 types2 \<noteq> getProgramInfoUniqueKey q1 shapes1 types1)
   \<and> (programName q4 \<noteq> programName q3 \<and> cacheHintText q4 = cacheHintText q3 \<longrightarrow>
        getProgramInfoUniqueKey q4 shapes3 types3 \<noteq> getProgramInfoUniqueKey q3 shapes3 types3)
   \<and> (programName q6 = programName q5 \<and> cacheHintText q6 \<noteq> cacheHintText q5 \<longrightarrow>
        getProgramInfoUniqueKey q6 shapes5 types5 \<noteq> getProgramInfoUniqueKey q5 shapes5 types5)"
proof (intro conjI impI allI)
  assume h: "sessionOk b \<and> run p1 ins1 oi1 cko1 cto1 b = (Inr outs1, b1)
      \<and> getInputDatas (gpuDataManager b) ins1 = Inr ids1"
  then have "run p1 ins1 oi1 cko1 cto1 b = (Inr outs1, b1)"
    and "getInputDatas (gpuDataManager b) ins1 = Inr ids1" and "sessionOk b"
    by simp_all
  from run_compiles [OF this]
  show "sessionOk b1"
    and "\<exists>a. getArtifact (programManager b1)
                 (getProgramInfoUniqueKey p1 (map dims ins1) (map gpuDataType ids1)) = Some a
             \<and> dispatchLog b1 = dispatchLog b @ [a]"
    by auto
next
  assume "getArtifact (programManager b3) key = Some a3"
  from run_keeps_cache [OF this]
  show "getArtifact (programManager (snd (run p3 ins3 oi3 cko3 cto3 b3))) key = Some a3" .
next
  assume "sessionOk b3"
  from run_session [OF this] show "sessionOk (snd (run p3 ins3 oi3 cko3 cto3 b3))" .
next
  assume h: "sessionOk b2
      \<and> getArtifact (programManager b2)
           (getProgramInfoUniqueKey p1 (map dims ins1) (map gpuDataType ids1)) = Some a
      \<and> getInputDatas (gpuDataManager b2) ins2 = Inr ids2
      \<and> programName p2 = programName p1 \<and> cacheHintText p2 = cacheHintText p1
      \<and> map dims ins2 = map dims ins1 \<and> map gpuDataType ids2 = map gpuDataType ids1"
  then have "programName p2 = programName p1" and "cacheHintText p2 = cacheHintText p1"
    and same_inputs: "map dims ins2 = map dims ins1" "map gpuDataType ids2 = map gpuDataType ids1"
    by simp_all
  from key_same_program [OF this(1,2)] same_inputs
  have key: "getProgramInfoUniqueKey p2 (map dims ins2) (map gpuDataType ids2)
          = getProgramInfoUniqueKey p1 (map dims ins1) (map gpuDataType ids1)"
    by simp
  from h have ids: "getInputDatas (gpuDataManager b2) ins2 = Inr ids2"
    and ok: "sessionOk b2" by simp_all
  from h key have cached: "getArtifact (programManager b2)
           (getProgramInfoUniqueKey p2 (map dims ins2) (map gpuDataType ids2)) = Some a"
    by simp
  note reuse = run_cached [OF ids cached ok]
  from key show "getProgramInfoUniqueKey p2 (map dims ins2) (map gpuDataType ids2)
          = getProgramInfoUniqueKey p1 (map dims ins1) (map gpuDataType ids1)" .
  from reuse(1) show "programManager (snd (run p2 ins2 oi2 cko2 cto2 b2)) = programManager b2" .
  fix outs2
  assume "fst (run p2 ins2 oi2 cko2 cto2 b2) = Inr outs2"
  from reuse(2) [OF this]
  show "dispatchLog (snd (run p2 ins2 oi2 cko2 cto2 b2)) = dispatchLog b2 @ [a]" .
next
  assume h: "programName q2 = programName q1 \<and> cacheHintText q2 = cacheHintText q1
      \<and> length shapes1 = length types1 \<and> length shapes2 = length types2
      \<and> (shapes2 \<noteq> shapes1 \<or> types2 \<noteq> types1)"
  show "getProgramInfoUniqueKey q2 shapes2 types2 \<noteq> getProgramInfoUniqueKey q1 shapes1 types1"
  proof
    assume "getProgramInfoUniqueKey q2 shapes2 types2 = getProgramInfoUniqueKey q1 shapes1 types1"
    with h have "shapes2 = shapes1 \<and> types2 = types1"
      by (intro key_separates_inputs [of q2 q1]) simp_all
    with h show False by simp
  qed
next
  assume h: "programName q4 \<noteq> programName q3 \<and> cacheHintText q4 = cacheHintText q3"
  show "getProgramInfoUniqueKey q4 shapes3 types3 \<noteq> getProgramInfoUniqueKey q3 shapes3 types3"
  proof
    assume "getProgramInfoUniqueKey q4 shapes3 types3 = getProgramInfoUniqueKey q3 shapes3 types3"
    with h key_separates_names [of q4 q3 shapes3 types3] show False by simp
  qed
next
  assume h: "programName q6 = programName q5 \<and> cacheHintText q6 \<noteq> cacheHintText q5"
  show "getProgramInfoUniqueKey q6 shapes5 types5 \<noteq> getProgramInfoUniqueKey q5 shapes5 types5"
  proof
    assume "getProgramInfoUniqueKey q6 shapes5 types5 = getProgramInfoUniqueKey q5 shapes5 types5"
    with h key_separates_hints [of q6 q5 shapes5 types5] show False by simp
  qed
qed

text \<open>
  The theorem at two invocations of the \<^verbatim>\<open>add\<close> program on two tensors of shape
  2 by 3: one compilation, and the same compiled program dispatched twice; and at keys
  that differ in a GPU data type, in the program name, and in the cache hint.
\<close>

theorem compile_once_witness:
  "sessionOk example_loaded
   \<and> getInputDatas (gpuDataManager example_loaded) example_inputs
       = Inr [\<lparr>gpuDataId = 1, gpuDataType = 0\<rparr>, \<lparr>gpuDataId = 2, gpuDataType = 0\<rparr>]
   \<and> getProgramInfoUniqueKey (Info example_program) (map dims example_inputs) [0, 0]
       = ''add:2,3_2,3;0_0''
   \<and> fst (run (Info example_program) example_inputs [0] (\<lambda>i. allocOutput) allocOutput example_loaded)
       = Inr [\<lparr>data = 3, dataType = 1, dims = [2, 3]\<rparr>]
   \<and> builds (programManager
        (snd (run (Info example_program) example_inputs [0] (\<lambda>i. allocOutput) allocOutput
               example_loaded)))
       = [example_program]
   \<and> dispatchLog
        (snd (run (Info example_program) example_inputs [0] (\<lambda>i. allocOutput) allocOutput
               example_loaded))
       = [example_artifact]
   \<and> fst (run (Info example_program) example_inputs [0] (\<lambda>i. allocOutput) allocOutput
        (snd (run (Info example_program) example_inputs [0] (\<lambda>i. allocOutput) allocOutput
               example_loaded)))
       = Inr [\<lparr>data = 4, dataType = 1, dims = [2, 3]\<rparr>]
   \<and> builds (programManager
        (snd (run (Info example_program) example_inputs [0] (\<lambda>i. allocOutput) allocOutput
          (snd (run (Info example_program) example_inputs [0] (\<lambda>i. allocOutput) allocOutput
                 example_loaded)))))
       = [example_program]
   \<and> dispatchLog
        (snd (run (Info example_program) example_inputs [0] (\<lambda>i. allocOutput) allocOutput
          (snd (run (Info example_program) example_inputs [0] (\<lambda>i. allocOutput) allocOutput
                 example_loaded))))
       = [example_artifact, example_artifact]
   \<and> getProgramInfoUniqueKey (Info example_unary) [ [2, 3] ] [1] = ''neg:2,3;1''
   \<and> getProgramInfoUniqueKey (Info example_unary) [ [2, 3] ] [1]
       \<noteq> getProgramInfoUniqueKey (Info example_unary) [ [2, 3] ] [0]
   \<and> programName (Info example_unary) \<noteq> programName (Info example_program)
   \<and> cacheHintText (Info example_unary) = cacheHintText (Info example_program)
   \<and> getProgramInfoUniqueKey (Info example_unary) [ [2, 3] ] [0]
       \<noteq> getProgramInfoUniqueKey (Info example_program) [ [2, 3] ] [0]
   \<and> cacheHintText (Info example_fill) = ''f32''
   \<and> cacheHintText (Info (example_fill\<lparr>cacheHint := None\<rparr>)) = []
   \<and> getProgramInfoUniqueKey (Info example_fill) [] []
       \<noteq> getProgramInfoUniqueKey (Info (example_fill\<lparr>cacheHint := None\<rparr>)) [] []"
proof -
  let ?run = "run (Info example_program) example_inputs [0] (\<lambda>i. allocOutput) allocOutput"
  let ?b1 = "snd (?run example_loaded)"
  let ?ids = "[\<lparr>gpuDataId = 1, gpuDataType = 0\<rparr>, \<lparr>gpuDataId = 2, gpuDataType = 0\<rparr>]"
  let ?key = "getProgramInfoUniqueKey (Info example_program) (map dims example_inputs)
                (map gpuDataType ?ids)"
  have ok: "sessionOk example_loaded"
    by (simp add: sessionOk_def example_loaded_def example_defs)
  have ids: "getInputDatas (gpuDataManager example_loaded) example_inputs = Inr ?ids"
    by (simp add: example_loaded_def example_inputs_def example_defs gdm_get_def)
  have key: "getProgramInfoUniqueKey (Info example_program) (map dims example_inputs) [0, 0]
       = ''add:2,3_2,3;0_0''"
    by (simp add: getProgramInfoUniqueKey_def example_inputs_def example_program_def
        numberToString_def digitChar_def)
  have first: "fst (?run example_loaded) = Inr [\<lparr>data = 3, dataType = 1, dims = [2, 3]\<rparr>]"
    by (simp add: example_loaded_def example_inputs_def example_defs run_defs)
  then have first': "?run example_loaded = (Inr [\<lparr>data = 3, dataType = 1, dims = [2, 3]\<rparr>], ?b1)"
    by (metis prod.collapse)
  have builds1: "builds (programManager ?b1) = [example_program]"
    by (simp add: example_loaded_def example_inputs_def example_defs run_defs)
  have st1: "storageCache (gpuDataManager ?b1) = [(3, 0), (1, 0), (2, 0)]"
    by (simp add: example_loaded_def example_inputs_def example_defs run_defs)
  have lookup: "getInputDatas g example_inputs = Inr ?ids"
    if "storageCache g = [(3, 0), (1, 0), (2, 0)]" for g
    using that by (simp add: example_inputs_def gdm_get_def)
  from lookup [OF st1] have ids1: "getInputDatas (gpuDataManager ?b1) example_inputs = Inr ?ids" .
  have cached: "getArtifact (programManager ?b1) ?key = Some example_artifact"
    by (simp add: example_artifact_def example_loaded_def example_inputs_def example_defs run_defs)
  have ok1: "sessionOk ?b1"
    by (simp add: sessionOk_def example_loaded_def example_inputs_def example_defs run_defs)
  have log1: "dispatchLog ?b1 = [example_artifact]"
    by (simp add: dispatchLog_def dispatched_def example_artifact_def example_loaded_def
        example_inputs_def example_defs run_defs)
  have second: "fst (?run ?b1) = Inr [\<lparr>data = 4, dataType = 1, dims = [2, 3]\<rparr>]"
    by (simp add: example_loaded_def example_inputs_def example_defs run_defs)
  have key2: "getProgramInfoUniqueKey (Info example_unary) [ [2, 3] ] [1] = ''neg:2,3;1''"
    by (simp add: getProgramInfoUniqueKey_def example_unary_def numberToString_def digitChar_def)
  have names: "programName (Info example_unary) \<noteq> programName (Info example_program)"
    and hints: "cacheHintText (Info example_unary) = cacheHintText (Info example_program)"
    and hint1: "cacheHintText (Info example_fill) = ''f32''"
    and hint2: "cacheHintText (Info (example_fill\<lparr>cacheHint := None\<rparr>)) = []"
    by (simp_all add: cacheHintText_def example_unary_def example_program_def example_fill_def)
  note inst = compile_once [of example_loaded "Info example_program" example_inputs "[0]"
      "\<lambda>i. allocOutput" allocOutput "[\<lparr>data = 3, dataType = 1, dims = [2, 3]\<rparr>]" ?b1 ?ids
      ?b1 ?key example_artifact "Info example_program" example_inputs "[0]"
      "\<lambda>i. allocOutput" allocOutput ?b1 example_artifact example_inputs ?ids
      "Info example_program" "[0]" "\<lambda>i. allocOutput" allocOutput
      "Info example_unary" "Info example_unary" "[ [2, 3] ]" "[0]" "[ [2, 3] ]" "[1]"
      "Info example_unary" "Info example_program" "[ [2, 3] ]" "[0]"
      "Info example_fill" "Info (example_fill\<lparr>cacheHint := None\<rparr>)" "[]" "[]"]
  have reuse: "programManager (snd (?run ?b1)) = programManager ?b1
      \<and> (\<forall>outs2. fst (?run ?b1) = Inr outs2 \<longrightarrow>
            dispatchLog (snd (?run ?b1)) = dispatchLog ?b1 @ [example_artifact])"
    by (rule inst [THEN conjunct2, THEN conjunct2, THEN conjunct2, THEN conjunct1, THEN mp,
          THEN conjunct2])
      (intro conjI ok1 cached ids1 refl)
  from reuse second have log2: "dispatchLog (snd (?run ?b1)) = dispatchLog ?b1 @ [example_artifact]"
    by blast
  have sep1: "getProgramInfoUniqueKey (Info example_unary) [ [2, 3] ] [1]
       \<noteq> getProgramInfoUniqueKey (Info example_unary) [ [2, 3] ] [0]"
    by (rule inst [THEN conjunct2, THEN conjunct2, THEN conjunct2, THEN conjunct2, THEN conjunct1,
          THEN mp]) simp
  have sep2: "getProgramInfoUniqueKey (Info example_unary) [ [2, 3] ] [0]
       \<noteq> getProgramInfoUniqueKey (Info example_program) [ [2, 3] ] [0]"
    by (rule inst [THEN conjunct2, THEN conjunct2, THEN conjunct2, THEN conjunct2, THEN conjunct2,
          THEN conjunct1, THEN mp]) (intro conjI names hints)
  have sep3: "getProgramInfoUniqueKey (Info example_fill) [] []
       \<noteq> getProgramInfoUniqueKey (Info (example_fill\<lparr>cacheHint := None\<rparr>)) [] []"
    by (rule inst [THEN conjunct2, THEN conjunct2, THEN conjunct2, THEN conjunct2, THEN conjunct2,
          THEN conjunct2, THEN mp]) (simp add: hint1 hint2)
  from reuse have builds2: "builds (programManager (snd (?run ?b1))) = [example_program]"
    using builds1 by simp
  show ?thesis
    by (intro conjI ok ids key first builds1 log1 second builds2 log2 [unfolded log1 append_Cons append_Nil]
        key2 sep1 names hints sep2 hint1 hint2 sep3)
qed

end
